(* ===== verification/Prelude.thy ===== *)
theory Prelude
  imports Main "HOL-Library.Word"
begin

unbundle bit_operations_syntax

section \<open>Shared types, slices and big-endian integers\<close>

text \<open>
  Vocabulary shared by every component of the development.  Go byte slices
  and Go strings are both lists of 8-bit words; the fixed-width integers of
  the source keep their width.  \<open>subslice\<close> and \<open>put_at\<close> are the Go expressions
  \<^verbatim>\<open>buf[off:off+n]\<close> and \<^verbatim>\<open>copy(buf[off:], bs)\<close> for a range that fits.
  The lemmas of this theory are the ones every encoder and decoder uses:
  writing next to what was written is writing the concatenation, and a read
  of a written range gives the bytes back.
\<close>

type_synonym byte = "8 word"
type_synonym bytes = "8 word list"
type_synonym uint16 = "16 word"
type_synonym uint32 = "32 word"
type_synonym uint64 = "64 word"

named_theorems codec_simps \<open>equations that normalise reads and writes of a buffer\<close>

text \<open>
  The error values of the source: the sentinel errors of
  \<^verbatim>\<open>internal/protocol\<close>, an error made by \<^verbatim>\<open>fmt.Errorf\<close> (its fixed text, without
  the formatted operands) and an error wrapped with \<^verbatim>\<open>%w\<close>.
\<close>

datatype error =
    ErrBufferTooSmall | ErrInvalidOffset | ErrNilBuffer
  | ErrLabelTooLong | ErrNameTooLong | ErrInvalidLabel | ErrInvalidPointer
  | ErrPointerLoop | ErrPointerTooDeep | ErrInvalidWireData
  | Errorf string | Wrapf string error

type_synonym 'a result = "error + 'a"

subsection \<open>Results\<close>

fun is_ok :: "'a result \<Rightarrow> bool" where
  "is_ok (Inr _) = True"
| "is_ok (Inl _) = False"

lemma is_ok_iff: "is_ok r \<longleftrightarrow> (\<exists>x. r = Inr x)"
  by (cases r) auto

lemma not_is_ok_iff: "\<not> is_ok r \<longleftrightarrow> (\<exists>e. r = Inl e)"
  by (cases r) auto

subsection \<open>Slices\<close>

definition subslice :: "'a list \<Rightarrow> nat \<Rightarrow> nat \<Rightarrow> 'a list" where
  "subslice buf off n = take n (drop off buf)"

definition put_at :: "'a list \<Rightarrow> nat \<Rightarrow> 'a list \<Rightarrow> 'a list" where
  "put_at buf off bs = take off buf @ bs @ drop (off + length bs) buf"

lemma length_subslice [simp]: "off + n \<le> length buf \<Longrightarrow> length (subslice buf off n) = n"
  by (simp add: subslice_def)

lemma length_put_at [simp]:
  "off + length bs \<le> length buf \<Longrightarrow> length (put_at buf off bs) = length buf"
  by (simp add: put_at_def)

lemma put_at_Nil [simp]: "put_at buf off [] = buf"
  by (simp add: put_at_def)

lemma take_put_at [simp]:
  "off + length bs \<le> length buf \<Longrightarrow> k \<le> off \<Longrightarrow> take k (put_at buf off bs) = take k buf"
  by (simp add: put_at_def min_def)

lemma put_at_put_at [codec_simps]:
  assumes "off + length a + length b \<le> length buf" "off' = off + length a"
  shows "put_at (put_at buf off a) off' b = put_at buf off (a @ b)"
  using assms by (simp add: put_at_def add.commute add.left_commute)

lemma subslice_put_at:
  assumes "off + length bs \<le> length buf" "n = length bs"
  shows "subslice (put_at buf off bs) off n = bs"
  using assms by (simp add: put_at_def subslice_def)

lemma subslice_append_first:
  assumes "subslice buf off n = a @ b" "k = length a"
  shows "subslice buf off k = a"
proof -
  have "length (a @ b) \<le> n"
    by (simp add: assms(1) [symmetric] subslice_def)
  then have "take k (subslice buf off n) = subslice buf off k"
    using assms(2) by (simp add: subslice_def min_def)
  then show ?thesis
    using assms by simp
qed

lemma subslice_append_second:
  assumes "subslice buf off n = a @ b" "off' = off + length a" "k = length b"
  shows "subslice buf off' k = b"
proof -
  have "drop (length a) (subslice buf off n) = b"
    by (simp add: assms(1))
  then have *: "take (n - length a) (drop (off + length a) buf) = b"
    by (simp add: subslice_def drop_take add.commute)
  then have "take (length b) (take (n - length a) (drop (off + length a) buf)) = b"
    by simp
  moreover have "length b \<le> n - length a"
    using * by (metis length_take min.cobounded2)
  ultimately show ?thesis
    using assms(2,3) by (simp add: subslice_def min_def)
qed

lemma subslice_nth:
  assumes "i < n" "off + i < length buf"
  shows "subslice buf off n ! i = buf ! (off + i)"
  using assms by (simp add: subslice_def)

lemma subslice_fits:
  assumes "subslice buf off n = bs" "n = length bs" "bs \<noteq> []"
  shows "off + n \<le> length buf"
proof -
  have "min (length buf - off) n = n"
    using assms(1,2) by (metis length_drop length_take subslice_def)
  moreover have "0 < n"
    using assms(2,3) by simp
  ultimately show ?thesis by (simp add: min_def split: if_splits)
qed

lemma subslice_take:
  "off + n \<le> m \<Longrightarrow> subslice (take m buf) off n = subslice buf off n"
  by (simp add: subslice_def drop_take)

lemma subslice_Cons_nth:
  assumes "subslice buf off n = b # bs" "off < length buf"
  shows "buf ! off = b"
  using assms subslice_nth [of 0 n off buf] by (cases n) (auto simp: subslice_def)

lemma subslice_eq_Cons:
  "off < length buf \<Longrightarrow> subslice buf off (Suc n) = buf ! off # subslice buf (Suc off) n"
  by (simp add: subslice_def Cons_nth_drop_Suc [symmetric])

lemma subslice_zero [simp]: "subslice buf off 0 = []"
  by (simp add: subslice_def)

lemma take_subslice_drop: "subslice buf off n @ drop (off + n) buf = drop off buf"
  by (simp add: subslice_def add.commute) (metis append_take_drop_id drop_drop)

subsection \<open>Big-endian integers (package encoding/binary)\<close>

definition be16 :: "uint16 \<Rightarrow> bytes" where
  "be16 v = [ucast (drop_bit 8 v), ucast v]"

definition be32 :: "uint32 \<Rightarrow> bytes" where
  "be32 v = [ucast (drop_bit 24 v), ucast (drop_bit 16 v), ucast (drop_bit 8 v), ucast v]"

definition of_be16 :: "byte \<Rightarrow> byte \<Rightarrow> uint16" where
  "of_be16 a b = push_bit 8 (ucast a) OR ucast b"

definition of_be32 :: "byte \<Rightarrow> byte \<Rightarrow> byte \<Rightarrow> byte \<Rightarrow> uint32" where
  "of_be32 a b c d =
     push_bit 24 (ucast a) OR push_bit 16 (ucast b) OR push_bit 8 (ucast c) OR ucast d"

lemma length_be16 [simp]: "length (be16 v) = 2"
  by (simp add: be16_def)

lemma length_be32 [simp]: "length (be32 v) = 4"
  by (simp add: be32_def)

lemma byte_bit_high: "8 \<le> m \<Longrightarrow> \<not> bit (b :: byte) m"
  using bit_imp_le_length [of b m] by auto

lemma of_be16_be16 [simp]: "of_be16 (ucast (drop_bit 8 v)) (ucast v) = v"
  unfolding of_be16_def
  by (rule bit_word_eqI) (auto simp: bit_simps)

lemma be16_of_be16 [simp]: "be16 (of_be16 a b) = [a, b]"
  unfolding be16_def of_be16_def
  by (auto intro!: bit_word_eqI simp: bit_simps byte_bit_high)

lemma of_be32_be32 [simp]:
  "of_be32 (ucast (drop_bit 24 v)) (ucast (drop_bit 16 v)) (ucast (drop_bit 8 v)) (ucast v) = v"
proof (rule bit_word_eqI)
  fix n
  assume "n < LENGTH(32)"
  then consider "n < 8" | "8 \<le> n" "n < 16" | "16 \<le> n" "n < 24" | "24 \<le> n" "n < 32"
    by fastforce
  then show "bit (of_be32 (ucast (drop_bit 24 v)) (ucast (drop_bit 16 v))
      (ucast (drop_bit 8 v)) (ucast v)) n = bit v n"
    by cases (auto simp: of_be32_def bit_simps)
qed

lemma be32_of_be32 [simp]: "be32 (of_be32 a b c d) = [a, b, c, d]"
  unfolding be32_def of_be32_def
  by (auto intro!: bit_word_eqI simp: bit_simps byte_bit_high)

subsection \<open>Sequencing results\<close>

text \<open>\<open>and_then\<close> sequences fallible calls: the \<^verbatim>\<open>if err != nil\<close> of the source.\<close>

definition and_then :: "'a result \<Rightarrow> ('a \<Rightarrow> 'b result) \<Rightarrow> 'b result" where
  "and_then r f = (case r of Inl e \<Rightarrow> Inl e | Inr x \<Rightarrow> f x)"

lemma and_then_simps [simp]: "and_then (Inl e) f = Inl e" "and_then (Inr x) f = f x"
  by (simp_all add: and_then_def)

lemma and_then_Inr: "and_then r f = Inr y \<longleftrightarrow> (\<exists>x. r = Inr x \<and> f x = Inr y)"
  by (cases r) simp_all

text \<open>\<^verbatim>\<open>fmt.Errorf("...: %w", err)\<close>: an error gets a context.\<close>

definition wrap_err :: "string \<Rightarrow> 'a result \<Rightarrow> 'a result" where
  "wrap_err s r = (case r of Inl e \<Rightarrow> Inl (Wrapf s e) | Inr x \<Rightarrow> Inr x)"

lemma wrap_err_simps [simp]:
  "wrap_err s (Inl e) = Inl (Wrapf s e)" "wrap_err s (Inr x) = Inr x" "wrap_err s r = Inr x \<longleftrightarrow> r = Inr x"
  by (cases r; simp add: wrap_err_def)+

end
