(* ===== verification/Wire.thy ===== *)
theory Wire
  imports Prelude
begin

unbundle bit_operations_syntax

section \<open>The wire buffer and its integer helpers (internal/protocol/wire.go)\<close>

text \<open>
  The \<^verbatim>\<open>Buffer\<close> of \<^verbatim>\<open>wire.go\<close>: a fixed array, a cursor and the length of the
  valid data, with its bounds-checked writes and reads; the big-endian helpers
  on plain slices, which do nothing (or give zero) on a short slice; and the
  header sanity check \<^verbatim>\<open>ValidateMessage\<close>.  A method's nil receiver is the
  value \<^term>\<open>None\<close>.  The locale \<open>buffer_field\<close> is the contract the three integer
  widths share; its client lemma is the write/seek/read round trip.
\<close>

definition MinBufferSize :: nat where "MinBufferSize = 512"
definition MaxUDPSize :: nat where "MaxUDPSize = 512"
definition MaxEDNSSize :: nat where "MaxEDNSSize = 4096"
definition MaxTCPSize :: nat where "MaxTCPSize = 65535"

record Buffer =
  buf_data :: bytes
  buf_offset :: nat
  buf_length :: nat

definition NewBuffer :: "int \<Rightarrow> Buffer" where
  "NewBuffer n =
     (let n' = (if n < int MinBufferSize then MinBufferSize else nat n)
      in \<lparr>buf_data = replicate n' 0, buf_offset = 0, buf_length = 0\<rparr>)"

definition NewBufferFromData :: "bytes \<Rightarrow> Buffer" where
  "NewBufferFromData d = \<lparr>buf_data = d, buf_offset = 0, buf_length = length d\<rparr>"

definition Reset :: "Buffer option \<Rightarrow> Buffer option" where
  "Reset b = map_option (\<lambda>b. b\<lparr>buf_offset := 0, buf_length := 0\<rparr>) b"

definition Buffer_Bytes :: "Buffer option \<Rightarrow> bytes" where
  "Buffer_Bytes b = (case b of None \<Rightarrow> [] | Some b \<Rightarrow> take (buf_length b) (buf_data b))"

definition Capacity :: "Buffer option \<Rightarrow> nat" where
  "Capacity b = (case b of None \<Rightarrow> 0 | Some b \<Rightarrow> length (buf_data b))"

definition SetOffset :: "Buffer option \<Rightarrow> int \<Rightarrow> Buffer result" where
  "SetOffset b off =
     (case b of
        None \<Rightarrow> Inl ErrNilBuffer
      | Some b \<Rightarrow>
          if off < 0 \<or> off > int (length (buf_data b)) then Inl ErrInvalidOffset
          else Inr (b\<lparr>buf_offset := nat off\<rparr>))"

definition Remaining :: "Buffer option \<Rightarrow> int" where
  "Remaining b =
     (case b of None \<Rightarrow> 0 | Some b \<Rightarrow> int (buf_length b) - int (buf_offset b))"

definition Available :: "Buffer option \<Rightarrow> int" where
  "Available b =
     (case b of None \<Rightarrow> 0 | Some b \<Rightarrow> int (length (buf_data b)) - int (buf_offset b))"

text \<open>The tail every write shares: the bytes are stored, the cursor moves past
  them and the valid length grows with the cursor.\<close>

definition advance_write :: "Buffer \<Rightarrow> bytes \<Rightarrow> Buffer" where
  "advance_write b bs =
     (let off = buf_offset b + length bs
      in b\<lparr>buf_data := put_at (buf_data b) (buf_offset b) bs, buf_offset := off,
           buf_length := (if off > buf_length b then off else buf_length b)\<rparr>)"

definition WriteUint8 :: "Buffer option \<Rightarrow> byte \<Rightarrow> Buffer result" where
  "WriteUint8 b v =
     (case b of
        None \<Rightarrow> Inl ErrNilBuffer
      | Some b \<Rightarrow>
          if buf_offset b \<ge> length (buf_data b) then Inl ErrBufferTooSmall
          else Inr (advance_write b [v]))"

definition WriteUint16 :: "Buffer option \<Rightarrow> uint16 \<Rightarrow> Buffer result" where
  "WriteUint16 b v =
     (case b of
        None \<Rightarrow> Inl ErrNilBuffer
      | Some b \<Rightarrow>
          if buf_offset b + 2 > length (buf_data b) then Inl ErrBufferTooSmall
          else Inr (advance_write b (be16 v)))"

definition WriteUint32 :: "Buffer option \<Rightarrow> uint32 \<Rightarrow> Buffer result" where
  "WriteUint32 b v =
     (case b of
        None \<Rightarrow> Inl ErrNilBuffer
      | Some b \<Rightarrow>
          if buf_offset b + 4 > length (buf_data b) then Inl ErrBufferTooSmall
          else Inr (advance_write b (be32 v)))"

definition WriteBytes :: "Buffer option \<Rightarrow> bytes \<Rightarrow> Buffer result" where
  "WriteBytes b d =
     (case b of
        None \<Rightarrow> Inl ErrNilBuffer
      | Some b \<Rightarrow>
          if buf_offset b + length d > length (buf_data b) then Inl ErrBufferTooSmall
          else Inr (advance_write b d))"

definition ReadUint8 :: "Buffer option \<Rightarrow> (byte \<times> Buffer) result" where
  "ReadUint8 b =
     (case b of
        None \<Rightarrow> Inl ErrNilBuffer
      | Some b \<Rightarrow>
          if buf_offset b \<ge> buf_length b then Inl ErrBufferTooSmall
          else Inr (buf_data b ! buf_offset b, b\<lparr>buf_offset := buf_offset b + 1\<rparr>))"

definition BigEndian_Uint16 :: "bytes \<Rightarrow> uint16" where
  "BigEndian_Uint16 d = of_be16 (d ! 0) (d ! 1)"

definition BigEndian_Uint32 :: "bytes \<Rightarrow> uint32" where
  "BigEndian_Uint32 d = of_be32 (d ! 0) (d ! 1) (d ! 2) (d ! 3)"

definition ReadUint16 :: "Buffer option \<Rightarrow> (uint16 \<times> Buffer) result" where
  "ReadUint16 b =
     (case b of
        None \<Rightarrow> Inl ErrNilBuffer
      | Some b \<Rightarrow>
          if buf_offset b + 2 > buf_length b then Inl ErrBufferTooSmall
          else Inr (BigEndian_Uint16 (drop (buf_offset b) (buf_data b)),
                    b\<lparr>buf_offset := buf_offset b + 2\<rparr>))"

definition ReadUint32 :: "Buffer option \<Rightarrow> (uint32 \<times> Buffer) result" where
  "ReadUint32 b =
     (case b of
        None \<Rightarrow> Inl ErrNilBuffer
      | Some b \<Rightarrow>
          if buf_offset b + 4 > buf_length b then Inl ErrBufferTooSmall
          else Inr (BigEndian_Uint32 (drop (buf_offset b) (buf_data b)),
                    b\<lparr>buf_offset := buf_offset b + 4\<rparr>))"

definition ReadBytes :: "Buffer option \<Rightarrow> int \<Rightarrow> (bytes \<times> Buffer) result" where
  "ReadBytes b n =
     (case b of
        None \<Rightarrow> Inl ErrNilBuffer
      | Some b \<Rightarrow>
          if n < 0 then Inl ErrInvalidOffset
          else if int (buf_offset b) + n > int (buf_length b) then Inl ErrBufferTooSmall
          else Inr (subslice (buf_data b) (buf_offset b) (nat n),
                    b\<lparr>buf_offset := buf_offset b + nat n\<rparr>))"

definition PeekUint16 :: "Buffer option \<Rightarrow> uint16 result" where
  "PeekUint16 b =
     (case b of
        None \<Rightarrow> Inl ErrNilBuffer
      | Some b \<Rightarrow>
          if buf_offset b + 2 > buf_length b then Inl ErrBufferTooSmall
          else Inr (BigEndian_Uint16 (drop (buf_offset b) (buf_data b))))"

definition Skip :: "Buffer option \<Rightarrow> int \<Rightarrow> Buffer result" where
  "Skip b n =
     (case b of
        None \<Rightarrow> Inl ErrNilBuffer
      | Some b \<Rightarrow>
          if n < 0 then Inl ErrInvalidOffset
          else if int (buf_offset b) + n > int (buf_length b) then Inl ErrBufferTooSmall
          else Inr (b\<lparr>buf_offset := buf_offset b + nat n\<rparr>))"

subsection \<open>Helpers on plain slices\<close>

definition PutUint16 :: "bytes \<Rightarrow> uint16 \<Rightarrow> bytes" where
  "PutUint16 b v = (if length b < 2 then b else put_at b 0 (be16 v))"

definition PutUint32 :: "bytes \<Rightarrow> uint32 \<Rightarrow> bytes" where
  "PutUint32 b v = (if length b < 4 then b else put_at b 0 (be32 v))"

definition Uint16 :: "bytes \<Rightarrow> uint16" where
  "Uint16 b = (if length b < 2 then 0 else BigEndian_Uint16 b)"

definition Uint32 :: "bytes \<Rightarrow> uint32" where
  "Uint32 b = (if length b < 4 then 0 else BigEndian_Uint32 b)"

definition Uint48 :: "bytes \<Rightarrow> uint64" where
  "Uint48 b =
     (if length b < 6 then 0
      else push_bit 40 (ucast (b ! 0)) OR push_bit 32 (ucast (b ! 1)) OR
           push_bit 24 (ucast (b ! 2)) OR push_bit 16 (ucast (b ! 3)) OR
           push_bit 8 (ucast (b ! 4)) OR ucast (b ! 5))"

definition PutUint48 :: "bytes \<Rightarrow> uint64 \<Rightarrow> bytes" where
  "PutUint48 b v =
     (if length b < 6 then b
      else put_at b 0 [ucast (drop_bit 40 v), ucast (drop_bit 32 v), ucast (drop_bit 24 v),
                       ucast (drop_bit 16 v), ucast (drop_bit 8 v), ucast v])"

text \<open>A call \<^verbatim>\<open>PutUint16(buf[off:], v)\<close> writes through the slice into \<open>buf\<close>.\<close>

definition PutUint16_at :: "bytes \<Rightarrow> nat \<Rightarrow> uint16 \<Rightarrow> bytes" where
  "PutUint16_at buf off v = take off buf @ PutUint16 (drop off buf) v"

definition PutUint32_at :: "bytes \<Rightarrow> nat \<Rightarrow> uint32 \<Rightarrow> bytes" where
  "PutUint32_at buf off v = take off buf @ PutUint32 (drop off buf) v"

primrec PackUint16 :: "int list \<Rightarrow> uint16" where
  "PackUint16 [] = 0"
| "PackUint16 (i # is) =
     (if 0 \<le> i \<and> i < 16 then push_bit (nat i) 1 OR PackUint16 is else PackUint16 is)"

text \<open>A negative shift count panics in Go: \<^term>\<open>None\<close>.\<close>

definition UnpackUint16 :: "uint16 \<Rightarrow> int \<Rightarrow> bool option" where
  "UnpackUint16 v pos = (if pos < 0 then None else Some (v AND push_bit (nat pos) 1 \<noteq> 0))"

definition ValidateMessage :: "bytes \<Rightarrow> error option" where
  "ValidateMessage d =
     (if length d < 12 then Some (Errorf ''message too short'')
      else
        let qdcount = BigEndian_Uint16 (drop 4 d); ancount = BigEndian_Uint16 (drop 6 d);
            nscount = BigEndian_Uint16 (drop 8 d); arcount = BigEndian_Uint16 (drop 10 d)
        in if unat qdcount > 256 \<or> unat ancount > 512 \<or> unat nscount > 512 \<or> unat arcount > 512
           then Some (Errorf ''record count exceeds reasonable limits'')
           else None)"

subsection \<open>Reads and writes of a buffer normalise\<close>

lemma PutUint16_at_eq [codec_simps]:
  "off + 2 \<le> length buf \<Longrightarrow> PutUint16_at buf off v = put_at buf off (be16 v)"
  by (auto simp: PutUint16_at_def PutUint16_def put_at_def)

lemma PutUint32_at_eq [codec_simps]:
  "off + 4 \<le> length buf \<Longrightarrow> PutUint32_at buf off v = put_at buf off (be32 v)"
  by (auto simp: PutUint32_at_def PutUint32_def put_at_def add.commute)

lemma Uint16_drop:
  assumes "subslice buf off 2 = be16 v"
  shows "Uint16 (drop off buf) = v"
proof -
  have "off + 2 \<le> length buf"
    using subslice_fits [OF assms] by (auto simp: be16_def)
  moreover have "buf ! off = ucast (drop_bit 8 v)" "buf ! (off + 1) = ucast v"
    using subslice_nth [of 0 2 off buf] subslice_nth [of 1 2 off buf] assms calculation
    by (simp_all add: be16_def)
  ultimately show ?thesis
    by (auto simp: Uint16_def BigEndian_Uint16_def)
qed

lemma Uint32_drop:
  assumes "subslice buf off 4 = be32 v"
  shows "Uint32 (drop off buf) = v"
proof -
  have fit: "off + 4 \<le> length buf"
    using subslice_fits [OF assms] by (auto simp: be32_def)
  have "buf ! (off + i) = be32 v ! i" if "i < 4" for i
    using subslice_nth [of i 4 off buf] assms that fit by simp
  from this [of 0] this [of 1] this [of 2] this [of 3] fit show ?thesis
    by (auto simp: Uint32_def BigEndian_Uint32_def be32_def)
qed

lemma Uint16_PutUint16: "2 \<le> length b \<Longrightarrow> Uint16 (PutUint16 b v) = v"
  using Uint16_drop [of "put_at b 0 (be16 v)" 0 v]
  by (simp add: PutUint16_def subslice_put_at)

lemma Uint32_PutUint32: "4 \<le> length b \<Longrightarrow> Uint32 (PutUint32 b v) = v"
  using Uint32_drop [of "put_at b 0 (be32 v)" 0 v]
  by (simp add: PutUint32_def subslice_put_at)

lemma Uint48_PutUint48:
  assumes "6 \<le> length b"
  shows "Uint48 (PutUint48 b v) = take_bit 48 v"
proof (rule bit_word_eqI)
  fix n
  assume "n < LENGTH(64)"
  then consider "n < 8" | "8 \<le> n" "n < 16" | "16 \<le> n" "n < 24" | "24 \<le> n" "n < 32"
    | "32 \<le> n" "n < 40" | "40 \<le> n" "n < 48" | "48 \<le> n" "n < 64"
    by fastforce
  moreover have "length (PutUint48 b v) = length b"
    using assms by (simp add: PutUint48_def)
  ultimately show "bit (Uint48 (PutUint48 b v)) n = bit (take_bit 48 v) n"
    using assms by cases (auto simp: Uint48_def PutUint48_def put_at_def bit_simps byte_bit_high)
qed

subsection \<open>The buffer's invariant\<close>

text \<open>Cursor and valid length stay inside the array; \<^verbatim>\<open>SetOffset\<close> may move the
  cursor past the valid data, so the two are not ordered.\<close>

definition buffer_inv :: "Buffer \<Rightarrow> bool" where
  "buffer_inv b \<longleftrightarrow> buf_offset b \<le> length (buf_data b) \<and> buf_length b \<le> length (buf_data b)"

datatype buffer_op =
    OpReset | OpSetOffset int | OpSkip int | OpReadBytes int
  | OpReadUint8 | OpReadUint16 | OpReadUint32
  | OpWriteUint8 byte | OpWriteUint16 uint16 | OpWriteUint32 uint32 | OpWriteBytes bytes

text \<open>One call on a buffer; a failed call leaves the buffer as it was.\<close>

definition keep_ok :: "Buffer \<Rightarrow> Buffer result \<Rightarrow> Buffer" where
  "keep_ok b r = (case r of Inl _ \<Rightarrow> b | Inr b' \<Rightarrow> b')"

fun buffer_step :: "Buffer \<Rightarrow> buffer_op \<Rightarrow> Buffer" where
  "buffer_step b OpReset = the (Reset (Some b))"
| "buffer_step b (OpSetOffset i) = keep_ok b (SetOffset (Some b) i)"
| "buffer_step b (OpSkip i) = keep_ok b (Skip (Some b) i)"
| "buffer_step b (OpReadBytes i) = keep_ok b (map_sum id snd (ReadBytes (Some b) i))"
| "buffer_step b OpReadUint8 = keep_ok b (map_sum id snd (ReadUint8 (Some b)))"
| "buffer_step b OpReadUint16 = keep_ok b (map_sum id snd (ReadUint16 (Some b)))"
| "buffer_step b OpReadUint32 = keep_ok b (map_sum id snd (ReadUint32 (Some b)))"
| "buffer_step b (OpWriteUint8 v) = keep_ok b (WriteUint8 (Some b) v)"
| "buffer_step b (OpWriteUint16 v) = keep_ok b (WriteUint16 (Some b) v)"
| "buffer_step b (OpWriteUint32 v) = keep_ok b (WriteUint32 (Some b) v)"
| "buffer_step b (OpWriteBytes d) = keep_ok b (WriteBytes (Some b) d)"

lemma advance_write_inv:
  assumes "buf_length b \<le> length (buf_data b)" "buf_offset b + length bs \<le> length (buf_data b)"
  shows "buffer_inv (advance_write b bs)"
    and "length (buf_data (advance_write b bs)) = length (buf_data b)"
  using assms by (simp_all add: buffer_inv_def advance_write_def Let_def)

lemmas write_defs = WriteUint8_def WriteUint16_def WriteUint32_def WriteBytes_def
lemmas read_defs = ReadUint8_def ReadUint16_def ReadUint32_def ReadBytes_def
lemmas seek_defs = Reset_def SetOffset_def Skip_def

lemma buffer_step_inv:
  assumes "buffer_inv b"
  shows "buffer_inv (buffer_step b opr) \<and>
         length (buf_data (buffer_step b opr)) = length (buf_data b)"
proof -
  have b: "buf_offset b \<le> length (buf_data b)" "buf_length b \<le> length (buf_data b)"
    using assms by (simp_all add: buffer_inv_def)
  show ?thesis
    using b
    by (cases opr)
      (simp_all add: keep_ok_def write_defs read_defs seek_defs advance_write_inv assms
        buffer_inv_def [where b = "b\<lparr>buf_offset := i\<rparr>" for i]
        buffer_inv_def [where b = "b\<lparr>buf_offset := i, buf_length := j\<rparr>" for i j] Let_def, arith+)
qed

lemma buffer_run_inv:
  assumes "buffer_inv b"
  shows "buffer_inv (foldl buffer_step b ops) \<and>
         length (buf_data (foldl buffer_step b ops)) = length (buf_data b)"
  using assms by (induction ops arbitrary: b) (auto simp: buffer_step_inv)

subsection \<open>The contract of an integer field\<close>

text \<open>
  The three integer widths of the buffer promise the same: a write is a write
  of a fixed-width encoding, a read is a decoding of that many bytes at the
  cursor, and decoding inverts encoding.  What a caller relies on, that a value
  written, sought back and read is the value, is proved once.
\<close>

locale buffer_field =
  fixes wr :: "Buffer option \<Rightarrow> 'v \<Rightarrow> Buffer result"
    and rd :: "Buffer option \<Rightarrow> ('v \<times> Buffer) result"
    and enc :: "'v \<Rightarrow> bytes"
    and dec :: "bytes \<Rightarrow> 'v"
    and width :: nat
  assumes width_enc: "length (enc v) = width"
    and dec_enc: "dec (enc v) = v"
    and wr_eq: "wr ob v = WriteBytes ob (enc v)"
    and rd_eq: "buf_length b \<le> length (buf_data b) \<Longrightarrow>
      rd (Some b) =
        (if buf_offset b + width > buf_length b then Inl ErrBufferTooSmall
         else Inr (dec (subslice (buf_data b) (buf_offset b) width),
                   b\<lparr>buf_offset := buf_offset b + width\<rparr>))"
begin

lemma wr_ok_iff:
  "is_ok (wr (Some b) v) \<longleftrightarrow> buf_offset b + width \<le> length (buf_data b)"
  by (simp add: wr_eq WriteBytes_def width_enc)

lemma write_seek_read:
  assumes "buffer_inv b" "wr (Some b) v = Inr b1"
  shows "\<exists>b2. SetOffset (Some b1) (int (buf_offset b)) = Inr b2 \<and> rd (Some b2) = Inr (v, b1)"
proof -
  have fit: "buf_offset b + width \<le> length (buf_data b)"
    and b1: "b1 = advance_write b (enc v)"
    using assms(2) by (auto simp: wr_eq WriteBytes_def width_enc split: if_splits)
  define b2 where "b2 = b1\<lparr>buf_offset := buf_offset b\<rparr>"
  have "SetOffset (Some b1) (int (buf_offset b)) = Inr b2"
    using fit by (simp add: SetOffset_def b1 advance_write_def Let_def width_enc b2_def)
  moreover have "rd (Some b2) = Inr (v, b1)"
    using fit assms(1)
    by (subst rd_eq)
      (auto simp: b2_def b1 advance_write_def Let_def width_enc subslice_put_at dec_enc
        buffer_inv_def)
  ultimately show ?thesis by blast
qed

end

interpretation u8: buffer_field WriteUint8 ReadUint8 "\<lambda>v. [v]" hd 1
proof (unfold_locales, goal_cases)
  case (4 b)
  then show ?case
    by (auto simp: ReadUint8_def subslice_eq_Cons)
qed (auto simp: WriteUint8_def WriteBytes_def split: option.split)

interpretation u16: buffer_field WriteUint16 ReadUint16 be16 BigEndian_Uint16 2
proof (unfold_locales, goal_cases)
  case (4 b)
  then show ?case
    by (auto simp: ReadUint16_def BigEndian_Uint16_def subslice_def)
qed (auto simp: WriteUint16_def WriteBytes_def BigEndian_Uint16_def be16_def split: option.split)

interpretation u32: buffer_field WriteUint32 ReadUint32 be32 BigEndian_Uint32 4
proof (unfold_locales, goal_cases)
  case (4 b)
  then show ?case
    by (auto simp: ReadUint32_def BigEndian_Uint32_def subslice_def)
qed (auto simp: WriteUint32_def WriteBytes_def BigEndian_Uint32_def be32_def split: option.split)


text \<open>A 32 bit integer that fits is written at the cursor, and reading after a seek back to
  where it was written returns it with the buffer as the write left it.\<close>

lemma Buffer_write_read:
  assumes "buffer_inv b" "buf_offset b + 4 \<le> length (buf_data b)"
  shows "\<exists>b1 b2. WriteUint32 (Some b) v = Inr b1 \<and> SetOffset (Some b1) (int (buf_offset b)) = Inr b2 \<and>
    ReadUint32 (Some b2) = Inr (v, b1)"
proof -
  obtain b1 where "WriteUint32 (Some b) v = Inr b1"
    using u32.wr_ok_iff [of b v] assms by (auto simp: is_ok_iff)
  with u32.write_seek_read [OF assms(1) this] show ?thesis by blast
qed

end
