(* ===== verification/Labels.thy ===== *)
theory Labels
  imports Wire "HOL-Library.Sublist"
begin

unbundle bit_operations_syntax

section \<open>Domain names and label compression (internal/protocol/labels.go)\<close>

text \<open>
  Names in wire form, their validation, the printer and parser of the
  presentation form, and the two routines every message goes through:
  \<^verbatim>\<open>PackName\<close>, which writes a name with suffix compression against the map of
  the names already written, and \<^verbatim>\<open>UnpackName\<close>, which follows compression
  pointers.  A forward loop over \<^verbatim>\<open>wire[i:]\<close> is a recursion on the remaining
  bytes; \<^verbatim>\<open>UnpackName\<close>, whose cursor also jumps backwards, keeps the offset.
  The relation \<open>name_at\<close> is the specification of compressed names (RFC 1035,
  4.1.4) both routines are proved against.
\<close>

definition PointerMask :: byte where "PointerMask = 0xC0"
definition PointerOffsetMask :: uint16 where "PointerOffsetMask = 0x3FFF"
definition MaxLabelLength :: nat where "MaxLabelLength = 63"
definition MaxNameLength :: nat where "MaxNameLength = 255"
definition MaxPointerDepth :: nat where "MaxPointerDepth = 5"
definition maxLabels :: nat where "maxLabels = 127"

lemmas name_limits = MaxLabelLength_def MaxNameLength_def MaxPointerDepth_def maxLabels_def

datatype name = Name (wire: bytes)

type_synonym compression = "bytes \<rightharpoonup> nat"

subsection \<open>Characters and validation\<close>

definition toLower :: "byte \<Rightarrow> byte" where
  "toLower b = (if 65 \<le> b \<and> b \<le> 90 then b + 32 else b)"

definition isValidLabelChar :: "byte \<Rightarrow> bool" where
  "isValidLabelChar c \<longleftrightarrow>
     (97 \<le> c \<and> c \<le> 122) \<or> (65 \<le> c \<and> c \<le> 90) \<or> (48 \<le> c \<and> c \<le> 57) \<or>
     c = 45 \<or> c = 95 \<or> c = 42"

text \<open>The loop ranges over runes; the first byte of a multi-byte or malformed
  rune is at least 128 and ends it with the same error, so bytes suffice.\<close>

fun ValidateLabel_loop :: "nat \<Rightarrow> nat \<Rightarrow> bytes \<Rightarrow> error option" where
  "ValidateLabel_loop len i [] = None"
| "ValidateLabel_loop len i (c # cs) =
     (if (i = 0 \<or> i = len - 1) \<and> c = 45 then Some ErrInvalidLabel
      else if \<not> isValidLabelChar c then Some ErrInvalidLabel
      else ValidateLabel_loop len (i + 1) cs)"

definition ValidateLabel :: "bytes \<Rightarrow> error option" where
  "ValidateLabel label =
     (if label = [] then None
      else if length label > MaxLabelLength then Some ErrLabelTooLong
      else ValidateLabel_loop (length label) 0 label)"

fun validateNameLabels_loop :: "nat \<Rightarrow> bytes list \<Rightarrow> error option" where
  "validateNameLabels_loop n [] = None"
| "validateNameLabels_loop n (l # ls) =
     (if n + 1 + length l > MaxNameLength then Some ErrNameTooLong
      else validateNameLabels_loop (n + 1 + length l) ls)"

definition validateNameLabels :: "bytes list \<Rightarrow> error option" where
  "validateNameLabels ls =
     (if length ls > maxLabels then Some ErrNameTooLong else validateNameLabels_loop 1 ls)"

fun validateWireName_loop :: "bytes \<Rightarrow> nat \<Rightarrow> nat \<Rightarrow> error option" where
  "validateWireName_loop [] labelCount nameLen = Some ErrInvalidWireData"
| "validateWireName_loop (b # rest) labelCount nameLen =
     (let labelLen = unat b; nameLen1 = nameLen + 1
      in if labelLen = 0 then (if rest \<noteq> [] then Some ErrInvalidWireData else None)
         else if labelLen > MaxLabelLength then Some ErrLabelTooLong
         else if labelLen > length rest then Some ErrBufferTooSmall
         else if nameLen1 + labelLen > MaxNameLength then Some ErrNameTooLong
         else if labelCount + 1 > maxLabels then Some ErrNameTooLong
         else validateWireName_loop (drop labelLen rest) (labelCount + 1) (nameLen1 + labelLen))"

definition validateWireName :: "bytes \<Rightarrow> error option" where
  "validateWireName w =
     (if w = [] then None
      else if length w > MaxNameLength then Some ErrNameTooLong
      else validateWireName_loop w 0 0)"

subsection \<open>Labels, wire form and presentation form\<close>

fun canonicalWireFromLabels :: "bytes list \<Rightarrow> bytes" where
  "canonicalWireFromLabels [] = [0]"
| "canonicalWireFromLabels (l # ls) = of_nat (length l) # l @ canonicalWireFromLabels ls"

definition NewName :: "bytes list \<Rightarrow> name" where
  "NewName ls = Name (canonicalWireFromLabels ls)"

text \<open>\<^verbatim>\<open>forEachWireLabel\<close> with the collecting callback of \<^verbatim>\<open>labelsFromWire\<close>.\<close>

fun labelsFromWire :: "bytes \<Rightarrow> bytes list" where
  "labelsFromWire [] = []"
| "labelsFromWire (b # rest) =
     (let labelLen = unat b
      in if labelLen = 0 then []
         else if labelLen > length rest then []
         else take labelLen rest # labelsFromWire (drop labelLen rest))"

fun write_labels :: "bool \<Rightarrow> bytes list \<Rightarrow> bytes" where
  "write_labels first [] = []"
| "write_labels first (l # ls) = (if first then [] else [46]) @ l @ write_labels False ls"

definition presentationFromWire :: "bytes \<Rightarrow> bytes" where
  "presentationFromWire w =
     (if w = [] then []
      else if length w = 1 \<and> hd w = 0 then [46]
      else write_labels True (labelsFromWire w) @ [46])"

definition Name_String :: "name option \<Rightarrow> bytes" where
  "Name_String n = (case n of None \<Rightarrow> [46] | Some n \<Rightarrow> presentationFromWire (wire n))"

text \<open>\<^verbatim>\<open>strings.Split(s, ".")\<close>: always at least one piece.\<close>

fun split_dot :: "bytes \<Rightarrow> bytes list" where
  "split_dot [] = [[]]"
| "split_dot (c # cs) =
     (if c = 46 then [] # split_dot cs
      else case split_dot cs of [] \<Rightarrow> [[c]] | p # ps \<Rightarrow> (c # p) # ps)"

fun validate_each :: "bytes list \<Rightarrow> error option" where
  "validate_each [] = None"
| "validate_each (l # ls) =
     (case ValidateLabel l of Some e \<Rightarrow> Some (Wrapf ''invalid label'' e) | None \<Rightarrow> validate_each ls)"

definition ParseName :: "bytes \<Rightarrow> name result" where
  "ParseName s0 =
     (let fqdn = (s0 \<noteq> [] \<and> last s0 = 46); s = (if fqdn then butlast s0 else s0)
      in if s = [] then Inr (Name [0])
         else
           let labels = split_dot s
           in case validateNameLabels labels of
                Some e \<Rightarrow> Inl e
              | None \<Rightarrow>
                  (case validate_each labels of
                     Some e \<Rightarrow> Inl e
                   | None \<Rightarrow> Inr (Name (canonicalWireFromLabels labels))))"

definition CanonicalWire :: "name option \<Rightarrow> bytes" where
  "CanonicalWire n = (case n of None \<Rightarrow> [0] | Some n \<Rightarrow> map toLower (wire n))"

definition IsRoot :: "name option \<Rightarrow> bool" where
  "IsRoot n = (case n of None \<Rightarrow> True | Some n \<Rightarrow> wire n = [0])"

definition IsWildcard :: "name option \<Rightarrow> bool" where
  "IsWildcard n =
     (case n of None \<Rightarrow> False
      | Some n \<Rightarrow> length (wire n) \<ge> 2 \<and> wire n ! 0 = 1 \<and> wire n ! 1 = 42)"

definition WireLength :: "name option \<Rightarrow> nat" where
  "WireLength n = (case n of None \<Rightarrow> 1 | Some n \<Rightarrow> length (wire n))"

subsection \<open>Packing with compression\<close>

definition wireSuffixKey :: "bytes \<Rightarrow> bytes" where
  "wireSuffixKey w =
     map toLower (if w \<noteq> [] \<and> last w = 0 then butlast w else w)"

text \<open>The first loop of \<^verbatim>\<open>PackName\<close>: the offsets in the wire form where labels
  start.  \<open>rest\<close> is \<^verbatim>\<open>name.wire[i:]\<close>.\<close>

fun label_starts :: "bytes \<Rightarrow> nat \<Rightarrow> nat \<Rightarrow> nat list result" where
  "label_starts [] i labelCount = Inr []"
| "label_starts (b # rest) i labelCount =
     (let labelLen = unat b
      in if labelLen = 0 then Inr []
         else if labelCount \<ge> maxLabels then Inl ErrNameTooLong
         else case label_starts (drop labelLen rest) (i + 1 + labelLen) (labelCount + 1) of
                Inl e \<Rightarrow> Inl e | Inr ss \<Rightarrow> Inr (i # ss))"

text \<open>The loop body shared by the two emitting loops: register the suffix
  that starts at this label, unless it is known, then copy the label.\<close>

fun emit_labels ::
  "bytes \<Rightarrow> nat list \<Rightarrow> bytes \<Rightarrow> nat \<Rightarrow> compression \<Rightarrow> (nat \<times> bytes \<times> compression) result" where
  "emit_labels w [] buf off c = Inr (off, buf, c)"
| "emit_labels w (start # ss) buf off c =
     (let labelLen = unat (w ! start); key = wireSuffixKey (drop start w);
          c' = (if key \<noteq> [] \<and> c key = None then c(key \<mapsto> off) else c)
      in if off + 1 + labelLen > length buf then Inl ErrBufferTooSmall
         else emit_labels w ss (put_at buf off (subslice w start (1 + labelLen)))
                (off + 1 + labelLen) c')"

text \<open>The search of the matching loop: the first label whose suffix is in the
  map at an offset a pointer can hold, with that offset.\<close>

fun find_suffix :: "bytes \<Rightarrow> nat list \<Rightarrow> nat \<Rightarrow> compression \<Rightarrow> (nat \<times> nat) option" where
  "find_suffix w [] i c = None"
| "find_suffix w (start # ss) i c =
     (case c (wireSuffixKey (drop start w)) of
        Some ptr \<Rightarrow> if ptr < unat PointerOffsetMask then Some (i, ptr) else find_suffix w ss (i + 1) c
      | None \<Rightarrow> find_suffix w ss (i + 1) c)"

definition PackName ::
  "name option \<Rightarrow> bytes \<Rightarrow> int \<Rightarrow> compression option \<Rightarrow> (nat \<times> bytes \<times> compression option) result"
where
  "PackName nm buf offset compression =
     (if offset < 0 \<or> offset \<ge> int (length buf) then Inl ErrInvalidOffset
      else
        let off = nat offset
        in case nm of
             None \<Rightarrow> Inr (1, put_at buf off [0], compression)
           | Some n \<Rightarrow>
             (case validateWireName (wire n) of
                Some e \<Rightarrow> Inl e
              | None \<Rightarrow>
                (case compression of
                   None \<Rightarrow>
                     if off + length (wire n) > length buf then Inl ErrBufferTooSmall
                     else Inr (length (wire n), put_at buf off (map toLower (wire n)), None)
                 | Some c \<Rightarrow>
                   (case label_starts (wire n) 0 0 of
                      Inl e \<Rightarrow> Inl e
                    | Inr starts \<Rightarrow>
                      if starts = [] then Inr (1, put_at buf off [0], Some c)
                      else
                        case find_suffix (wire n) starts 0 c of
                          Some (i, ptr) \<Rightarrow>
                            (case emit_labels (wire n) (take i starts) buf off c of
                               Inl e \<Rightarrow> Inl e
                             | Inr (off', buf', c') \<Rightarrow>
                                 if off' + 2 > length buf' then Inl ErrBufferTooSmall
                                 else
                                   let pointer = 0xC000 OR of_nat ptr
                                   in Inr (off' + 2 - off, PutUint16_at buf' off' pointer, Some c'))
                        | None \<Rightarrow>
                            (case emit_labels (wire n) starts buf off c of
                               Inl e \<Rightarrow> Inl e
                             | Inr (off', buf', c') \<Rightarrow>
                                 if off' \<ge> length buf' then Inl ErrBufferTooSmall
                                 else Inr (off' + 1 - off, put_at buf' off' [0], Some c'))))))"

subsection \<open>Unpacking\<close>

text \<open>\<open>ptrOffset\<close> is \<^term>\<open>None\<close> where the source has \<^verbatim>\<open>-1\<close>.  A pointer may only go
  back, and at most \<^verbatim>\<open>MaxPointerDepth\<close> are followed: the loop ends.\<close>

function UnpackName_loop ::
  "bytes \<Rightarrow> nat \<Rightarrow> nat \<Rightarrow> nat \<Rightarrow> nat \<Rightarrow> nat option \<Rightarrow> bytes \<Rightarrow> (name \<times> nat) result" where
  "UnpackName_loop buf startOffset offset nameLen ptrDepth ptrOffset w =
     (if offset \<ge> length buf then Inl ErrBufferTooSmall
      else if buf ! offset AND PointerMask = PointerMask then
        (if offset + 2 > length buf then Inl ErrBufferTooSmall
         else
           let pointer = unat (Uint16 (drop offset buf) AND PointerOffsetMask)
           in if pointer \<ge> length buf \<or> pointer \<ge> offset then Inl ErrInvalidPointer
              else if ptrDepth \<ge> MaxPointerDepth then Inl ErrPointerTooDeep
              else UnpackName_loop buf startOffset pointer nameLen (ptrDepth + 1)
                     (case ptrOffset of None \<Rightarrow> Some (offset + 2) | Some p \<Rightarrow> Some p) w)
      else
        let labelLen = unat (buf ! offset)
        in if labelLen = 0 then
             Inr (Name (w @ [0]),
                  case ptrOffset of Some p \<Rightarrow> p - startOffset | None \<Rightarrow> offset + 1 - startOffset)
           else if labelLen > MaxLabelLength then Inl ErrLabelTooLong
           else if offset + 1 + labelLen > length buf then Inl ErrBufferTooSmall
           else if nameLen + 1 + labelLen > MaxNameLength \<or>
                   length w + 1 + labelLen + 1 > MaxNameLength then Inl ErrNameTooLong
           else UnpackName_loop buf startOffset (offset + 1 + labelLen) (nameLen + 1 + labelLen)
                  ptrDepth ptrOffset (w @ buf ! offset # subslice buf (offset + 1) labelLen))"
  by pat_completeness auto
termination
  by (relation "measures [\<lambda>(buf, start, offset, nameLen, ptrDepth, ptrOffset, w). MaxPointerDepth - ptrDepth,
                          \<lambda>(buf, start, offset, nameLen, ptrDepth, ptrOffset, w). length buf - offset]")
    auto

declare UnpackName_loop.simps [simp del]

definition UnpackName :: "bytes \<Rightarrow> int \<Rightarrow> (name \<times> nat) result" where
  "UnpackName buf offset =
     (if offset < 0 \<or> offset \<ge> int (length buf) then Inl ErrInvalidOffset
      else UnpackName_loop buf (nat offset) (nat offset) 0 0 None [])"

subsection \<open>Lengths, iteration and order\<close>

function WireNameLength_loop :: "bytes \<Rightarrow> nat \<Rightarrow> nat \<Rightarrow> nat \<Rightarrow> nat \<Rightarrow> nat result" where
  "WireNameLength_loop buf startOffset offset labelCount nameLen =
     (if offset \<ge> length buf then Inl ErrBufferTooSmall
      else if buf ! offset AND PointerMask = PointerMask then
        (if offset + 2 > length buf then Inl ErrBufferTooSmall else Inr (offset + 2 - startOffset))
      else
        let labelLen = unat (buf ! offset)
        in if labelLen = 0 then Inr (offset + 1 - startOffset)
           else if labelLen > MaxLabelLength then Inl ErrLabelTooLong
           else if offset + 1 + labelLen > length buf then Inl ErrBufferTooSmall
           else if labelCount + 1 > maxLabels then Inl ErrNameTooLong
           else if nameLen + 1 + labelLen > MaxNameLength then Inl ErrNameTooLong
           else WireNameLength_loop buf startOffset (offset + 1 + labelLen) (labelCount + 1)
                  (nameLen + 1 + labelLen))"
  by pat_completeness auto
termination
  by (relation "measure (\<lambda>(buf, start, offset, labelCount, nameLen). length buf - offset)") auto

declare WireNameLength_loop.simps [simp del]

definition WireNameLength :: "bytes \<Rightarrow> int \<Rightarrow> nat result" where
  "WireNameLength buf offset =
     (if offset < 0 \<or> offset \<ge> int (length buf) then Inl ErrInvalidOffset
      else WireNameLength_loop buf (nat offset) (nat offset) 0 1)"

text \<open>\<^verbatim>\<open>CanonicalWireName\<close> trims blanks and one trailing dot, skips empty labels and
  truncates a label length to a byte; it validates nothing.\<close>

definition is_blank :: "byte \<Rightarrow> bool" where
  "is_blank c \<longleftrightarrow> c = 32 \<or> c = 9"

definition trim_blanks :: "bytes \<Rightarrow> bytes" where
  "trim_blanks s = rev (dropWhile is_blank (rev (dropWhile is_blank s)))"

definition CanonicalWireName :: "bytes \<Rightarrow> bytes" where
  "CanonicalWireName s0 =
     (let s1 = trim_blanks s0; s = (if s1 \<noteq> [] \<and> last s1 = 46 then butlast s1 else s1)
      in if s = [] then [0]
         else canonicalWireFromLabels (map (map toLower) (filter (\<lambda>l. l \<noteq> []) (split_dot s))))"

subsection \<open>Label lists in wire form\<close>

definition valid_label :: "bytes \<Rightarrow> bool" where
  "valid_label l \<longleftrightarrow> 0 < length l \<and> length l \<le> 63"

definition enc_labels :: "bytes list \<Rightarrow> bytes" where
  "enc_labels ls = concat (map (\<lambda>l. of_nat (length l) # l) ls)"

definition wf_labels :: "bytes list \<Rightarrow> bool" where
  "wf_labels ls \<longleftrightarrow> (\<forall>l \<in> set ls. valid_label l) \<and> length (enc_labels ls) < 255"

lemma enc_labels_simps [simp]:
  "enc_labels [] = []"
  "enc_labels (l # ls) = of_nat (length l) # l @ enc_labels ls"
  "enc_labels (ls @ ms) = enc_labels ls @ enc_labels ms"
  by (simp_all add: enc_labels_def)

lemma canonicalWire_enc: "canonicalWireFromLabels ls = enc_labels ls @ [0]"
  by (induction ls) auto

lemma unat_length_label [simp]:
  "valid_label l \<Longrightarrow> unat (of_nat (length l) :: byte) = length l"
  by (simp add: valid_label_def unat_of_nat take_bit_eq_mod)

lemma wf_labels_Nil [simp]: "wf_labels []"
  by (simp add: wf_labels_def)

lemma enc_labels_length_ge: "\<forall>l \<in> set ls. valid_label l \<Longrightarrow> 2 * length ls \<le> length (enc_labels ls)"
proof (induction ls)
  case (Cons l ls)
  then have "0 < length l" "2 * length ls \<le> length (enc_labels ls)"
    by (simp_all add: valid_label_def)
  then show ?case by (simp del: length_greater_0_conv)
qed simp

lemma labelsFromWire_canonical:
  "\<forall>l \<in> set ls. valid_label l \<Longrightarrow> labelsFromWire (enc_labels ls @ 0 # x) = ls"
proof (induction ls)
  case (Cons l ls)
  then have "0 < length l" "unat (of_nat (length l) :: byte) = length l"
    by (simp_all add: valid_label_def [of l])
  with Cons show ?case
    by (simp add: Let_def)
qed (simp add: Let_def)

lemma enc_labels_inject:
  assumes "\<forall>l \<in> set ls. valid_label l" "\<forall>l \<in> set ms. valid_label l" "enc_labels ls = enc_labels ms"
  shows "ls = ms"
  using labelsFromWire_canonical [OF assms(1), of "[]"] labelsFromWire_canonical [OF assms(2), of "[]"]
  unfolding assms(3) by (rule trans [OF sym])

lemma validateWireName_loop_ok:
  assumes "\<forall>l \<in> set ls. valid_label l" "nameLen + length (enc_labels ls) \<le> 254" "2 * labelCount \<le> nameLen"
  shows "validateWireName_loop (enc_labels ls @ [0]) labelCount nameLen = None"
  using assms
proof (induction ls arbitrary: labelCount nameLen)
  case (Cons l ls)
  then have "0 < length l" "length l \<le> 63" "unat (of_nat (length l) :: byte) = length l"
    by (simp_all add: valid_label_def [of l])
  moreover have "validateWireName_loop (enc_labels ls @ [0]) (labelCount + 1) (nameLen + 1 + length l) = None"
    using Cons.prems calculation by (intro Cons.IH) (simp_all del: length_greater_0_conv)
  ultimately show ?case
    using Cons.prems by (simp add: Let_def name_limits)
qed (simp add: Let_def)

lemma validateWireName_loop_labels:
  "validateWireName_loop w labelCount nameLen = None \<Longrightarrow>
   \<exists>ls. w = enc_labels ls @ [0] \<and> (\<forall>l \<in> set ls. valid_label l)"
proof (induction w labelCount nameLen rule: validateWireName_loop.induct)
  case (2 b rest labelCount nameLen)
  show ?case
  proof (cases "unat b = 0")
    case True
    with 2 show ?thesis
      by (intro exI [of _ "[]"]) (auto simp: Let_def unat_eq_0 split: if_splits)
  next
    case False
    let ?l = "take (unat b) rest"
    have len: "unat b \<le> 63" "unat b \<le> length rest"
      using "2.prems" False by (auto simp: Let_def name_limits split: if_splits)
    have "validateWireName_loop (drop (unat b) rest) (labelCount + 1) (nameLen + 1 + unat b) = None"
      using "2.prems" False by (simp add: Let_def split: if_splits)
    moreover have "nameLen + 1 + unat b \<le> 255" "labelCount + 1 \<le> 127"
      using "2.prems" False by (simp_all add: Let_def name_limits split: if_splits)
    ultimately obtain ls where ls: "drop (unat b) rest = enc_labels ls @ [0]" "\<forall>l \<in> set ls. valid_label l"
      using "2.IH" [of "unat b" "nameLen + 1"] False len by (auto simp: name_limits)
    have "b # rest = enc_labels (?l # ls) @ [0]"
      using len append_take_drop_id [of "unat b" rest] by (simp add: ls(1))
    moreover have "valid_label ?l"
      using len False by (simp add: valid_label_def)
    ultimately show ?thesis
      using ls(2) by (intro exI [of _ "?l # ls"]) simp
  qed
qed simp

lemma validateWireName_ok: "wf_labels ls \<Longrightarrow> validateWireName (enc_labels ls @ [0]) = None"
  by (simp add: validateWireName_def validateWireName_loop_ok wf_labels_def name_limits)

lemma validateWireName_labels:
  assumes "validateWireName w = None" "w \<noteq> []"
  obtains ls where "w = enc_labels ls @ [0]" "wf_labels ls"
proof -
  have loop: "validateWireName_loop w 0 0 = None" and len: "length w \<le> 255"
    using assms by (simp_all add: validateWireName_def name_limits split: if_splits)
  from loop obtain ls where "w = enc_labels ls @ [0]" "\<forall>l \<in> set ls. valid_label l"
    by (blast dest: validateWireName_loop_labels)
  with len show thesis
    by (intro that [of ls]) (simp_all add: wf_labels_def)
qed

subsection \<open>The specification of compressed names\<close>

text \<open>
  \<open>name_at buf off ls d n\<close>: at offset \<open>off\<close> the buffer holds the name with the
  labels \<open>ls\<close>, reached through \<open>d\<close> pointers, and its representation at \<open>off\<close> takes
  \<open>n\<close> bytes.  The three rules are the root label, a label and a pointer that
  goes back.
\<close>

inductive name_at :: "bytes \<Rightarrow> nat \<Rightarrow> bytes list \<Rightarrow> nat \<Rightarrow> nat \<Rightarrow> bool" where
  root: "off < length buf \<Longrightarrow> buf ! off = 0 \<Longrightarrow> name_at buf off [] 0 1"
| label: "valid_label l \<Longrightarrow> off + 1 + length l \<le> length buf \<Longrightarrow> buf ! off = of_nat (length l) \<Longrightarrow>
    subslice buf (off + 1) (length l) = l \<Longrightarrow> name_at buf (off + 1 + length l) ls d n \<Longrightarrow>
    name_at buf off (l # ls) d (1 + length l + n)"
| pointer: "off + 2 \<le> length buf \<Longrightarrow> buf ! off AND PointerMask = PointerMask \<Longrightarrow>
    unat (Uint16 (drop off buf) AND PointerOffsetMask) = p \<Longrightarrow> p < off \<Longrightarrow>
    name_at buf p ls d n \<Longrightarrow> name_at buf off ls (d + 1) 2"

lemma name_at_valid: "name_at buf off ls d n \<Longrightarrow> \<forall>l \<in> set ls. valid_label l"
  by (induction rule: name_at.induct) auto

lemma name_at_bounds: "name_at buf off ls d n \<Longrightarrow> off + n \<le> length buf \<and> 0 < n"
  by (induction rule: name_at.induct) auto

lemma Uint16_append: "2 \<le> length b \<Longrightarrow> Uint16 (b @ x) = Uint16 b"
  by (auto simp: Uint16_def BigEndian_Uint16_def nth_append)

text \<open>What is written after a name does not change it.\<close>

lemma name_at_append: "name_at buf off ls d n \<Longrightarrow> name_at (buf @ x) off ls d n"
proof (induction rule: name_at.induct)
  case (root off buf)
  then show ?case
    by (intro name_at.root) (auto simp: nth_append)
next
  case (label l off buf ls d n)
  then show ?case
    by (intro name_at.label) (auto simp: nth_append subslice_def)
next
  case (pointer off buf p ls d n)
  then show ?case
    by (intro name_at.pointer) (auto simp: nth_append Uint16_append)
qed

lemma name_at_take:
  assumes "name_at (take m buf) off ls d n" "take m buf' = take m buf"
  shows "name_at buf' off ls d n"
  using name_at_append [OF assms(1) [folded assms(2)], of "drop m buf'"] by simp

subsection \<open>UnpackName meets the specification\<close>

lemma label_not_pointer:
  assumes "valid_label l" "b = of_nat (length l)"
  shows "b AND PointerMask \<noteq> PointerMask"
proof -
  have "b = of_nat (length l)" "length l < 64"
    using assms by (simp_all add: valid_label_def)
  then have "\<not> bit b 6"
    by (simp add: bit_simps bit_nat_iff) (simp add: bit_iff_odd)
  moreover have "bit PointerMask 6"
    by (simp add: PointerMask_def)
  ultimately show ?thesis
    by (metis bit_and_iff)
qed

lemma unpack_complete:
  assumes "name_at buf off ls d n" "ptrDepth + d \<le> MaxPointerDepth"
    and "length w + length (enc_labels ls) < MaxNameLength"
  shows "UnpackName_loop buf start off (length w) ptrDepth ptrOffset w =
    Inr (Name (w @ enc_labels ls @ [0]),
      case ptrOffset of Some p \<Rightarrow> p - start | None \<Rightarrow> off + n - start)"
  using assms
proof (induction arbitrary: w ptrDepth ptrOffset rule: name_at.induct)
  case (root off buf)
  then show ?case
    by (subst UnpackName_loop.simps) (simp add: PointerMask_def Let_def)
next
  case (label l off buf ls d n)
  have l: "unat (of_nat (length l) :: byte) = length l" "length l \<noteq> 0" "length l \<le> 63"
    using label.hyps(1) by (simp_all add: valid_label_def)
  have "UnpackName_loop buf start (off + 1 + length l) (length (w @ of_nat (length l) # l)) ptrDepth
      ptrOffset (w @ of_nat (length l) # l) =
    Inr (Name ((w @ of_nat (length l) # l) @ enc_labels ls @ [0]),
      case ptrOffset of Some p \<Rightarrow> p - start | None \<Rightarrow> off + 1 + length l + n - start)"
    using label.prems by (intro label.IH) simp_all
  moreover have "off < length buf"
    using label.hyps by simp
  ultimately show ?case
    using label.prems label.hyps l label_not_pointer [OF label.hyps(1,3)]
    by (subst UnpackName_loop.simps) (simp add: Let_def name_limits add.assoc split: option.split)
next
  case (pointer off buf p ls d n)
  have "off < length buf" "p < length buf" "\<not> ptrDepth \<ge> MaxPointerDepth"
    using pointer.hyps pointer.prems by simp_all
  moreover have "UnpackName_loop buf start p (length w) (ptrDepth + 1)
      (case ptrOffset of None \<Rightarrow> Some (off + 2) | Some p \<Rightarrow> Some p) w =
    Inr (Name (w @ enc_labels ls @ [0]),
      case (case ptrOffset of None \<Rightarrow> Some (off + 2) | Some p \<Rightarrow> Some p) of
        Some p \<Rightarrow> p - start | None \<Rightarrow> p + n - start)"
    using pointer.prems by (intro pointer.IH) simp_all
  ultimately show ?case
    using pointer.hyps
    by (subst UnpackName_loop.simps) (simp add: Let_def split: option.splits)
qed

lemma unpack_sound:
  assumes "UnpackName_loop buf start off (length w) ptrDepth ptrOffset w = Inr (nm, k)"
    and "length w < MaxNameLength" "ptrDepth \<le> MaxPointerDepth"
  shows "\<exists>ls d n. name_at buf off ls d n \<and> ptrDepth + d \<le> MaxPointerDepth \<and>
    length w + length (enc_labels ls) < MaxNameLength \<and> nm = Name (w @ enc_labels ls @ [0]) \<and>
    k = (case ptrOffset of Some p \<Rightarrow> p - start | None \<Rightarrow> off + n - start)"
  using assms
proof (induction buf start off "length w" ptrDepth ptrOffset w rule: UnpackName_loop.induct)
  case (1 buf start off ptrDepth ptrOffset w)
  note ret = "1.prems"(1) [unfolded UnpackName_loop.simps [of buf start off]]
  have off: "off < length buf"
    using ret by (simp split: if_splits)
  show ?case
  proof (cases "buf ! off AND PointerMask = PointerMask")
    case True
    let ?p = "unat (Uint16 (drop off buf) AND PointerOffsetMask)"
    let ?po = "case ptrOffset of None \<Rightarrow> Some (off + 2) | Some p \<Rightarrow> Some p"
    have p: "off + 2 \<le> length buf" "?p < off" "ptrDepth < MaxPointerDepth"
      and rec: "UnpackName_loop buf start ?p (length w) (ptrDepth + 1) ?po w = Inr (nm, k)"
      using ret off True by (simp_all add: Let_def split: if_splits)
    from "1.hyps"(1) [OF _ True _ refl, of] p rec "1.prems" off
    obtain ls d n where "name_at buf ?p ls d n" "ptrDepth + 1 + d \<le> MaxPointerDepth"
      "length w + length (enc_labels ls) < MaxNameLength" "nm = Name (w @ enc_labels ls @ [0])"
      "k = (case ?po of Some p \<Rightarrow> p - start | None \<Rightarrow> ?p + n - start)"
      by (auto simp: not_le)
    moreover from this p True have "name_at buf off ls (d + 1) 2"
      by (blast intro: name_at.pointer)
    ultimately show ?thesis
      by (rule_tac exI [of _ ls], rule_tac exI [of _ "d + 1"], rule_tac exI [of _ 2])
        (simp split: option.splits)
  next
    case False
    let ?n = "unat (buf ! off)"
    let ?l = "subslice buf (off + 1) ?n"
    show ?thesis
    proof (cases "?n = 0")
      case True
      then have "name_at buf off [] 0 1"
        using off by (intro name_at.root) (simp_all add: unat_eq_0)
      moreover have "nm = Name (w @ enc_labels [] @ [0])"
        "k = (case ptrOffset of Some p \<Rightarrow> p - start | None \<Rightarrow> off + 1 - start)"
        using ret off False True by (simp_all add: Let_def)
      ultimately show ?thesis
        using "1.prems"(2,3) by (metis add_0_right enc_labels_simps(1) list.size(3))
    next
      case n0: False
      have l: "?n \<le> 63" "off + 1 + ?n \<le> length buf" "length w + 1 + ?n + 1 \<le> MaxNameLength"
        and rec: "UnpackName_loop buf start (off + 1 + ?n) (length w + 1 + ?n) ptrDepth ptrOffset
          (w @ buf ! off # ?l) = Inr (nm, k)"
        using ret off False n0 by (simp_all add: Let_def name_limits split: if_splits)
      have len: "length ?l = ?n" "length (w @ buf ! off # ?l) = length w + 1 + ?n"
        using l by simp_all
      have v: "valid_label ?l" "of_nat (length ?l) = buf ! off"
        using l n0 len by (simp_all add: valid_label_def)
      from "1.hyps"(2) [OF _ False refl n0, of ] l rec len "1.prems" off
      obtain ls d n where "name_at buf (off + 1 + ?n) ls d n" "ptrDepth + d \<le> MaxPointerDepth"
        "length w + 1 + ?n + length (enc_labels ls) < MaxNameLength"
        "nm = Name ((w @ buf ! off # ?l) @ enc_labels ls @ [0])"
        "k = (case ptrOffset of Some p \<Rightarrow> p - start | None \<Rightarrow> off + 1 + ?n + n - start)"
        by (auto simp: not_le not_less name_limits)
      moreover from this l v len have "name_at buf off (?l # ls) d (1 + ?n + n)"
        by (intro name_at.label [of ?l, unfolded len(1)]) simp_all
      ultimately show ?thesis
        using v len
        by (rule_tac exI [of _ "?l # ls"], rule_tac exI [of _ d], rule_tac exI [of _ "1 + ?n + n"])
          (simp add: add.assoc split: option.splits)
    qed
  qed
qed

lemma UnpackName_iff:
  "UnpackName buf (int off) = Inr (nm, n) \<longleftrightarrow>
   (\<exists>ls d. name_at buf off ls d n \<and> d \<le> MaxPointerDepth \<and> wf_labels ls \<and> nm = NewName ls)"
proof
  assume "UnpackName buf (int off) = Inr (nm, n)"
  then have "UnpackName_loop buf off off (length []) 0 None [] = Inr (nm, n)"
    by (simp add: UnpackName_def split: if_splits)
  from unpack_sound [OF this] obtain ls d k where "name_at buf off ls d k" "d \<le> MaxPointerDepth"
    "length (enc_labels ls) < MaxNameLength" "nm = Name (enc_labels ls @ [0])" "n = k"
    by (auto simp: name_limits)
  then show "\<exists>ls d. name_at buf off ls d n \<and> d \<le> MaxPointerDepth \<and> wf_labels ls \<and> nm = NewName ls"
    by (auto simp: wf_labels_def NewName_def canonicalWire_enc name_limits dest: name_at_valid)
next
  assume "\<exists>ls d. name_at buf off ls d n \<and> d \<le> MaxPointerDepth \<and> wf_labels ls \<and> nm = NewName ls"
  then obtain ls d where "name_at buf off ls d n" "d \<le> MaxPointerDepth" "wf_labels ls" "nm = NewName ls"
    by blast
  with unpack_complete [of buf off ls d n 0 "[]" off None] name_at_bounds [of buf off ls d n]
  show "UnpackName buf (int off) = Inr (nm, n)"
    by (simp add: UnpackName_def wf_labels_def NewName_def canonicalWire_enc name_limits)
qed

subsection \<open>Lower case\<close>

lemma toLower_idem [simp]: "toLower (toLower b) = toLower b"
proof (cases "65 \<le> b \<and> b \<le> 90")
  case True
  then have "65 \<le> unat b" "unat b \<le> 90"
    by (simp_all add: word_le_nat_alt)
  then have "90 < unat (b + 32)"
    by (simp add: unat_word_ariths)
  with True show ?thesis by (auto simp: toLower_def word_le_nat_alt)
qed (simp add: toLower_def)

lemma toLower_label_length:
  assumes "valid_label l"
  shows "toLower (of_nat (length l)) = of_nat (length l)"
proof -
  have "unat (of_nat (length l) :: byte) \<le> 63"
    using assms by (simp add: valid_label_def)
  then have "\<not> (65 :: byte) \<le> of_nat (length l)"
    by unat_arith
  then show ?thesis by (simp add: toLower_def)
qed

abbreviation lower_labels :: "bytes list \<Rightarrow> bytes list" where
  "lower_labels ls \<equiv> map (map toLower) ls"

lemma valid_lower [simp]: "valid_label (map toLower l) = valid_label l"
  by (simp add: valid_label_def)

lemma enc_lower:
  "\<forall>l \<in> set ls. valid_label l \<Longrightarrow> map toLower (enc_labels ls) = enc_labels (lower_labels ls)"
  by (induction ls) (auto simp: toLower_label_length)

lemma length_enc_lower [simp]: "length (enc_labels (lower_labels ls)) = length (enc_labels ls)"
  by (induction ls) auto

lemma wf_lower [simp]: "wf_labels (lower_labels ls) = wf_labels ls"
  by (simp add: wf_labels_def)

text \<open>The compression key of a suffix determines its labels up to case.\<close>

lemma key_inject:
  assumes "\<forall>l \<in> set ls. valid_label l" "\<forall>l \<in> set ms. valid_label l"
    and "map toLower (enc_labels ls) = map toLower (enc_labels ms)"
  shows "lower_labels ls = lower_labels ms"
  using assms by (intro enc_labels_inject) (auto simp: enc_lower)

lemma wireSuffixKey_enc [simp]: "wireSuffixKey (enc_labels ls @ [0]) = map toLower (enc_labels ls)"
  by (simp add: wireSuffixKey_def)

subsection \<open>Where labels start\<close>

fun starts_from :: "nat \<Rightarrow> bytes list \<Rightarrow> nat list" where
  "starts_from i [] = []"
| "starts_from i (l # ls) = i # starts_from (i + 1 + length l) ls"

lemma starts_from_append:
  "starts_from i (ls @ ms) = starts_from i ls @ starts_from (i + length (enc_labels ls)) ms"
  by (induction i ls rule: starts_from.induct) (auto simp: add.assoc)

lemma length_starts_from [simp]: "length (starts_from i ls) = length ls"
  by (induction i ls rule: starts_from.induct) auto

lemma label_starts_enc:
  "\<forall>l \<in> set ls. valid_label l \<Longrightarrow> labelCount + length ls \<le> maxLabels \<Longrightarrow>
   label_starts (enc_labels ls @ [0]) i labelCount = Inr (starts_from i ls)"
proof (induction ls arbitrary: i labelCount)
  case (Cons l ls)
  then have "unat (of_nat (length l) :: byte) = length l" "length l \<noteq> 0"
    by (simp_all add: valid_label_def [of l])
  with Cons show ?case
    by (simp add: Let_def)
qed (simp add: Let_def)

lemma wf_labels_count: "wf_labels ls \<Longrightarrow> length ls \<le> maxLabels"
  using enc_labels_length_ge [of ls] by (simp add: wf_labels_def name_limits)

subsection \<open>What the emitting loop writes and registers\<close>

fun register :: "compression \<Rightarrow> nat \<Rightarrow> bytes list \<Rightarrow> bytes list \<Rightarrow> compression" where
  "register c off [] rest = c"
| "register c off (l # ls) rest =
     (let key = map toLower (enc_labels (l # ls @ rest))
      in register (if c key = None then c(key \<mapsto> off) else c) (off + 1 + length l) ls rest)"

lemma emit_labels_eq:
  assumes "\<forall>l \<in> set ls. valid_label l" "w = pre @ enc_labels (ls @ rest) @ [0]"
    and "off \<le> length buf"
  shows "emit_labels w (starts_from (length pre) ls) buf off c =
    (if off + length (enc_labels ls) \<le> length buf
     then Inr (off + length (enc_labels ls), put_at buf off (enc_labels ls), register c off ls rest)
     else Inl ErrBufferTooSmall)"
  using assms
proof (induction ls arbitrary: pre buf off c)
  case (Cons l ls)
  let ?pre = "pre @ of_nat (length l) # l"
  let ?key = "map toLower (enc_labels (l # ls @ rest))"
  let ?c = "if c ?key = None then c(?key \<mapsto> off) else c"
  have l: "unat (of_nat (length l) :: byte) = length l"
    using Cons.prems(1) by simp
  have w: "drop (length pre) w = enc_labels (l # ls @ rest) @ [0]"
    "w ! length pre = of_nat (length l)"
    "subslice w (length pre) (1 + length l) = of_nat (length l) # l"
    using Cons.prems(2) by (simp_all add: subslice_def)
  have key: "wireSuffixKey (drop (length pre) w) = ?key"
    using w(1) wireSuffixKey_enc [of "l # ls @ rest"] by (simp only:)
  have len: "length ?pre = length pre + 1 + length l"
    by simp
  show ?case
  proof (cases "off + 1 + length l > length buf")
    case True
    then show ?thesis
      by (simp add: Let_def w(2) l)
  next
    case False
    let ?buf = "put_at buf off (of_nat (length l) # l)"
    have step: "emit_labels w (starts_from (length pre) (l # ls)) buf off c =
        emit_labels w (starts_from (length ?pre) ls) ?buf (off + 1 + length l) ?c"
      unfolding starts_from.simps emit_labels.simps Let_def key w(2) l w(3) len
      using False by simp
    have lenb: "length ?buf = length buf"
      using False by simp
    have IH: "emit_labels w (starts_from (length ?pre) ls) ?buf (off + 1 + length l) ?c =
      (if off + 1 + length l + length (enc_labels ls) \<le> length ?buf
       then Inr (off + 1 + length l + length (enc_labels ls),
                 put_at ?buf (off + 1 + length l) (enc_labels ls),
                 register ?c (off + 1 + length l) ls rest)
       else Inl ErrBufferTooSmall)"
      using Cons.prems False by (intro Cons.IH) auto
    have "put_at ?buf (off + 1 + length l) (enc_labels ls) = put_at buf off (enc_labels (l # ls))"
      if "off + 1 + length l + length (enc_labels ls) \<le> length buf"
      using that by (subst put_at_put_at) auto
    then show ?thesis
      unfolding step IH lenb by (simp add: Let_def)
  qed
qed simp

lemma find_suffix_Some:
  assumes "w = pre @ enc_labels ls @ [0]"
    and "find_suffix w (starts_from (length pre) ls) i c = Some (j, ptr)"
  obtains ls1 ls2 where "ls = ls1 @ ls2" "ls2 \<noteq> []" "j = i + length ls1"
    "c (map toLower (enc_labels ls2)) = Some ptr" "ptr < 0x3FFF"
  using assms
proof (induction ls arbitrary: pre i thesis)
  case (Cons l ls)
  have key: "wireSuffixKey (drop (length pre) w) = map toLower (enc_labels (l # ls))"
    using Cons.prems(2) wireSuffixKey_enc [of "l # ls"] by simp
  show ?case
  proof (cases "\<exists>p. c (map toLower (enc_labels (l # ls))) = Some p \<and> p < 0x3FFF")
    case True
    then have "c (map toLower (enc_labels (l # ls))) = Some ptr" "ptr < 0x3FFF" "j = i"
      using Cons.prems(3) key by (auto simp: PointerOffsetMask_def)
    then show ?thesis
      using Cons.prems(1) [of "[]" "l # ls"] by simp
  next
    case False
    have eq: "length pre + 1 + length l = length (pre @ of_nat (length l) # l)"
      by simp
    have "find_suffix w (starts_from (length (pre @ of_nat (length l) # l)) ls) (i + 1) c = Some (j, ptr)"
      using Cons.prems(3) False key unfolding eq [symmetric]
      by (auto simp: PointerOffsetMask_def split: option.splits if_splits)
    from Cons.IH [OF _ _ this] Cons.prems(2)
    obtain ls1 ls2 where "ls = ls1 @ ls2" "ls2 \<noteq> []" "j = i + 1 + length ls1"
      "c (map toLower (enc_labels ls2)) = Some ptr" "ptr < 0x3FFF"
      by auto
    then show ?thesis
      using Cons.prems(1) [of "l # ls1" ls2] by simp
  qed
qed simp

subsection \<open>PackName, branch by branch\<close>

definition pointer_to :: "nat \<Rightarrow> bytes" where
  "pointer_to ptr = be16 (0xC000 OR of_nat ptr)"

lemma length_pointer_to [simp]: "length (pointer_to ptr) = 2" "pointer_to ptr \<noteq> []"
  by (simp_all add: pointer_to_def be16_def)

text \<open>How the unwritten rest \<open>ls2\<close> of a name ends: with the root label when nothing is
  left, else with a pointer to an earlier occurrence of \<open>ls2\<close>.\<close>

definition tail_ok :: "compression \<Rightarrow> bytes list \<Rightarrow> bytes \<Rightarrow> bool" where
  "tail_ok c ls2 t \<longleftrightarrow>
     (ls2 = [] \<and> t = [0]) \<or>
     (ls2 \<noteq> [] \<and> (\<exists>ptr < 0x3FFF. c (map toLower (enc_labels ls2)) = Some ptr \<and> t = pointer_to ptr))"

lemma tail_ok_length:
  assumes "tail_ok c ls2 t" "\<forall>l \<in> set ls2. valid_label l"
  shows "0 < length t \<and> length t \<le> length (enc_labels ls2) + 1"
  using assms enc_labels_length_ge [of ls2] by (cases ls2) (auto simp: tail_ok_def)

text \<open>The two ways \<^verbatim>\<open>PackName\<close> writes a name with labels: up to a pointer at a known suffix, or whole.\<close>

lemma PackName_with_pointer:
  assumes ls: "wf_labels ls" and split: "ls = ls1 @ ls2" and off: "off < length buf" and ne: "ls2 \<noteq> []"
    and find: "find_suffix (enc_labels ls @ [0]) (starts_from 0 ls) 0 c = Some (length ls1, ptr)"
  shows "PackName (Some (NewName ls)) buf (int off) (Some c) =
    (let e = enc_labels ls1 @ pointer_to ptr in
     if off + length e \<le> length buf
     then Inr (length e, put_at buf off e, Some (register c off ls1 ls2))
     else Inl ErrBufferTooSmall)"
proof -
  have v: "\<forall>l \<in> set ls. valid_label l"
    using ls by (simp add: wf_labels_def)
  have em: "emit_labels (enc_labels ls @ [0]) (starts_from 0 ls1) buf off c =
    (if off + length (enc_labels ls1) \<le> length buf
     then Inr (off + length (enc_labels ls1), put_at buf off (enc_labels ls1), register c off ls1 ls2)
     else Inl ErrBufferTooSmall)"
    using emit_labels_eq [of ls1 "enc_labels ls @ [0]" "[]" ls2 off buf c] v off split by simp
  have tk: "take (length ls1) (starts_from 0 ls) = starts_from 0 ls1"
    by (simp add: split starts_from_append)
  have ne: "starts_from 0 ls \<noteq> []"
    using ne split by (metis append_is_Nil_conv length_0_conv length_starts_from)
  have start: "label_starts (enc_labels ls @ [0]) 0 0 = Inr (starts_from 0 ls)"
    using label_starts_enc [OF v] wf_labels_count [OF ls] by simp
  show ?thesis
    using off ne
    by (simp add: PackName_def NewName_def canonicalWire_enc validateWireName_ok [OF ls] start find tk em codec_simps
        pointer_to_def Let_def)
qed

lemma PackName_whole:
  assumes ls: "wf_labels ls" and off: "off < length buf" and ne: "ls \<noteq> []"
    and find: "find_suffix (enc_labels ls @ [0]) (starts_from 0 ls) 0 c = None"
  shows "PackName (Some (NewName ls)) buf (int off) (Some c) =
    (let e = enc_labels ls @ [0] in
     if off + length e \<le> length buf
     then Inr (length e, put_at buf off e, Some (register c off ls []))
     else Inl ErrBufferTooSmall)"
proof -
  have v: "\<forall>l \<in> set ls. valid_label l"
    using ls by (simp add: wf_labels_def)
  have em: "emit_labels (enc_labels ls @ [0]) (starts_from 0 ls) buf off c =
    (if off + length (enc_labels ls) \<le> length buf
     then Inr (off + length (enc_labels ls), put_at buf off (enc_labels ls), register c off ls [])
     else Inl ErrBufferTooSmall)"
    using emit_labels_eq [of ls "enc_labels ls @ [0]" "[]" "[]" off buf c] v off by simp
  have ne: "starts_from 0 ls \<noteq> []"
    using ne by (metis length_0_conv length_starts_from)
  have start: "label_starts (enc_labels ls @ [0]) 0 0 = Inr (starts_from 0 ls)"
    using label_starts_enc [OF v] wf_labels_count [OF ls] by simp
  show ?thesis
    using off ne
    by (simp add: PackName_def NewName_def canonicalWire_enc validateWireName_ok [OF ls] start find em codec_simps Let_def)
qed

lemma PackName_compressed:
  assumes ls: "wf_labels ls" and off: "off < length buf"
  shows "\<exists>ls1 ls2 t. ls = ls1 @ ls2 \<and> tail_ok c ls2 t \<and>
    (let e = enc_labels ls1 @ t; r = PackName (Some (NewName ls)) buf (int off) (Some c)
     in if off + length e \<le> length buf
        then r = Inr (length e, put_at buf off e, Some (register c off ls1 ls2))
        else r = Inl ErrBufferTooSmall)"
proof -
  consider "ls = []" | ls1 ls2 ptr where "ls = ls1 @ ls2" "ls2 \<noteq> []" "ptr < 0x3FFF"
      "find_suffix (enc_labels ls @ [0]) (starts_from 0 ls) 0 c = Some (length ls1, ptr)"
      "c (map toLower (enc_labels ls2)) = Some ptr"
    | "ls \<noteq> []" "find_suffix (enc_labels ls @ [0]) (starts_from 0 ls) 0 c = None"
  proof (cases "find_suffix (enc_labels ls @ [0]) (starts_from 0 ls) 0 c")
    case (Some x)
    obtain j ptr where x: "x = (j, ptr)" by (cases x)
    show thesis
      using find_suffix_Some [of "enc_labels ls @ [0]" "[]" ls 0 c j ptr] Some x that(2) by fastforce
  qed (use that in blast)
  then show ?thesis
  proof cases
    case 1
    have "label_starts (enc_labels ls @ [0]) 0 0 = Inr (starts_from 0 ls)"
      using label_starts_enc [of ls] wf_labels_count [OF ls] 1 by simp
    then show ?thesis
      by (rule_tac exI [of _ "[]"], rule_tac exI [of _ "[]"], rule_tac exI [of _ "[0]"])
        (use 1 off validateWireName_ok [OF ls] in \<open>simp add: PackName_def NewName_def tail_ok_def Let_def\<close>)
  next
    case 2
    then show ?thesis
      using PackName_with_pointer [OF ls 2(1) off 2(2,4)] unfolding tail_ok_def Let_def by metis
  next
    case 3
    then show ?thesis
      using PackName_whole [OF ls off 3] unfolding tail_ok_def Let_def by (metis append_Nil2)
  qed
qed

subsection \<open>The compression map stays sound\<close>

text \<open>
  Every entry of the map points at a place of the written message where the
  keyed suffix can be read, through fewer pointers than the suffix has labels.
\<close>

definition comp_ok :: "compression \<Rightarrow> bytes \<Rightarrow> bool" where
  "comp_ok c buf \<longleftrightarrow>
     (\<forall>key ptr. c key = Some ptr \<longrightarrow>
        (\<exists>ls d n. name_at buf ptr ls d n \<and> d < length ls \<and> key = map toLower (enc_labels ls)))"

lemma comp_ok_empty: "comp_ok Map.empty buf"
  by (simp add: comp_ok_def)

lemma comp_ok_append: "comp_ok c buf \<Longrightarrow> comp_ok c (buf @ x)"
  unfolding comp_ok_def by (blast intro: name_at_append)

lemma low14: "ptr < 0x4000 \<Longrightarrow> (of_nat ptr :: uint16) = take_bit 14 (of_nat ptr)"
  by (simp add: take_bit_of_nat take_bit_nat_eq_self)

lemma pointer_to_reads:
  assumes "ptr < 0x3FFF"
  shows "Uint16 (pointer_to ptr @ x) AND PointerOffsetMask = of_nat ptr"
    and "hd (pointer_to ptr) AND PointerMask = PointerMask"
proof -
  have p: "(of_nat ptr :: uint16) = take_bit 14 (of_nat ptr)"
    using assms by (intro low14) simp
  have u: "Uint16 (pointer_to ptr @ x) = 0xC000 OR of_nat ptr"
    using Uint16_drop [of "pointer_to ptr @ x" 0 "0xC000 OR of_nat ptr"]
    by (simp add: pointer_to_def subslice_def)
  show "Uint16 (pointer_to ptr @ x) AND PointerOffsetMask = of_nat ptr"
  proof -
    have "PointerOffsetMask = mask 14"
      by (simp add: PointerOffsetMask_def mask_eq_exp_minus_1)
    then have "(0xC000 OR of_nat ptr) AND PointerOffsetMask = take_bit 14 (0xC000 OR of_nat ptr :: uint16)"
      by (simp add: take_bit_eq_mask)
    also have "\<dots> = take_bit 14 (of_nat ptr)"
      by simp
    finally show ?thesis
      unfolding u using p by simp
  qed
  show "hd (pointer_to ptr) AND PointerMask = PointerMask"
    unfolding pointer_to_def be16_def PointerMask_def list.sel
    by (rule bit_word_eqI) (auto simp: bit_simps)
qed

text \<open>A label sequence written in front of a readable rest reads as the whole.\<close>

lemma name_at_enc:
  assumes "\<forall>l \<in> set b. valid_label l" "name_at (p @ enc_labels b @ t) (length p + length (enc_labels b)) ms d k"
  shows "name_at (p @ enc_labels b @ t) (length p) (b @ ms) d (length (enc_labels b) + k)"
  using assms
proof (induction b arbitrary: p)
  case (Cons l b)
  let ?p = "p @ of_nat (length l) # l"
  have "name_at (?p @ enc_labels b @ t) (length ?p) (b @ ms) d (length (enc_labels b) + k)"
    using Cons.prems by (intro Cons.IH) (simp_all add: add.assoc)
  then have "name_at (p @ enc_labels (l # b) @ t) (length p) (l # b @ ms) d
      (1 + length l + (length (enc_labels b) + k))"
    using Cons.prems(1) by (intro name_at.label) (simp_all add: subslice_def nth_append)
  then show ?case by (simp add: add.assoc)
qed simp

lemma tail_reads:
  assumes c: "comp_ok c p" and t: "tail_ok c ls2 t" and v: "\<forall>l \<in> set ls2. valid_label l"
  shows "\<exists>ms d. name_at ((p @ e) @ t) (length (p @ e)) ms d (length t) \<and>
    lower_labels ms = lower_labels ls2 \<and> d \<le> length ls2"
proof (cases "ls2 = []")
  case True
  then have "name_at ((p @ e) @ t) (length (p @ e)) [] 0 1"
    using t by (intro name_at.root) (auto simp: tail_ok_def)
  then show ?thesis
    using t True by (auto simp: tail_ok_def intro!: exI [of _ "[]"])
next
  case False
  then obtain ptr where ptr: "ptr < 0x3FFF" "c (map toLower (enc_labels ls2)) = Some ptr" "t = pointer_to ptr"
    using t by (auto simp: tail_ok_def)
  then obtain ms d n where ms: "name_at p ptr ms d n" "d < length ms"
    "map toLower (enc_labels ls2) = map toLower (enc_labels ms)"
    using c unfolding comp_ok_def by blast
  have low: "lower_labels ms = lower_labels ls2"
    using key_inject [of ls2 ms] v name_at_valid [OF ms(1)] ms(3) by simp
  have len: "length ms = length ls2"
    using low by (metis length_map)
  have hd: "((p @ e) @ t) ! length (p @ e) = hd (pointer_to ptr)"
    using ptr(3) by (simp add: nth_append hd_conv_nth)
  have "name_at ((p @ e) @ t) (length (p @ e)) ms (d + 1) 2"
  proof (rule name_at.pointer [where p = ptr])
    show "name_at ((p @ e) @ t) ptr ms d n"
      using name_at_append [OF ms(1), of "e @ t"] by simp
    show "unat (Uint16 (drop (length (p @ e)) ((p @ e) @ t)) AND PointerOffsetMask) = ptr"
      using ptr pointer_to_reads(1) [of ptr "[]"] by (simp add: unat_of_nat take_bit_eq_mod)
    show "ptr < length (p @ e)"
      using name_at_bounds [OF ms(1)] by simp
    show "length (p @ e) + 2 \<le> length ((p @ e) @ t)"
      using ptr(3) by simp
    show "((p @ e) @ t) ! length (p @ e) AND PointerMask = PointerMask"
      unfolding hd using ptr(1) by (rule pointer_to_reads(2))
  qed
  then show ?thesis
    using ms(2) low len ptr(3) by (metis Suc_eq_plus1 Suc_leI length_pointer_to(1))
qed

lemma register_cases:
  "register c off ls rest key = Some ptr \<Longrightarrow>
   c key = Some ptr \<or>
   (\<exists>a b. ls = a @ b \<and> b \<noteq> [] \<and> ptr = off + length (enc_labels a) \<and>
      key = map toLower (enc_labels (b @ rest)))"
proof (induction c off ls rest rule: register.induct)
  case (2 c off l ls rest)
  let ?key = "map toLower (enc_labels (l # ls @ rest))"
  let ?c = "if c ?key = None then c(?key \<mapsto> off) else c"
  have "register ?c (off + 1 + length l) ls rest key = Some ptr"
    using "2.prems" by (simp only: register.simps Let_def)
  then have "?c key = Some ptr \<or> (\<exists>a b. ls = a @ b \<and> b \<noteq> [] \<and>
      ptr = off + 1 + length l + length (enc_labels a) \<and> key = map toLower (enc_labels (b @ rest)))"
    by (rule "2.IH" [OF refl])
  then show ?case
  proof
    assume "?c key = Some ptr"
    then have "c key = Some ptr \<or> (key = ?key \<and> ptr = off)"
      by (auto split: if_splits)
    then show ?thesis
      by (metis append_Cons append_Nil enc_labels_simps(1) list.distinct(1) list.size(3) Nat.add_0_right)
  next
    assume "\<exists>a b. ls = a @ b \<and> b \<noteq> [] \<and>
      ptr = off + 1 + length l + length (enc_labels a) \<and> key = map toLower (enc_labels (b @ rest))"
    then obtain a b where "ls = a @ b" "b \<noteq> []" "ptr = off + 1 + length l + length (enc_labels a)"
      "key = map toLower (enc_labels (b @ rest))"
      by blast
    then show ?thesis
      by (intro disjI2 exI [of _ "l # a"] exI [of _ b]) simp
  qed
qed simp

subsection \<open>PackName meets the specification\<close>

lemma PackName_fits:
  assumes "wf_labels ls" "off + length (enc_labels ls) + 1 \<le> length buf"
  shows "\<exists>n buf' c'. PackName (Some (NewName ls)) buf (int off) (Some c) = Inr (n, buf', Some c') \<and>
    0 < n \<and> n \<le> length (enc_labels ls) + 1"
proof -
  obtain ls1 ls2 t where *: "ls = ls1 @ ls2" "tail_ok c ls2 t"
    "let e = enc_labels ls1 @ t; r = PackName (Some (NewName ls)) buf (int off) (Some c)
     in if off + length e \<le> length buf
        then r = Inr (length e, put_at buf off e, Some (register c off ls1 ls2))
        else r = Inl ErrBufferTooSmall"
    using PackName_compressed [OF assms(1), of off buf c] assms(2) by auto
  have "\<forall>l \<in> set ls2. valid_label l"
    using assms(1) *(1) by (auto simp: wf_labels_def)
  then have "0 < length (enc_labels ls1 @ t)" "length (enc_labels ls1 @ t) \<le> length (enc_labels ls) + 1"
    using tail_ok_length [OF *(2)] *(1) by auto
  with *(3) assms(2) show ?thesis by (auto simp: Let_def)
qed

text \<open>The labels written from \<open>length p\<close> on, in front of a tail that reads as the name \<open>ms\<close>.\<close>

lemma name_at_behind:
  assumes "\<forall>l \<in> set ls1. valid_label l"
    "name_at ((p @ enc_labels ls1) @ t) (length (p @ enc_labels ls1)) ms d (length t)" "ls1 = a @ b"
  shows "name_at (p @ enc_labels ls1 @ t) (length p + length (enc_labels a)) (b @ ms) d (length (enc_labels b) + length t)"
  using name_at_enc [of b "p @ enc_labels a" t ms d "length t"] assms by (simp add: add.assoc)

lemma register_comp_ok:
  assumes c: "comp_ok c p" and v: "\<forall>l \<in> set ls1. valid_label l" "\<forall>l \<in> set ls2. valid_label l"
    and ms: "name_at ((p @ enc_labels ls1) @ t) (length (p @ enc_labels ls1)) ms d (length t)"
      "lower_labels ms = lower_labels ls2" "d \<le> length ls2"
  shows "comp_ok (register c (length p) ls1 ls2) (p @ enc_labels ls1 @ t)"
  unfolding comp_ok_def
proof (intro allI impI)
  fix key ptr
  assume "register c (length p) ls1 ls2 key = Some ptr"
  then consider "c key = Some ptr"
    | a b where "ls1 = a @ b" "b \<noteq> []" "ptr = length p + length (enc_labels a)"
        "key = map toLower (enc_labels (b @ ls2))"
    using register_cases [of c "length p" ls1 ls2 key ptr] by blast
  then show "\<exists>ls d n. name_at (p @ enc_labels ls1 @ t) ptr ls d n \<and> d < length ls \<and> key = map toLower (enc_labels ls)"
  proof cases
    case 1
    then show ?thesis
      using comp_ok_append [OF c, of "enc_labels ls1 @ t"] by (simp only: comp_ok_def)
  next
    case 2
    have "length ms = length ls2"
      using ms(2) by (metis length_map)
    then have "d < length (b @ ms)"
      using ms(3) 2(2) by (cases b) simp_all
    moreover have "key = map toLower (enc_labels (b @ ms))"
      using 2(4) ms(2) enc_lower [of ls2] enc_lower [of ms] v(2) name_at_valid [OF ms(1)] by simp
    ultimately show ?thesis
      using name_at_behind [OF v(1) ms(1) 2(1)] unfolding 2(3) by (intro exI conjI)
  qed
qed

lemma PackName_correct:
  assumes ls: "wf_labels ls" and c: "comp_ok c (take off buf)"
    and pack: "PackName (Some (NewName ls)) buf (int off) (Some c) = Inr (n, buf', c1)"
  obtains c' ms d e where "c1 = Some c'" "buf' = put_at buf off e" "n = length e"
    "off + n \<le> length buf" "n \<le> length (enc_labels ls) + 1"
    "name_at (take (off + n) buf') off ms d n" "lower_labels ms = lower_labels ls" "d \<le> length ls"
    "comp_ok c' (take (off + n) buf')"
proof -
  have off: "off < length buf"
    using pack by (rule_tac ccontr) (simp add: PackName_def)
  obtain ls1 ls2 t where *: "ls = ls1 @ ls2" "tail_ok c ls2 t"
    "let e = enc_labels ls1 @ t; r = PackName (Some (NewName ls)) buf (int off) (Some c)
     in if off + length e \<le> length buf
        then r = Inr (length e, put_at buf off e, Some (register c off ls1 ls2))
        else r = Inl ErrBufferTooSmall"
    using PackName_compressed [OF ls off, of c] by (elim exE conjE)
  let ?p = "take off buf" and ?e = "enc_labels ls1 @ t"
  have v: "\<forall>l \<in> set ls1. valid_label l" "\<forall>l \<in> set ls2. valid_label l"
    using ls *(1) by (auto simp: wf_labels_def)
  have r: "off + length ?e \<le> length buf" "n = length ?e" "buf' = put_at buf off ?e"
    "c1 = Some (register c off ls1 ls2)"
    using *(3) unfolding Let_def pack by (simp_all only: split: if_splits) simp_all
  have B: "take (off + n) buf' = ?p @ ?e" and p: "length ?p = off"
    using r off by (simp_all add: put_at_def)
  obtain ms d where ms: "name_at ((?p @ enc_labels ls1) @ t) (length (?p @ enc_labels ls1)) ms d (length t)"
    "lower_labels ms = lower_labels ls2" "d \<le> length ls2"
    using tail_reads [OF c *(2) v(2), of "enc_labels ls1"] by blast
  note reads = name_at_behind [OF v(1) ms(1), unfolded p]
  have cok: "comp_ok (register c off ls1 ls2) (?p @ ?e)"
    using register_comp_ok [OF c v ms] unfolding p by simp
  have nm: "name_at (?p @ ?e) off (ls1 @ ms) d n"
    using reads [of "[]" ls1] r(2) by simp
  have low: "lower_labels (ls1 @ ms) = lower_labels ls" and d: "d \<le> length ls"
    using ms *(1) by simp_all
  have len: "n \<le> length (enc_labels ls) + 1" and fit: "off + n \<le> length buf"
    using r(1,2) *(1) tail_ok_length [OF *(2) v(2)] by simp_all
  show thesis
    by (rule that [OF r(4,3,2) fit len nm [folded B] low d cok [folded B]])
qed

text \<open>Without a compression map the name is written whole, in lower case.\<close>

lemma PackName_plain:
  assumes "wf_labels ls" "off < length buf"
  shows "PackName (Some (NewName ls)) buf (int off) None =
    (if off + length (enc_labels ls) + 1 \<le> length buf
     then Inr (length (enc_labels ls) + 1, put_at buf off (enc_labels (lower_labels ls) @ [0]), None)
     else Inl ErrBufferTooSmall)"
proof -
  have v: "\<forall>l \<in> set ls. valid_label l"
    using assms(1) by (simp add: wf_labels_def)
  have "toLower 0 = 0"
    by (simp add: toLower_def)
  then show ?thesis
    using assms validateWireName_ok [OF assms(1)]
    by (simp add: PackName_def NewName_def canonicalWire_enc enc_lower [OF v])
qed

lemma name_at_plain:
  assumes "\<forall>l \<in> set ls. valid_label l" "subslice buf off (length (enc_labels ls) + 1) = enc_labels ls @ [0]"
  shows "name_at buf off ls 0 (length (enc_labels ls) + 1)"
proof -
  have len: "off + (length (enc_labels ls) + 1) \<le> length buf"
    using subslice_fits [OF assms(2)] by simp
  let ?B = "take off buf @ enc_labels ls @ [0]"
  have "(enc_labels ls @ [0]) @ drop (off + (length (enc_labels ls) + 1)) buf = drop off buf"
    using take_subslice_drop [of buf off "length (enc_labels ls) + 1"] by (simp only: assms(2))
  then have buf: "?B @ drop (off + (length (enc_labels ls) + 1)) buf = buf"
    using append_take_drop_id [of off buf] by (simp only: append_assoc)
  have "name_at ?B (length (take off buf)) (ls @ []) 0 (length (enc_labels ls) + 1)"
    using assms(1) len by (intro name_at_enc name_at.root) (simp_all add: nth_append)
  then have "name_at ?B off ls 0 (length (enc_labels ls) + 1)"
    using len by simp
  then have "name_at (?B @ drop (off + (length (enc_labels ls) + 1)) buf) off ls 0 (length (enc_labels ls) + 1)"
    by (rule name_at_append)
  then show ?thesis
    by (simp only: buf)
qed

lemma UnpackName_plain:
  assumes "wf_labels ls" "subslice buf off (length (enc_labels ls) + 1) = enc_labels ls @ [0]"
  shows "UnpackName buf (int off) = Inr (NewName ls, length (enc_labels ls) + 1)"
proof -
  have "name_at buf off ls 0 (length (enc_labels ls) + 1)"
    using assms by (intro name_at_plain) (simp_all add: wf_labels_def)
  with assms(1) show ?thesis
    unfolding UnpackName_iff by blast
qed

subsection \<open>WireNameLength and UnpackName agree\<close>

lemma WireNameLength_loop_complete:
  assumes "name_at buf off ls d n" "nameLen + length (enc_labels ls) \<le> 255" "start \<le> off"
    and "2 * labelCount < nameLen"
  shows "WireNameLength_loop buf start off labelCount nameLen = Inr (off + n - start)"
  using assms
proof (induction arbitrary: labelCount nameLen rule: name_at.induct)
  case (root off buf)
  then show ?case
    by (subst WireNameLength_loop.simps) (simp add: PointerMask_def Let_def)
next
  case (label l off buf ls d n)
  have l: "unat (of_nat (length l) :: byte) = length l" "length l \<noteq> 0" "length l \<le> 63"
    using label.hyps(1) by (simp_all add: valid_label_def)
  obtain k where k: "length l = Suc k"
    using l(2) by (cases "length l") auto
  have "WireNameLength_loop buf start (off + 1 + length l) (labelCount + 1) (nameLen + 1 + length l) =
    Inr (off + 1 + length l + n - start)"
    using label.prems k by (intro label.IH) simp_all
  moreover have "off < length buf"
    using label.hyps by simp
  ultimately show ?case
    using label.prems label.hyps l label_not_pointer [OF label.hyps(1,3)]
    by (subst WireNameLength_loop.simps) (simp add: Let_def name_limits add.assoc)
next
  case (pointer off buf p ls d n)
  then show ?case
    by (subst WireNameLength_loop.simps) simp
qed

lemma WireNameLength_UnpackName:
  assumes "UnpackName buf off = Inr (nm, n)"
  shows "WireNameLength buf off = Inr n"
proof -
  have off: "0 \<le> off" "off < int (length buf)"
    using assms by (simp_all add: UnpackName_def split: if_splits)
  then have "UnpackName buf (int (nat off)) = Inr (nm, n)"
    using assms by simp
  then obtain ls d where "name_at buf (nat off) ls d n" "wf_labels ls"
    unfolding UnpackName_iff by blast
  then have "WireNameLength_loop buf (nat off) (nat off) 0 1 = Inr (nat off + n - nat off)"
    by (intro WireNameLength_loop_complete) (auto simp: wf_labels_def)
  with off show ?thesis
    by (simp add: WireNameLength_def)
qed

subsection \<open>Names that were unpacked can be packed\<close>

lemma UnpackName_valid:
  assumes "UnpackName buf off = Inr (nm, n)"
  shows "validateWireName (wire nm) = None \<and> 0 < n \<and> off + int n \<le> int (length buf)"
proof -
  have off: "0 \<le> off"
    using assms by (simp add: UnpackName_def split: if_splits)
  then have "UnpackName buf (int (nat off)) = Inr (nm, n)"
    using assms by simp
  then obtain ls d where "name_at buf (nat off) ls d n" "wf_labels ls" "nm = NewName ls"
    unfolding UnpackName_iff by blast
  then show ?thesis
    using name_at_bounds [of buf "nat off" ls d n] off
    by (simp add: NewName_def canonicalWire_enc validateWireName_ok) arith
qed

subsection \<open>Parsing and printing\<close>

fun join_dot :: "bytes list \<Rightarrow> bytes" where
  "join_dot [] = []"
| "join_dot [l] = l"
| "join_dot (l # ls) = l @ 46 # join_dot ls"

lemma split_dot_nonempty: "split_dot s \<noteq> []"
  by (cases s) (auto split: list.split)

lemma join_split_dot: "join_dot (split_dot s) = s"
proof (induction s)
  case (Cons c cs)
  then show ?case
    using split_dot_nonempty [of cs]
    by (cases "split_dot cs"; cases "tl (split_dot cs)") auto
qed simp

lemma split_dot_no_dot: "l \<in> set (split_dot s) \<Longrightarrow> 46 \<notin> set l"
proof (induction s arbitrary: l)
  case (Cons c cs)
  then show ?case
    using split_dot_nonempty [of cs] by (cases "split_dot cs") (auto split: if_splits)
qed simp

lemma join_dot_Cons: "join_dot (l # ls) = (if ls = [] then l else l @ 46 # join_dot ls)"
  by (cases ls) auto

lemma write_labels_join: "ls \<noteq> [] \<Longrightarrow> write_labels True ls = join_dot ls"
proof -
  have "write_labels False ls = (if ls = [] then [] else 46 # join_dot ls)" for ls
    by (induction ls) (simp_all add: join_dot_Cons)
  then show "ls \<noteq> [] \<Longrightarrow> write_labels True ls = join_dot ls"
    by (cases ls) (simp_all add: join_dot_Cons)
qed

lemma validate_each_None: "validate_each ls = None \<longleftrightarrow> (\<forall>l \<in> set ls. ValidateLabel l = None)"
  by (induction ls) (auto split: option.split)

lemma ValidateLabel_length: "ValidateLabel l = None \<Longrightarrow> length l \<le> 63"
  by (auto simp: ValidateLabel_def name_limits split: if_splits)

lemma validateNameLabels_loop_None:
  "1 \<le> n \<Longrightarrow> validateNameLabels_loop n ls = None \<longleftrightarrow> (ls = [] \<or> n + length (enc_labels ls) \<le> 255)"
proof (induction ls arbitrary: n)
  case (Cons l ls)
  then show ?case
    by (auto simp: name_limits)
qed simp

definition name_text :: "bytes \<Rightarrow> bytes" where
  "name_text s = (if s \<noteq> [] \<and> last s = 46 then butlast s else s)"

text \<open>What \<^verbatim>\<open>ParseName\<close> accepts, and the name it makes.\<close>

lemma ParseName_ok_iff:
  "ParseName s = Inr nm \<longleftrightarrow>
     (if name_text s = [] then nm = Name [0]
      else (\<forall>l \<in> set (split_dot (name_text s)). ValidateLabel l = None) \<and>
           length (split_dot (name_text s)) \<le> 127 \<and>
           length (enc_labels (split_dot (name_text s))) \<le> 254 \<and>
           nm = NewName (split_dot (name_text s)))"
  using validateNameLabels_loop_None [of 1 "split_dot (name_text s)"] split_dot_nonempty [of "name_text s"]
  by (auto simp: ParseName_def name_text_def [symmetric] Let_def validateNameLabels_def name_limits
      validate_each_None [symmetric] NewName_def split: option.splits)

lemma ParseName_String:
  assumes "ParseName s = Inr nm" "[] \<notin> set (split_dot (name_text s)) \<or> name_text s = []"
  shows "validateWireName (wire nm) = None \<and> Name_String (Some nm) = name_text s @ [46]"
proof (cases "name_text s = []")
  case True
  then have "nm = NewName []"
    using assms(1) unfolding ParseName_ok_iff by (simp add: NewName_def)
  then show ?thesis
    using True validateWireName_ok [of "[]"] by (simp add: NewName_def Name_String_def presentationFromWire_def)
next
  case False
  let ?ls = "split_dot (name_text s)"
  have nm: "nm = NewName ?ls" "length (enc_labels ?ls) \<le> 254" "\<forall>l \<in> set ?ls. length l \<le> 63"
    using assms(1) False unfolding ParseName_ok_iff by (auto dest: ValidateLabel_length)
  have v: "\<forall>l \<in> set ?ls. valid_label l"
    using nm(3) assms(2) False by (fastforce simp: valid_label_def)
  have ne: "?ls \<noteq> []" "hd ?ls \<noteq> []"
    using split_dot_nonempty assms(2) False hd_in_set [of ?ls] by metis+
  have "labelsFromWire (enc_labels ?ls @ [0]) = ?ls"
    using labelsFromWire_canonical [OF v] by simp
  moreover have "length (enc_labels ?ls) \<noteq> 0"
    using enc_labels_length_ge [OF v] ne(1) by (cases ?ls) auto
  ultimately have "Name_String (Some nm) = name_text s @ [46]"
    using nm(1) ne(1)
    by (simp add: NewName_def canonicalWire_enc Name_String_def presentationFromWire_def
        write_labels_join join_split_dot)
  moreover have "validateWireName (wire nm) = None"
    using nm v by (simp add: NewName_def canonicalWire_enc validateWireName_ok wf_labels_def)
  ultimately show ?thesis by simp
qed

subsection \<open>Comparing names\<close>

text \<open>
  \<^verbatim>\<open>strings.EqualFold\<close> and \<^verbatim>\<open>strings.ToLower\<close> on ASCII are folding by
  \<^verbatim>\<open>toLower\<close>; from the first non-ASCII byte on they fold by Unicode tables,
  which the parameters \<open>uf\<close> (is the rest equal under folding?) and \<open>ul\<close> (lower case of a
  non-ASCII string) stand for.
\<close>

definition is_ascii :: "bytes \<Rightarrow> bool" where
  "is_ascii s \<longleftrightarrow> (\<forall>c \<in> set s. c < 128)"

fun EqualFold :: "(bytes \<Rightarrow> bytes \<Rightarrow> bool) \<Rightarrow> bytes \<Rightarrow> bytes \<Rightarrow> bool" where
  "EqualFold uf [] [] = True"
| "EqualFold uf [] (b # t) = False"
| "EqualFold uf (a # s) [] = False"
| "EqualFold uf (a # s) (b # t) =
     (if \<not> (a < 128 \<and> b < 128) then uf (a # s) (b # t)
      else if toLower a = toLower b then EqualFold uf s t else False)"

definition strings_ToLower :: "(bytes \<Rightarrow> bytes) \<Rightarrow> bytes \<Rightarrow> bytes" where
  "strings_ToLower ul s = (if is_ascii s then map toLower s else ul s)"

fun strings_Compare :: "bytes \<Rightarrow> bytes \<Rightarrow> int" where
  "strings_Compare [] [] = 0"
| "strings_Compare [] (b # t) = -1"
| "strings_Compare (a # s) [] = 1"
| "strings_Compare (a # s) (b # t) =
     (if a < b then -1 else if b < a then 1 else strings_Compare s t)"

definition LabelsSlice :: "name option \<Rightarrow> bytes list" where
  "LabelsSlice n = (case n of None \<Rightarrow> [] | Some n \<Rightarrow> labelsFromWire (wire n))"

definition HasPrefix :: "(bytes \<Rightarrow> bytes \<Rightarrow> bool) \<Rightarrow> name option \<Rightarrow> bytes list \<Rightarrow> bool" where
  "HasPrefix uf n pre =
     (case n of
        None \<Rightarrow> length pre = 0
      | Some n \<Rightarrow>
          let labels = labelsFromWire (wire n)
          in if length pre > length labels then False
             else list_all2 (EqualFold uf) pre (take (length pre) labels))"

definition HasSuffix :: "(bytes \<Rightarrow> bytes \<Rightarrow> bool) \<Rightarrow> name option \<Rightarrow> bytes list \<Rightarrow> bool" where
  "HasSuffix uf n suf =
     (case n of
        None \<Rightarrow> length suf = 0
      | Some n \<Rightarrow>
          let labels = labelsFromWire (wire n)
          in if length suf > length labels then False
             else list_all2 (EqualFold uf) suf (drop (length labels - length suf) labels))"

definition HasSuffixName :: "(bytes \<Rightarrow> bytes \<Rightarrow> bool) \<Rightarrow> name option \<Rightarrow> name option \<Rightarrow> bool" where
  "HasSuffixName uf n suf = (case suf of None \<Rightarrow> True | Some s \<Rightarrow> HasSuffix uf n (LabelsSlice suf))"

definition Name_Equal :: "(bytes \<Rightarrow> bytes \<Rightarrow> bool) \<Rightarrow> name option \<Rightarrow> name option \<Rightarrow> bool" where
  "Name_Equal uf n other =
     (case (n, other) of
        (Some a, Some b) \<Rightarrow>
          let labelsA = labelsFromWire (wire a); labelsB = labelsFromWire (wire b)
          in if length labelsA \<noteq> length labelsB then False
             else list_all2 (EqualFold uf) labelsA labelsB
      | _ \<Rightarrow> False)"

text \<open>\<^verbatim>\<open>CompareNames\<close> walks both label lists from the right; the loop gets
  them reversed.\<close>

fun CompareNames_loop :: "(bytes \<Rightarrow> bytes) \<Rightarrow> bytes list \<Rightarrow> bytes list \<Rightarrow> int" where
  "CompareNames_loop ul (a # as) (b # bs) =
     (let cmp = strings_Compare (strings_ToLower ul a) (strings_ToLower ul b)
      in if cmp \<noteq> 0 then cmp else CompareNames_loop ul as bs)"
| "CompareNames_loop ul [] [] = 0"
| "CompareNames_loop ul [] (b # bs) = -1"
| "CompareNames_loop ul (a # as) [] = 1"

definition CompareNames :: "(bytes \<Rightarrow> bytes) \<Rightarrow> name option \<Rightarrow> name option \<Rightarrow> int" where
  "CompareNames ul a b = CompareNames_loop ul (rev (LabelsSlice a)) (rev (LabelsSlice b))"

definition IsSubdomain :: "(bytes \<Rightarrow> bytes \<Rightarrow> bool) \<Rightarrow> name option \<Rightarrow> name option \<Rightarrow> bool" where
  "IsSubdomain uf child parent =
     (case parent of None \<Rightarrow> True | Some p \<Rightarrow> HasSuffixName uf child parent)"

lemma EqualFold_ascii:
  "is_ascii s \<Longrightarrow> is_ascii t \<Longrightarrow> EqualFold uf s t \<longleftrightarrow> map toLower s = map toLower t"
  by (induction uf s t rule: EqualFold.induct) (auto simp: is_ascii_def)

lemma EqualFold_all2:
  assumes "\<forall>l \<in> set ls. is_ascii l" "\<forall>l \<in> set ms. is_ascii l"
  shows "list_all2 (EqualFold uf) ls ms \<longleftrightarrow> lower_labels ls = lower_labels ms"
proof -
  have "list_all2 (EqualFold uf) ls ms \<longleftrightarrow> list_all2 (\<lambda>s t. map toLower s = map toLower t) ls ms"
    using assms by (intro list.rel_cong_simp [OF refl refl]) (simp add: simp_implies_def EqualFold_ascii)
  also have "\<dots> \<longleftrightarrow> list_all2 (=) (lower_labels ls) (lower_labels ms)"
    by (simp add: list_all2_map1 list_all2_map2 del: list.rel_eq)
  finally show ?thesis
    by (simp only: list.rel_eq)
qed

lemma strings_Compare_antisym: "strings_Compare s t = - strings_Compare t s"
  by (induction s t rule: strings_Compare.induct) auto

lemma strings_Compare_zero: "strings_Compare s t = 0 \<longleftrightarrow> s = t"
  by (induction s t rule: strings_Compare.induct) auto

lemma strings_Compare_range: "strings_Compare s t \<in> {-1, 0, 1}"
  by (induction s t rule: strings_Compare.induct) auto

lemma strings_Compare_trans:
  "strings_Compare s t < 0 \<Longrightarrow> strings_Compare t u < 0 \<Longrightarrow> strings_Compare s u < 0"
proof (induction s t arbitrary: u rule: strings_Compare.induct)
  case (4 a s b t)
  then show ?case by (cases u) (auto split: if_splits)
next
  case (2 b t)
  then show ?case by (cases u) auto
qed auto

lemma CompareNames_loop_zero:
  "CompareNames_loop ul as bs = 0 \<longleftrightarrow> map (strings_ToLower ul) as = map (strings_ToLower ul) bs"
  by (induction ul as bs rule: CompareNames_loop.induct) (auto simp: Let_def strings_Compare_zero)

lemma CompareNames_loop_antisym: "CompareNames_loop ul as bs = - CompareNames_loop ul bs as"
proof (induction ul as bs rule: CompareNames_loop.induct)
  case (1 ul a as b bs)
  then show ?case
    using strings_Compare_antisym [of "strings_ToLower ul a" "strings_ToLower ul b"]
    by (auto simp: Let_def)
qed auto

lemma CompareNames_loop_trans:
  "CompareNames_loop ul as bs < 0 \<Longrightarrow> CompareNames_loop ul bs cs < 0 \<Longrightarrow> CompareNames_loop ul as cs < 0"
proof (induction ul as bs arbitrary: cs rule: CompareNames_loop.induct)
  case (1 ul a as b bs)
  show ?case
  proof (cases cs)
    case (Cons c cs')
    let ?ab = "strings_Compare (strings_ToLower ul a) (strings_ToLower ul b)"
    let ?bc = "strings_Compare (strings_ToLower ul b) (strings_ToLower ul c)"
    have "?ab \<le> 0" "?bc \<le> 0"
      using "1.prems" Cons by (auto simp: Let_def split: if_splits)
    then consider "?ab = 0" | "?bc = 0" | "?ab < 0" "?bc < 0"
      by linarith
    then show ?thesis
    proof cases
      case 3
      then have "strings_Compare (strings_ToLower ul a) (strings_ToLower ul c) < 0"
        by (rule strings_Compare_trans)
      with Cons show ?thesis by (simp add: Let_def)
    qed (use 1 Cons in \<open>auto simp: Let_def strings_Compare_zero split: if_splits\<close>)
  qed (use "1.prems" in simp)
next
  case (3 ul b bs)
  then show ?case by (cases cs) auto
qed auto

subsection \<open>Properties\<close>

text \<open>C16: \<^verbatim>\<open>UnpackName\<close> succeeds exactly on the buffers that hold a name by the rules of
  RFC 1035 reached through at most five backward pointers, and returns that name in
  uncompressed wire form with the number of bytes it occupies at the offset.\<close>

theorem UnpackName_spec:
  "UnpackName buf (int off) = Inr (nm, n) \<longleftrightarrow>
   (\<exists>ls d. name_at buf off ls d n \<and> d \<le> MaxPointerDepth \<and> wf_labels ls \<and> nm = NewName ls)"
  by (rule UnpackName_iff)

text \<open>C15: A name of at most five labels that \<^verbatim>\<open>PackName\<close> writes with compression is read back by
  \<^verbatim>\<open>UnpackName\<close> from the same offset, with the same labels up to letter case and the same
  byte count, in any buffer that keeps the bytes written so far; and the compression map stays sound.\<close>

theorem PackName_UnpackName:
  assumes "wf_labels ls" "length ls \<le> MaxPointerDepth" "comp_ok c (take off buf)"
    and "PackName (Some (NewName ls)) buf (int off) (Some c) = Inr (n, buf', c1)"
    and "take (off + n) buf'' = take (off + n) buf'"
  shows "\<exists>ms c'. UnpackName buf'' (int off) = Inr (NewName ms, n) \<and> lower_labels ms = lower_labels ls \<and>
    c1 = Some c' \<and> comp_ok c' (take (off + n) buf'')"
proof -
  obtain c' ms d e where *: "c1 = Some c'" "name_at (take (off + n) buf') off ms d n"
    "lower_labels ms = lower_labels ls" "d \<le> length ls" "comp_ok c' (take (off + n) buf')"
    using PackName_correct [OF assms(1,3,4)] by metis
  have "wf_labels ms"
    using assms(1) *(3) by (metis wf_lower)
  moreover have "name_at buf'' off ms d n"
    using *(2) assms(5) by (rule name_at_take)
  ultimately have "UnpackName buf'' (int off) = Inr (NewName ms, n)"
    using *(4) assms(2) unfolding UnpackName_iff by (metis le_trans)
  then show ?thesis
    using *(1,3,5) assms(5) by auto
qed


text \<open>C28: Whatever \<^verbatim>\<open>UnpackName\<close> returns passes the validation of \<^verbatim>\<open>PackName\<close>, lies inside the
  buffer, consumes at least one byte and is measured alike by \<^verbatim>\<open>WireNameLength\<close>.\<close>

theorem UnpackName_safe:
  assumes "UnpackName buf off = Inr (nm, n)"
  shows "validateWireName (wire nm) = None \<and> 0 < n \<and> off + int n \<le> int (length buf) \<and>
    WireNameLength buf off = Inr n"
  using UnpackName_valid [OF assms] WireNameLength_UnpackName [OF assms] by blast

lemma wf_example: "wf_labels [[119, 119, 119], [97]]"
  by (simp add: wf_labels_def valid_label_def)

theorem PackName_UnpackName_witness:
  "\<exists>ms c'. UnpackName [3, 119, 119, 119, 1, 97, 0, 9, 9] 0 = Inr (NewName ms, 7) \<and>
     lower_labels ms = lower_labels [[119, 119, 119], [97]] \<and>
     comp_ok c' (take 7 [3, 119, 119, 119, 1, 97, 0, 9, 9])"
proof -
  have "\<exists>c'. PackName (Some (NewName [[119, 119, 119], [97]])) (replicate 8 0) (int 0) (Some Map.empty) =
      Inr (7, [3, 119, 119, 119, 1, 97, 0, 0], Some c')"
    by (simp add: PackName_def NewName_def validateWireName_def name_limits Let_def put_at_def
        subslice_def wireSuffixKey_def)
  then obtain c' where "PackName (Some (NewName [[119, 119, 119], [97]])) (replicate 8 0) (int 0)
      (Some Map.empty) = Inr (7, [3, 119, 119, 119, 1, 97, 0, 0], Some c')" by blast
  from PackName_UnpackName [OF wf_example _ comp_ok_empty this, of "[3, 119, 119, 119, 1, 97, 0, 9, 9]"]
  show ?thesis by (auto simp: name_limits)
qed


theorem UnpackName_safe_witness:
  "validateWireName [1, 97, 0] = None \<and> (0::nat) < 2 \<and>
   WireNameLength [1, 97, 0, 192, 0] 3 = Inr 2"
proof -
  have "UnpackName [1, 97, 0, 192, 0] 3 = Inr (Name [1, 97, 0], 2)"
    by code_simp
  from UnpackName_safe [OF this] show ?thesis by simp
qed

text \<open>C29: A parsed name without empty labels is valid wire data and prints as the text that was
  parsed, with its trailing dot.\<close>

theorem ParseName_roundtrip:
  assumes "ParseName s = Inr nm" "name_text s = [] \<or> [] \<notin> set (split_dot (name_text s))"
  shows "validateWireName (wire nm) = None \<and> Name_String (Some nm) = name_text s @ [46] \<and>
    ParseName (Name_String (Some nm)) = Inr nm"
proof -
  have *: "validateWireName (wire nm) = None" "Name_String (Some nm) = name_text s @ [46]"
    using ParseName_String [OF assms(1)] assms(2) by auto
  have "name_text (name_text s @ [46]) = name_text s"
    by (simp add: name_text_def)
  then have "ParseName (name_text s @ [46]) = Inr nm"
    using assms(1) unfolding ParseName_ok_iff by simp
  with * show ?thesis by simp
qed

theorem ParseName_roundtrip_witness:
  "validateWireName [1, 97, 2, 98, 99, 0] = None \<and>
   Name_String (Some (Name [1, 97, 2, 98, 99, 0])) = [97, 46, 98, 99, 46]"
proof -
  have "ParseName [97, 46, 98, 99] = Inr (Name [1, 97, 2, 98, 99, 0])"
    by code_simp
  from ParseName_roundtrip [OF this] show ?thesis
    by (simp add: name_text_def)
qed

definition ascii_name :: "name \<Rightarrow> bool" where
  "ascii_name n \<longleftrightarrow> (\<forall>l \<in> set (labelsFromWire (wire n)). is_ascii l)"

definition folded :: "name \<Rightarrow> bytes list" where
  "folded n = lower_labels (labelsFromWire (wire n))"

lemma CompareNames_folded:
  assumes "ascii_name a" "ascii_name b"
  shows "CompareNames ul (Some a) (Some b) = 0 \<longleftrightarrow> folded a = folded b"
proof -
  have "map (strings_ToLower ul) (labelsFromWire (wire n)) = folded n" if "ascii_name n" for n
    using that by (auto simp: ascii_name_def folded_def strings_ToLower_def)
  with assms show ?thesis
    unfolding CompareNames_def LabelsSlice_def option.case CompareNames_loop_zero rev_map [symmetric]
    by simp
qed

lemma IsSubdomain_folded:
  assumes "ascii_name a" "ascii_name b"
  shows "IsSubdomain uf (Some a) (Some b) \<longleftrightarrow> suffix (folded b) (folded a)"
proof -
  let ?A = "labelsFromWire (wire a)" and ?B = "labelsFromWire (wire b)"
  let ?D = "drop (length ?A - length ?B) ?A"
  have "list_all2 (EqualFold uf) ?B ?D \<longleftrightarrow> folded b = lower_labels ?D"
    using assms unfolding folded_def ascii_name_def
    by (intro EqualFold_all2) (auto dest: in_set_dropD)
  moreover have "lower_labels ?D = drop (length (folded a) - length (folded b)) (folded a)"
    by (simp add: folded_def drop_map)
  moreover have "suffix (folded b) (folded a) \<longleftrightarrow>
      length ?B \<le> length ?A \<and> folded b = drop (length (folded a) - length (folded b)) (folded a)"
    by (metis folded_def length_map suffix_drop suffix_length_le suffix_take append_take_drop_id
        append_eq_conv_conj diff_diff_cancel same_append_eq take_drop)
  ultimately show ?thesis
    by (auto simp: IsSubdomain_def HasSuffixName_def HasSuffix_def LabelsSlice_def)
qed

text \<open>C30: On names with ASCII labels \<^verbatim>\<open>Equal\<close>, \<^verbatim>\<open>CompareNames\<close> and \<^verbatim>\<open>IsSubdomain\<close> agree:
  they compare the labels folded to lower case, whatever the Unicode tables are.\<close>

theorem name_comparisons_agree:
  assumes "ascii_name a" "ascii_name b"
  shows "(Name_Equal uf (Some a) (Some b) \<longleftrightarrow> folded a = folded b) \<and>
    (CompareNames ul (Some a) (Some b) = 0 \<longleftrightarrow> folded a = folded b) \<and>
    (IsSubdomain uf (Some a) (Some b) \<longleftrightarrow> suffix (folded b) (folded a))"
proof -
  have "Name_Equal uf (Some a) (Some b) \<longleftrightarrow> folded a = folded b"
    using EqualFold_all2 [of "labelsFromWire (wire a)" "labelsFromWire (wire b)" uf] assms
    by (auto simp: Name_Equal_def folded_def ascii_name_def dest: map_eq_imp_length_eq)
  then show ?thesis
    using CompareNames_folded [OF assms] IsSubdomain_folded [OF assms] by simp
qed

theorem name_comparisons_agree_witness:
  "IsSubdomain (\<lambda>_ _. False) (Some (Name [1, 65, 1, 98, 0])) (Some (Name [1, 66, 0])) =
   suffix (folded (Name [1, 66, 0])) (folded (Name [1, 65, 1, 98, 0]))"
proof -
  have "ascii_name (Name [1, 65, 1, 98, 0])" "ascii_name (Name [1, 66, 0])"
    by code_simp+
  then show ?thesis
    using name_comparisons_agree by blast
qed



subsection \<open>Two corners of the name code\<close>

text \<open>Names packed one after the other into one buffer with a shared compression map, as the
  records of a message are.\<close>

fun pack_names :: "bytes list list \<Rightarrow> bytes \<Rightarrow> nat \<Rightarrow> compression \<Rightarrow> (nat list \<times> bytes) result" where
  "pack_names [] buf off c = Inr ([], buf)"
| "pack_names (ls # rest) buf off c =
     (case PackName (Some (NewName ls)) buf (int off) (Some c) of
        Inl e \<Rightarrow> Inl e
      | Inr (n, buf', c') \<Rightarrow>
          (case pack_names rest buf' (off + n) (case c' of Some d \<Rightarrow> d | None \<Rightarrow> c) of
             Inl e \<Rightarrow> Inl e
           | Inr (offs, b) \<Rightarrow> Inr (off # offs, b)))"

lemma pack_names_chain:
  "pack_names [[[97]], [[98], [97]], [[99], [98], [97]], [[100], [99], [98], [97]],
      [[101], [100], [99], [98], [97]], [[102], [101], [100], [99], [98], [97]],
      [[102], [101], [100], [99], [98], [97]]] (replicate 25 0) 0 Map.empty =
   Inr ([0, 3, 7, 11, 15, 19, 23],
        [1, 97, 0, 1, 98, 192, 0, 1, 99, 192, 3, 1, 100, 192, 7, 1, 101, 192, 11, 1, 102, 192, 15, 192, 19])"
proof -
  have "\<not> (65 :: byte) \<le> 1"
    by (simp add: word_le_nat_alt)
  then show ?thesis
    by (simp add: PackName_def NewName_def validateWireName_def name_limits Let_def put_at_def
        subslice_def wireSuffixKey_def toLower_def PutUint16_def be16_def PointerMask_def
        PutUint16_at_def PointerOffsetMask_def)
qed


text \<open>\<^verbatim>\<open>ParseName\<close> accepts an empty label in the middle of a name: the wire form then has a root
  label inside, and the name prints as its first part only.\<close>

lemma ParseName_empty_label:
  "ParseName [97, 46, 46, 98] = Inr (Name [1, 97, 0, 1, 98, 0]) \<and>
   validateWireName [1, 97, 0, 1, 98, 0] \<noteq> None \<and>
   Name_String (Some (Name [1, 97, 0, 1, 98, 0])) = [97, 46]"
  by code_simp

end
