(* ===== verification/Constants.thy ===== *)
theory Constants
  imports Prelude
begin

text \<open>
  The numbers of the protocol, \<^verbatim>\<open>internal/protocol/constants.go\<close>: operation and response
  codes, record types, classes and header bits, and the tables between types or
  classes and their mnemonics.  A Go map literal is an association list in the
  order of the source; \<^verbatim>\<open>strconv.Itoa\<close> is the decimal printer \<open>Itoa\<close>.  Mnemonics are HOL
  strings.
\<close>

subsection \<open>Numbers\<close>

definition OpcodeQuery :: byte where "OpcodeQuery = 0"
definition OpcodeIQuery :: byte where "OpcodeIQuery = 1"
definition OpcodeStatus :: byte where "OpcodeStatus = 2"
definition OpcodeNotify :: byte where "OpcodeNotify = 4"
definition OpcodeUpdate :: byte where "OpcodeUpdate = 5"
definition OpcodeDSO :: byte where "OpcodeDSO = 6"

definition RcodeSuccess :: nat where "RcodeSuccess = 0"
definition RcodeFormatError :: nat where "RcodeFormatError = 1"
definition RcodeServerFailure :: nat where "RcodeServerFailure = 2"
definition RcodeNameError :: nat where "RcodeNameError = 3"
definition RcodeNotImplemented :: nat where "RcodeNotImplemented = 4"
definition RcodeRefused :: nat where "RcodeRefused = 5"
definition RcodeYXDomain :: nat where "RcodeYXDomain = 6"
definition RcodeYXRRSet :: nat where "RcodeYXRRSet = 7"
definition RcodeNXRRSet :: nat where "RcodeNXRRSet = 8"
definition RcodeNotAuth :: nat where "RcodeNotAuth = 9"
definition RcodeNotZone :: nat where "RcodeNotZone = 10"
definition RcodeDSOTypeNI :: nat where "RcodeDSOTypeNI = 11"
definition RcodeBadVers :: nat where "RcodeBadVers = 16"
definition RcodeBadSig :: nat where "RcodeBadSig = 16"
definition RcodeBadKey :: nat where "RcodeBadKey = 17"
definition RcodeBadTime :: nat where "RcodeBadTime = 18"
definition RcodeBadMode :: nat where "RcodeBadMode = 19"
definition RcodeBadName :: nat where "RcodeBadName = 20"
definition RcodeBadAlg :: nat where "RcodeBadAlg = 21"
definition RcodeBadTrunc :: nat where "RcodeBadTrunc = 22"
definition RcodeBadCookie :: nat where "RcodeBadCookie = 23"

definition TypeA :: uint16 where "TypeA = 1"
definition TypeNS :: uint16 where "TypeNS = 2"
definition TypeCNAME :: uint16 where "TypeCNAME = 5"
definition TypeSOA :: uint16 where "TypeSOA = 6"
definition TypePTR :: uint16 where "TypePTR = 12"
definition TypeHINFO :: uint16 where "TypeHINFO = 13"
definition TypeMX :: uint16 where "TypeMX = 15"
definition TypeTXT :: uint16 where "TypeTXT = 16"
definition TypeRP :: uint16 where "TypeRP = 17"
definition TypeAFSDB :: uint16 where "TypeAFSDB = 18"
definition TypeSIG :: uint16 where "TypeSIG = 24"
definition TypeKEY :: uint16 where "TypeKEY = 25"
definition TypeAAAA :: uint16 where "TypeAAAA = 28"
definition TypeLOC :: uint16 where "TypeLOC = 29"
definition TypeSRV :: uint16 where "TypeSRV = 33"
definition TypeNAPTR :: uint16 where "TypeNAPTR = 35"
definition TypeKX :: uint16 where "TypeKX = 36"
definition TypeCERT :: uint16 where "TypeCERT = 37"
definition TypeDNAME :: uint16 where "TypeDNAME = 39"
definition TypeOPT :: uint16 where "TypeOPT = 41"
definition TypeAPL :: uint16 where "TypeAPL = 42"
definition TypeDS :: uint16 where "TypeDS = 43"
definition TypeSSHFP :: uint16 where "TypeSSHFP = 44"
definition TypeIPSECKEY :: uint16 where "TypeIPSECKEY = 45"
definition TypeRRSIG :: uint16 where "TypeRRSIG = 46"
definition TypeNSEC :: uint16 where "TypeNSEC = 47"
definition TypeDNSKEY :: uint16 where "TypeDNSKEY = 48"
definition TypeDHCID :: uint16 where "TypeDHCID = 49"
definition TypeNSEC3 :: uint16 where "TypeNSEC3 = 50"
definition TypeNSEC3PARAM :: uint16 where "TypeNSEC3PARAM = 51"
definition TypeTLSA :: uint16 where "TypeTLSA = 52"
definition TypeHIP :: uint16 where "TypeHIP = 55"
definition TypeCDS :: uint16 where "TypeCDS = 59"
definition TypeCDNSKEY :: uint16 where "TypeCDNSKEY = 60"
definition TypeOPENPGPKEY :: uint16 where "TypeOPENPGPKEY = 61"
definition TypeZONEMD :: uint16 where "TypeZONEMD = 63"
definition TypeSVCB :: uint16 where "TypeSVCB = 64"
definition TypeHTTPS :: uint16 where "TypeHTTPS = 65"
definition TypeSPF :: uint16 where "TypeSPF = 99"
definition TypeTSIG :: uint16 where "TypeTSIG = 250"
definition TypeIXFR :: uint16 where "TypeIXFR = 251"
definition TypeAXFR :: uint16 where "TypeAXFR = 252"
definition TypeMAILB :: uint16 where "TypeMAILB = 253"
definition TypeMAILA :: uint16 where "TypeMAILA = 254"
definition TypeANY :: uint16 where "TypeANY = 255"
definition TypeURI :: uint16 where "TypeURI = 256"
definition TypeCAA :: uint16 where "TypeCAA = 257"
definition TypeTA :: uint16 where "TypeTA = 32768"

definition ClassIN :: uint16 where "ClassIN = 1"
definition ClassCS :: uint16 where "ClassCS = 2"
definition ClassCH :: uint16 where "ClassCH = 3"
definition ClassHS :: uint16 where "ClassHS = 4"
definition ClassNONE :: uint16 where "ClassNONE = 254"
definition ClassANY :: uint16 where "ClassANY = 255"

lemmas opcodes =
  OpcodeQuery_def OpcodeIQuery_def OpcodeStatus_def OpcodeNotify_def OpcodeUpdate_def
  OpcodeDSO_def

lemmas rcodes =
  RcodeSuccess_def RcodeFormatError_def RcodeServerFailure_def RcodeNameError_def
  RcodeNotImplemented_def RcodeRefused_def RcodeYXDomain_def RcodeYXRRSet_def
  RcodeNXRRSet_def RcodeNotAuth_def RcodeNotZone_def RcodeDSOTypeNI_def RcodeBadVers_def
  RcodeBadSig_def RcodeBadKey_def RcodeBadTime_def RcodeBadMode_def RcodeBadName_def
  RcodeBadAlg_def RcodeBadTrunc_def RcodeBadCookie_def

lemmas rr_types =
  TypeA_def TypeNS_def TypeCNAME_def TypeSOA_def TypePTR_def TypeHINFO_def TypeMX_def
  TypeTXT_def TypeRP_def TypeAFSDB_def TypeSIG_def TypeKEY_def TypeAAAA_def TypeLOC_def
  TypeSRV_def TypeNAPTR_def TypeKX_def TypeCERT_def TypeDNAME_def TypeOPT_def TypeAPL_def
  TypeDS_def TypeSSHFP_def TypeIPSECKEY_def TypeRRSIG_def TypeNSEC_def TypeDNSKEY_def
  TypeDHCID_def TypeNSEC3_def TypeNSEC3PARAM_def TypeTLSA_def TypeHIP_def TypeCDS_def
  TypeCDNSKEY_def TypeOPENPGPKEY_def TypeZONEMD_def TypeSVCB_def TypeHTTPS_def TypeSPF_def
  TypeTSIG_def TypeIXFR_def TypeAXFR_def TypeMAILB_def TypeMAILA_def TypeANY_def
  TypeURI_def TypeCAA_def TypeTA_def

lemmas rr_classes =
  ClassIN_def ClassCS_def ClassCH_def ClassHS_def ClassNONE_def ClassANY_def

subsection \<open>Mnemonics\<close>

definition TypeToString :: "(uint16 \<times> string) list" where
  "TypeToString =
     [(TypeA, ''A''), (TypeNS, ''NS''), (TypeCNAME, ''CNAME''), (TypeDNAME, ''DNAME''),
      (TypeSOA, ''SOA''), (TypePTR, ''PTR''), (TypeMX, ''MX''), (TypeTXT, ''TXT''),
      (TypeHINFO, ''HINFO''), (TypeRP, ''RP''), (TypeAFSDB, ''AFSDB''), (TypeSIG,
      ''SIG''), (TypeKEY, ''KEY''), (TypeAAAA, ''AAAA''), (TypeLOC, ''LOC''), (TypeSRV,
      ''SRV''), (TypeKX, ''KX''), (TypeCERT, ''CERT''), (TypeNAPTR, ''NAPTR''), (TypeOPT,
      ''OPT''), (TypeAPL, ''APL''), (TypeDS, ''DS''), (TypeSSHFP, ''SSHFP''), (TypeHIP,
      ''HIP''), (TypeIPSECKEY, ''IPSECKEY''), (TypeRRSIG, ''RRSIG''), (TypeNSEC,
      ''NSEC''), (TypeDNSKEY, ''DNSKEY''), (TypeDHCID, ''DHCID''), (TypeNSEC3, ''NSEC3''),
      (TypeNSEC3PARAM, ''NSEC3PARAM''), (TypeTLSA, ''TLSA''), (TypeCDS, ''CDS''),
      (TypeCDNSKEY, ''CDNSKEY''), (TypeOPENPGPKEY, ''OPENPGPKEY''), (TypeZONEMD,
      ''ZONEMD''), (TypeSVCB, ''SVCB''), (TypeHTTPS, ''HTTPS''), (TypeURI, ''URI''),
      (TypeSPF, ''SPF''), (TypeCAA, ''CAA''), (TypeTSIG, ''TSIG''), (TypeTA, ''TA''),
      (TypeAXFR, ''AXFR''), (TypeIXFR, ''IXFR''), (TypeANY, ''ANY'')]"

definition StringToType :: "(string \<times> uint16) list" where
  "StringToType =
     [(''A'', TypeA), (''NS'', TypeNS), (''CNAME'', TypeCNAME), (''DNAME'', TypeDNAME),
      (''SOA'', TypeSOA), (''PTR'', TypePTR), (''MX'', TypeMX), (''TXT'', TypeTXT),
      (''HINFO'', TypeHINFO), (''RP'', TypeRP), (''AFSDB'', TypeAFSDB), (''SIG'',
      TypeSIG), (''KEY'', TypeKEY), (''AAAA'', TypeAAAA), (''LOC'', TypeLOC), (''SRV'',
      TypeSRV), (''KX'', TypeKX), (''CERT'', TypeCERT), (''NAPTR'', TypeNAPTR), (''OPT'',
      TypeOPT), (''APL'', TypeAPL), (''DS'', TypeDS), (''SSHFP'', TypeSSHFP), (''HIP'',
      TypeHIP), (''IPSECKEY'', TypeIPSECKEY), (''RRSIG'', TypeRRSIG), (''NSEC'',
      TypeNSEC), (''DNSKEY'', TypeDNSKEY), (''DHCID'', TypeDHCID), (''NSEC3'', TypeNSEC3),
      (''NSEC3PARAM'', TypeNSEC3PARAM), (''TLSA'', TypeTLSA), (''CDS'', TypeCDS),
      (''CDNSKEY'', TypeCDNSKEY), (''OPENPGPKEY'', TypeOPENPGPKEY), (''ZONEMD'',
      TypeZONEMD), (''SVCB'', TypeSVCB), (''HTTPS'', TypeHTTPS), (''URI'', TypeURI),
      (''SPF'', TypeSPF), (''CAA'', TypeCAA), (''TSIG'', TypeTSIG), (''TA'', TypeTA),
      (''AXFR'', TypeAXFR), (''IXFR'', TypeIXFR), (''ANY'', TypeANY)]"

definition ClassToString :: "(uint16 \<times> string) list" where
  "ClassToString =
     [(ClassIN, ''IN''), (ClassCS, ''CS''), (ClassCH, ''CH''), (ClassHS, ''HS''),
      (ClassNONE, ''NONE''), (ClassANY, ''ANY'')]"

definition StringToClass :: "(string \<times> uint16) list" where
  "StringToClass =
     [(''IN'', ClassIN), (''CS'', ClassCS), (''CH'', ClassCH), (''HS'', ClassHS),
      (''NONE'', ClassNONE), (''ANY'', ClassANY), (''CLASS'', ClassIN)]"

definition RcodeToString :: "(nat \<times> string) list" where
  "RcodeToString =
     [(RcodeSuccess, ''NOERROR''), (RcodeFormatError, ''FORMERR''), (RcodeServerFailure,
      ''SERVFAIL''), (RcodeNameError, ''NXDOMAIN''), (RcodeNotImplemented, ''NOTIMP''),
      (RcodeRefused, ''REFUSED''), (RcodeYXDomain, ''YXDOMAIN''), (RcodeYXRRSet,
      ''YXRRSET''), (RcodeNXRRSet, ''NXRRSET''), (RcodeNotAuth, ''NOTAUTH''),
      (RcodeNotZone, ''NOTZONE'')]"

fun Itoa :: "nat \<Rightarrow> string" where
  "Itoa n = (if n < 10 then [char_of (48 + n)] else Itoa (n div 10) @ [char_of (48 + n mod 10)])"

declare Itoa.simps [simp del]

definition TypeString :: "uint16 \<Rightarrow> string" where
  "TypeString t =
     (case map_of TypeToString t of Some s \<Rightarrow> s | None \<Rightarrow> ''TYPE'' @ Itoa (unat t))"

definition ClassString :: "uint16 \<Rightarrow> string" where
  "ClassString c =
     (case map_of ClassToString c of Some s \<Rightarrow> s | None \<Rightarrow> ''CLASS'' @ Itoa (unat c))"

definition RcodeString :: "nat \<Rightarrow> string" where
  "RcodeString r =
     (case map_of RcodeToString r of Some s \<Rightarrow> s | None \<Rightarrow> ''RCODE'' @ Itoa r)"

subsection \<open>Header bits\<close>

definition FlagQR :: uint16 where "FlagQR = push_bit 15 1"
definition FlagAA :: uint16 where "FlagAA = push_bit 10 1"
definition FlagTC :: uint16 where "FlagTC = push_bit 9 1"
definition FlagRD :: uint16 where "FlagRD = push_bit 8 1"
definition FlagRA :: uint16 where "FlagRA = push_bit 7 1"
definition FlagZ :: uint16 where "FlagZ = push_bit 6 1"
definition FlagAD :: uint16 where "FlagAD = push_bit 5 1"
definition FlagCD :: uint16 where "FlagCD = push_bit 4 1"
definition EDNSFlagDO :: uint16 where "EDNSFlagDO = push_bit 15 1"

lemmas flag_bits = FlagQR_def FlagAA_def FlagTC_def FlagRD_def FlagRA_def FlagZ_def FlagAD_def
  FlagCD_def EDNSFlagDO_def

subsection \<open>The tables are inverse\<close>

lemma Itoa_not_Nil [simp]: "Itoa n \<noteq> []"
  by (subst Itoa.simps) simp

lemma distinct_types:
  "distinct (map fst TypeToString)" "distinct (map fst StringToType)"
  by (simp_all add: TypeToString_def StringToType_def rr_types)

lemma StringToType_swap: "StringToType = map prod.swap TypeToString"
  by (simp add: TypeToString_def StringToType_def)

lemma map_of_swap:
  assumes "distinct (map fst xs)" "distinct (map fst (map prod.swap xs))"
  shows "map_of (map prod.swap xs) b = Some a \<longleftrightarrow> map_of xs a = Some b"
  using assms by (auto simp: map_of_eq_Some_iff)

lemma StringToType_iff: "map_of StringToType s = Some t \<longleftrightarrow> map_of TypeToString t = Some s"
  using distinct_types unfolding StringToType_swap by (rule map_of_swap)

lemma no_generic_mnemonic: "map_of StringToType (''TYPE'' @ s) = None"
  by (simp add: StringToType_def)

text \<open>The mnemonic printed for a record type is read back as that type, and only the types
  of the table are read back: the generic form \<^verbatim>\<open>TYPEn\<close> of any other type is no key.\<close>

lemma TypeString_roundtrip:
  "map_of StringToType (TypeString t) =
     (if t \<in> fst ` set TypeToString then Some t else None)"
proof (cases "map_of TypeToString t")
  case None
  then have "TypeString t = ''TYPE'' @ Itoa (unat t)"
    unfolding TypeString_def by (simp only: option.case)
  moreover have "t \<notin> fst ` set TypeToString"
    using None by (simp add: map_of_eq_None_iff)
  ultimately show ?thesis
    by (simp only: no_generic_mnemonic if_False)
next
  case (Some s)
  then have "t \<in> fst ` set TypeToString"
    by (metis domI dom_map_of_conv_image_fst)
  with Some show ?thesis
    by (simp add: TypeString_def StringToType_iff)
qed

end
