(* ===== verification/Header.thy ===== *)
theory Header
  imports Wire Constants
begin

text \<open>
  The message header, \<^verbatim>\<open>internal/protocol/header.go\<close>.  \<open>Flags\<close> and \<open>Header\<close> are the structs of
  the source; the two octets of flags are packed and unpacked bit by bit.  A nil
  receiver is \<^term>\<open>None\<close>.  \<open>Flags_Pack\<close> and \<open>UnpackFlags\<close> are shown to be inverse: every 16 bit
  value unpacks to flags that pack to it, and flags whose operation and response
  codes fit four bits come back.  \<open>Header_Pack\<close> writes the 12 octets \<open>Header_Unpack\<close> reads.
\<close>

unbundle bit_operations_syntax

definition HeaderLen :: nat where "HeaderLen = 12"

record Flags =
  QR :: bool
  Opcode :: byte
  AA :: bool
  TC :: bool
  RD :: bool
  RA :: bool
  Z :: bool
  AD :: bool
  CD :: bool
  RCODE :: byte

record Header =
  ID :: uint16
  HFlags :: Flags
  QDCount :: uint16
  ANCount :: uint16
  NSCount :: uint16
  ARCount :: uint16

definition NewQueryFlags :: Flags where
  "NewQueryFlags =
     \<lparr>QR = False, Opcode = OpcodeQuery, AA = False, TC = False, RD = True, RA = False, Z = False,
      AD = False, CD = False, RCODE = 0\<rparr>"

definition NewResponseFlags :: "byte \<Rightarrow> Flags" where
  "NewResponseFlags rcode =
     \<lparr>QR = True, Opcode = OpcodeQuery, AA = False, TC = False, RD = False, RA = True, Z = False,
      AD = False, CD = False, RCODE = rcode\<rparr>"

definition NewHeader :: Header where
  "NewHeader =
     \<lparr>ID = 0, HFlags = NewQueryFlags, QDCount = 0, ANCount = 0, NSCount = 0, ARCount = 0\<rparr>"

definition Flags_Pack :: "Flags \<Rightarrow> uint16" where
  "Flags_Pack f =
     (let r = (if QR f then FlagQR else 0);
          r = r OR push_bit 11 (ucast (Opcode f AND 0x0F));
          r = (if AA f then r OR FlagAA else r);
          r = (if TC f then r OR FlagTC else r);
          r = (if RD f then r OR FlagRD else r);
          r = (if RA f then r OR FlagRA else r);
          r = (if Z f then r OR FlagZ else r);
          r = (if AD f then r OR FlagAD else r);
          r = (if CD f then r OR FlagCD else r)
      in r OR ucast (RCODE f AND 0x0F))"

definition UnpackFlags :: "uint16 \<Rightarrow> Flags" where
  "UnpackFlags v =
     \<lparr>QR = (v AND FlagQR \<noteq> 0), Opcode = ucast (drop_bit 11 v AND 0x0F), AA = (v AND FlagAA \<noteq> 0),
      TC = (v AND FlagTC \<noteq> 0), RD = (v AND FlagRD \<noteq> 0), RA = (v AND FlagRA \<noteq> 0),
      Z = (v AND FlagZ \<noteq> 0), AD = (v AND FlagAD \<noteq> 0), CD = (v AND FlagCD \<noteq> 0),
      RCODE = ucast (v AND 0x0F)\<rparr>"

definition Header_Pack :: "Header option \<Rightarrow> bytes \<Rightarrow> bytes result" where
  "Header_Pack oh buf =
     (if length buf < HeaderLen then Inl ErrBufferTooSmall
      else case oh of
             None \<Rightarrow> Inl (Errorf ''nil header'')
           | Some h \<Rightarrow>
               let buf = PutUint16_at buf 0 (ID h);
                   buf = PutUint16_at buf 2 (Flags_Pack (HFlags h));
                   buf = PutUint16_at buf 4 (QDCount h);
                   buf = PutUint16_at buf 6 (ANCount h);
                   buf = PutUint16_at buf 8 (NSCount h);
                   buf = PutUint16_at buf 10 (ARCount h)
               in Inr buf)"

definition Header_Unpack :: "Header option \<Rightarrow> bytes \<Rightarrow> Header result" where
  "Header_Unpack oh buf =
     (if length buf < HeaderLen then Inl ErrBufferTooSmall
      else case oh of
             None \<Rightarrow> Inl (Errorf ''nil header'')
           | Some h \<Rightarrow>
               Inr (h\<lparr>ID := BigEndian_Uint16 (subslice buf 0 2),
                     HFlags := UnpackFlags (BigEndian_Uint16 (subslice buf 2 2)),
                     QDCount := BigEndian_Uint16 (subslice buf 4 2),
                     ANCount := BigEndian_Uint16 (subslice buf 6 2),
                     NSCount := BigEndian_Uint16 (subslice buf 8 2),
                     ARCount := BigEndian_Uint16 (subslice buf 10 2)\<rparr>))"

definition SetResponse :: "byte \<Rightarrow> Header option \<Rightarrow> Header option" where
  "SetResponse rcode = map_option (\<lambda>h. h\<lparr>HFlags := (HFlags h)\<lparr>QR := True, RCODE := rcode\<rparr>\<rparr>)"

definition SetTruncated :: "bool \<Rightarrow> Header option \<Rightarrow> Header option" where
  "SetTruncated truncated = map_option (\<lambda>h. h\<lparr>HFlags := (HFlags h)\<lparr>TC := truncated\<rparr>\<rparr>)"

definition SetAuthoritative :: "bool \<Rightarrow> Header option \<Rightarrow> Header option" where
  "SetAuthoritative auth = map_option (\<lambda>h. h\<lparr>HFlags := (HFlags h)\<lparr>AA := auth\<rparr>\<rparr>)"

definition ClearCounts :: "Header option \<Rightarrow> Header option" where
  "ClearCounts = map_option (\<lambda>h. h\<lparr>QDCount := 0, ANCount := 0, NSCount := 0, ARCount := 0\<rparr>)"

definition IsSuccess :: "Header option \<Rightarrow> bool" where
  "IsSuccess oh = (case oh of None \<Rightarrow> False | Some h \<Rightarrow> unat (RCODE (HFlags h)) = RcodeSuccess)"

subsection \<open>The flag octets\<close>

definition flags_wf :: "Flags \<Rightarrow> bool" where
  "flags_wf f \<longleftrightarrow> Opcode f < 16 \<and> RCODE f < 16"

lemma and_bit_nonzero: "(v :: 'a::len word) AND push_bit n 1 \<noteq> 0 \<longleftrightarrow> bit v n"
  by (simp add: push_bit_eq_mult and_exp_eq_0_iff_not_bit)

lemma and_0x0F: "(v :: 'a::len word) AND 0x0F = take_bit 4 v"
  using take_bit_eq_mask [of 4 v] by (simp add: mask_eq_exp_minus_1)


lemma or_if: "(if c then (r :: 'a::len word) OR k else r) = r OR (if c then k else 0)"
  by simp

lemma bit_if: "bit (if c then (k :: 'a::len word) else 0) n \<longleftrightarrow> c \<and> bit k n"
  by simp

lemma Flags_Pack_or:
  "Flags_Pack f = (if QR f then FlagQR else 0) OR push_bit 11 (ucast (Opcode f AND 0x0F)) OR
     (if AA f then FlagAA else 0) OR (if TC f then FlagTC else 0) OR (if RD f then FlagRD else 0) OR
     (if RA f then FlagRA else 0) OR (if Z f then FlagZ else 0) OR (if AD f then FlagAD else 0) OR
     (if CD f then FlagCD else 0) OR ucast (RCODE f AND 0x0F)"
  unfolding Flags_Pack_def or_if Let_def by (simp only: or.assoc)

lemma bit_flag: "k < LENGTH('a) \<Longrightarrow> bit (push_bit k 1 :: 'a::len word) n \<longleftrightarrow> n = k"
  by (auto simp: bit_simps)

lemma bit_flags:
  "bit FlagQR n \<longleftrightarrow> n = 15" "bit FlagAA n \<longleftrightarrow> n = 10" "bit FlagTC n \<longleftrightarrow> n = 9" "bit FlagRD n \<longleftrightarrow> n = 8"
  "bit FlagRA n \<longleftrightarrow> n = 7" "bit FlagZ n \<longleftrightarrow> n = 6" "bit FlagAD n \<longleftrightarrow> n = 5" "bit FlagCD n \<longleftrightarrow> n = 4"
  unfolding flag_bits by (rule bit_flag; simp)+

lemma bit_low4: "bit (ucast ((w :: byte) AND 0x0F) :: uint16) n \<longleftrightarrow> n < 4 \<and> bit w n"
  by (auto simp: and_0x0F bit_simps dest: bit_imp_le_length)

lemma Flags_Pack_bits:
  "bit (Flags_Pack f) n \<longleftrightarrow>
     (QR f \<and> n = 15 \<or> 11 \<le> n \<and> n < 15 \<and> bit (Opcode f) (n - 11) \<or> AA f \<and> n = 10 \<or> TC f \<and> n = 9 \<or>
      RD f \<and> n = 8 \<or> RA f \<and> n = 7 \<or> Z f \<and> n = 6 \<or> AD f \<and> n = 5 \<or> CD f \<and> n = 4 \<or>
      n < 4 \<and> bit (RCODE f) n)"
proof -
  have *: "bit (push_bit 11 (ucast (Opcode f AND 0x0F)) :: uint16) n \<longleftrightarrow>
      11 \<le> n \<and> n < 15 \<and> bit (Opcode f) (n - 11)"
    by (auto simp: bit_push_bit_iff bit_low4)
  show ?thesis
    unfolding Flags_Pack_or bit_or_iff bit_if bit_low4 bit_flags * by (simp only: disj_assoc)
qed

lemma UnpackFlags_sel:
  "QR (UnpackFlags v) = bit v 15" "AA (UnpackFlags v) = bit v 10" "TC (UnpackFlags v) = bit v 9"
  "RD (UnpackFlags v) = bit v 8" "RA (UnpackFlags v) = bit v 7" "Z (UnpackFlags v) = bit v 6"
  "AD (UnpackFlags v) = bit v 5" "CD (UnpackFlags v) = bit v 4"
  "bit (Opcode (UnpackFlags v)) n \<longleftrightarrow> n < 4 \<and> bit v (n + 11)"
  "bit (RCODE (UnpackFlags v)) n \<longleftrightarrow> n < 4 \<and> bit v n"
  unfolding UnpackFlags_def flag_bits and_bit_nonzero and_0x0F Flags.select_convs
  by (auto simp: bit_simps add.commute)

lemma Flags_Pack_UnpackFlags: "Flags_Pack (UnpackFlags v) = v"
proof (rule bit_word_eqI)
  fix n
  assume "n < LENGTH(16)"
  then have "n < 4 \<or> n \<in> {4, 5, 6, 7, 8, 9, 10, 15} \<or> 11 \<le> n \<and> n < 15"
    by auto
  then show "bit (Flags_Pack (UnpackFlags v)) n = bit v n"
    unfolding Flags_Pack_bits UnpackFlags_sel by (elim disjE conjE insertE emptyE) (simp_all, linarith)
qed

lemma low_nibble: "(w :: byte) < 16 \<Longrightarrow> bit w n \<Longrightarrow> n < 4"
proof -
  assume "w < 16" "bit w n"
  moreover from this(1) have "take_bit 4 w = w"
    by (simp add: take_bit_eq_mod word_arith_nat_mod word_less_nat_alt)
  ultimately show ?thesis
    by (metis bit_take_bit_iff)
qed

lemma UnpackFlags_Flags_Pack:
  assumes "flags_wf f"
  shows "UnpackFlags (Flags_Pack f) = f"
proof -
  have "Opcode (UnpackFlags (Flags_Pack f)) = Opcode f" "RCODE (UnpackFlags (Flags_Pack f)) = RCODE f"
    using assms low_nibble
    by (auto intro!: bit_word_eqI simp: UnpackFlags_sel Flags_Pack_bits flags_wf_def)
  moreover have "bit (Flags_Pack f) 15 = QR f" "bit (Flags_Pack f) 10 = AA f" "bit (Flags_Pack f) 9 = TC f"
    "bit (Flags_Pack f) 8 = RD f" "bit (Flags_Pack f) 7 = RA f" "bit (Flags_Pack f) 6 = Z f"
    "bit (Flags_Pack f) 5 = AD f" "bit (Flags_Pack f) 4 = CD f"
    unfolding Flags_Pack_bits by simp_all
  ultimately show ?thesis
    by (intro Flags.equality) (simp_all add: UnpackFlags_sel(1-8))
qed

lemma nibble_less:
  assumes "\<And>n. bit (w :: byte) n \<Longrightarrow> n < 4"
  shows "w < 16"
proof -
  have "take_bit 4 w = w"
    using assms by (auto intro!: bit_word_eqI simp: bit_take_bit_iff)
  then have "unat w = take_bit 4 (unat w)"
    by (metis unsigned_take_bit_eq)
  then have "unat w < 16"
    using take_bit_nat_less_exp [of 4 "unat w"] by simp
  then show ?thesis
    by (simp add: word_less_nat_alt)
qed

lemma flags_wf_UnpackFlags: "flags_wf (UnpackFlags v)"
  unfolding flags_wf_def by (intro conjI nibble_less) (simp_all add: UnpackFlags_sel)

subsection \<open>The header\<close>

lemma BigEndian_Uint16_be16 [simp]: "BigEndian_Uint16 (be16 v) = v"
  by (simp add: BigEndian_Uint16_def be16_def)

definition enc_header :: "Header \<Rightarrow> bytes" where
  "enc_header h = be16 (ID h) @ be16 (Flags_Pack (HFlags h)) @ be16 (QDCount h) @ be16 (ANCount h) @
     be16 (NSCount h) @ be16 (ARCount h)"

lemma length_enc_header [simp]: "length (enc_header h) = HeaderLen"
  by (simp add: enc_header_def HeaderLen_def)

lemma Header_Pack_put:
  "HeaderLen \<le> length buf \<Longrightarrow> Header_Pack (Some h) buf = Inr (put_at buf 0 (enc_header h))"
  by (simp add: Header_Pack_def HeaderLen_def Let_def enc_header_def codec_simps)

lemma subslice_header:
  assumes "take 12 buf = enc_header h"
  shows "subslice buf 0 2 = be16 (ID h)" "subslice buf 2 2 = be16 (Flags_Pack (HFlags h))"
    "subslice buf 4 2 = be16 (QDCount h)" "subslice buf 6 2 = be16 (ANCount h)"
    "subslice buf 8 2 = be16 (NSCount h)" "subslice buf 10 2 = be16 (ARCount h)"
proof -
  have *: "subslice buf k 2 = take 2 (drop k (enc_header h))" if "k + 2 \<le> 12" for k
    using that assms [symmetric] by (simp add: subslice_def drop_take)
  show "subslice buf 0 2 = be16 (ID h)" "subslice buf 2 2 = be16 (Flags_Pack (HFlags h))"
    "subslice buf 4 2 = be16 (QDCount h)" "subslice buf 6 2 = be16 (ANCount h)"
    "subslice buf 8 2 = be16 (NSCount h)" "subslice buf 10 2 = be16 (ARCount h)"
    by (simp_all add: * enc_header_def)
qed

lemma Header_Unpack_enc:
  assumes "take 12 buf = enc_header h" "flags_wf (HFlags h)"
  shows "Header_Unpack (Some h0) buf = Inr h"
proof -
  have "12 \<le> length buf"
    using arg_cong [OF assms(1), of length] by (simp add: HeaderLen_def)
  then show ?thesis
    using assms(2) by (simp add: Header_Unpack_def HeaderLen_def subslice_header [OF assms(1)]
        UnpackFlags_Flags_Pack)
qed

text \<open>C32: Packing a header into a buffer of at least 12 octets succeeds, writes the 12 octets at
  the front only, and unpacking them gives the header back, whatever the receiver held.\<close>

theorem Header_roundtrip:
  assumes "HeaderLen \<le> length buf" "flags_wf (HFlags h)"
  shows "\<exists>buf'. Header_Pack (Some h) buf = Inr buf' \<and> length buf' = length buf \<and>
    drop HeaderLen buf' = drop HeaderLen buf \<and> Header_Unpack (Some h0) buf' = Inr h"
proof -
  have "take 12 (put_at buf 0 (enc_header h)) = enc_header h"
    using assms(1) by (simp add: put_at_def HeaderLen_def)
  from Header_Unpack_enc [OF this assms(2)] show ?thesis
    using assms(1) by (simp add: Header_Pack_put put_at_def)
qed

theorem Header_roundtrip_witness:
  "\<exists>buf'. Header_Pack (Some NewHeader) (replicate 12 1) = Inr buf' \<and> Header_Unpack (Some NewHeader) buf' = Inr NewHeader"
  using Header_roundtrip [of "replicate 12 1" NewHeader NewHeader]
  by (auto simp: HeaderLen_def flags_wf_def NewHeader_def NewQueryFlags_def OpcodeQuery_def)

text \<open>Every 12 octets are a header: unpacking never fails on them, and packing the result
  reproduces them, so a header is forwarded unchanged.\<close>

lemma Header_reencode:
  assumes "length buf = HeaderLen"
  shows "\<exists>h. Header_Unpack (Some h0) buf = Inr h \<and> flags_wf (HFlags h) \<and> Header_Pack (Some h) buf = Inr buf"
proof -
  obtain a b c d e f g h i j k l where buf: "buf = [a, b, c, d, e, f, g, h, i, j, k, l]"
    using assms by (auto simp: HeaderLen_def length_Suc_conv eval_nat_numeral)
  define hd where "hd = \<lparr>ID = of_be16 a b, HFlags = UnpackFlags (of_be16 c d), QDCount = of_be16 e f,
    ANCount = of_be16 g h, NSCount = of_be16 i j, ARCount = of_be16 k l\<rparr>"
  have "Header_Unpack (Some h0) buf = Inr hd"
    by (simp add: buf Header_Unpack_def HeaderLen_def subslice_def BigEndian_Uint16_def hd_def)
  moreover have "flags_wf (HFlags hd)"
    by (simp add: hd_def flags_wf_UnpackFlags)
  moreover have "put_at buf 0 (enc_header hd) = buf"
    by (simp add: buf put_at_def enc_header_def hd_def Flags_Pack_UnpackFlags)
  ultimately show ?thesis
    using assms by (metis Header_Pack_put order_refl)
qed

end
