(* ===== verification/RDataBase.thy ===== *)
theory RDataBase
  imports Labels Header
begin

text \<open>
  What the record data types of \<^verbatim>\<open>internal/protocol\<close> share: \<open>holds buf off bs\<close> says that the buffer holds the octets \<open>bs\<close> at
  \<open>off\<close>, and \<open>pack_name\<close>, \<open>unpack_name\<close> are the calls of \<^verbatim>\<open>PackName\<close> without a compression map and of
  \<^verbatim>\<open>UnpackName\<close>.  The locale \<open>rdata_codec\<close> is the contract of the Go interface \<^verbatim>\<open>RData\<close>: every record
  type interprets it, and the resource record code relies on it alone.
\<close>

unbundle bit_operations_syntax

subsection \<open>Lengths and widths\<close>

definition bytes_of :: "nat \<Rightarrow> byte" where
  "bytes_of n = of_nat n"

lemma unat_bytes_of [simp]: "n \<le> 255 \<Longrightarrow> unat (bytes_of n) = n"
  by (simp add: bytes_of_def unat_of_nat take_bit_nat_eq_self)

lemma unat_of_nat16 [simp]: "n < 65536 \<Longrightarrow> unat (of_nat n :: uint16) = n"
  by (simp add: unat_of_nat take_bit_nat_eq_self)

lemma rdlength_eq: "(w :: uint16) = 4 \<longleftrightarrow> unat w = 4" "(w :: uint16) = 16 \<longleftrightarrow> unat w = 16"
  by (simp_all add: word_unat_eq_iff)

lemma unat_byte_le [simp]: "unat (b :: byte) \<le> 255"
  using unsigned_less [of b, where 'a = nat] by simp

lemma unat_uint16_less [simp]: "unat (v :: uint16) < 65536"
  using unsigned_less [of v, where 'a = nat] by simp

subsection \<open>Octets held by a buffer\<close>

definition holds :: "bytes \<Rightarrow> nat \<Rightarrow> bytes \<Rightarrow> bool" where
  "holds buf off bs \<longleftrightarrow> off + length bs \<le> length buf \<and> subslice buf off (length bs) = bs"

lemma holds_fits: "holds buf off bs \<Longrightarrow> off + length bs \<le> length buf"
  by (simp add: holds_def)

lemma holds_put_at: "off + length bs \<le> length buf \<Longrightarrow> holds (put_at buf off bs) off bs"
  by (simp add: holds_def subslice_put_at)

lemma holds_Nil [simp]: "holds buf off [] \<longleftrightarrow> off \<le> length buf"
  by (simp add: holds_def)

lemma subslice_add:
  "subslice buf off (m + n) = subslice buf off m @ subslice buf (off + m) n"
  by (simp add: subslice_def take_add add.commute)

lemma holds_append [simp]:
  "holds buf off (a @ b) \<longleftrightarrow> holds buf off a \<and> holds buf (off + length a) b"
proof -
  have "subslice buf off (length a + length b) = a @ b \<longleftrightarrow>
      subslice buf off (length a) = a \<and> subslice buf (off + length a) (length b) = b"
    if "off + length a + length b \<le> length buf"
    unfolding subslice_add using that by (intro append_eq_append_conv) simp
  then show ?thesis
    by (auto simp: holds_def)
qed

lemma holds_Cons [simp]:
  "holds buf off (x # xs) \<longleftrightarrow> off < length buf \<and> buf ! off = x \<and> holds buf (Suc off) xs"
  by (auto simp: holds_def subslice_eq_Cons Suc_le_eq [symmetric])

lemma holds_subslice: "off + n \<le> length buf \<Longrightarrow> holds buf off (subslice buf off n)"
  by (simp add: holds_def)

lemma holds_subslice_eq: "holds buf off bs \<Longrightarrow> n = length bs \<Longrightarrow> subslice buf off n = bs"
  by (simp add: holds_def)

lemma holds_be16:
  assumes "holds buf off (be16 v)"
  shows "Uint16 (drop off buf) = v" "off + 2 \<le> length buf"
  using assms Uint16_drop [of buf off v] holds_fits [OF assms] by (simp_all add: holds_def)

lemma holds_be32:
  assumes "holds buf off (be32 v)"
  shows "Uint32 (drop off buf) = v" "off + 4 \<le> length buf"
  using assms Uint32_drop [of buf off v] holds_fits [OF assms] by (simp_all add: holds_def)

lemma holds_of_take:
  assumes "holds buf off bs" "take m buf = take m buf'" "off + length bs \<le> m"
  shows "holds buf' off bs"
proof -
  have "subslice buf' off (length bs) = subslice buf off (length bs)"
    using assms(2,3) by (metis subslice_take)
  moreover have "off + length bs \<le> length buf'"
    using holds_fits [OF assms(1)] assms(2,3) by (metis length_take min.boundedE min.absorb_iff2 min_def)
  ultimately show ?thesis
    using assms(1) by (simp add: holds_def)
qed

subsection \<open>Names inside record data\<close>

definition pack_name :: "name option \<Rightarrow> bytes \<Rightarrow> nat \<Rightarrow> (nat \<times> bytes) result" where
  "pack_name nm buf off =
     (case PackName nm buf (int off) None of Inl e \<Rightarrow> Inl e | Inr (n, buf', _) \<Rightarrow> Inr (n, buf'))"

definition unpack_name :: "bytes \<Rightarrow> nat \<Rightarrow> (name \<times> nat) result" where
  "unpack_name buf off = UnpackName buf (int off)"

definition wf_name :: "name \<Rightarrow> bool" where
  "wf_name nm \<longleftrightarrow> wire nm \<noteq> [] \<and> validateWireName (wire nm) = None"

definition enc_name :: "name option \<Rightarrow> bytes" where
  "enc_name nm = (case nm of None \<Rightarrow> [0] | Some n \<Rightarrow> map toLower (wire n))"

definition canon_name :: "name option \<Rightarrow> name option" where
  "canon_name nm = Some (Name (enc_name nm))"

definition wf_oname :: "name option \<Rightarrow> bool" where
  "wf_oname nm \<longleftrightarrow> (case nm of None \<Rightarrow> True | Some n \<Rightarrow> wf_name n)"

lemma wf_oname_simps [simp]: "wf_oname None" "wf_oname (Some n) \<longleftrightarrow> wf_name n"
  by (simp_all add: wf_oname_def)

lemma wf_nameE:
  assumes "wf_name nm"
  obtains ls where "nm = NewName ls" "wf_labels ls"
proof -
  obtain ls where "wire nm = enc_labels ls @ [0]" "wf_labels ls"
    using assms validateWireName_labels unfolding wf_name_def by metis
  then show thesis
    by (intro that [of ls]) (simp_all add: NewName_def canonicalWire_enc name.expand)
qed

lemma wf_name_NewName: "wf_labels ls \<Longrightarrow> wf_name (NewName ls)"
  by (simp add: wf_name_def NewName_def canonicalWire_enc validateWireName_ok)

lemma enc_name_NewName:
  "wf_labels ls \<Longrightarrow> enc_name (Some (NewName ls)) = enc_labels (lower_labels ls) @ [0]"
  by (simp add: enc_name_def NewName_def canonicalWire_enc enc_lower wf_labels_def toLower_def)

lemma enc_name_pos [simp]: "wf_oname nm \<Longrightarrow> 0 < length (enc_name nm)"
  by (auto simp: enc_name_def wf_name_def split: option.splits)

lemma length_enc_name [simp]: "length (enc_name nm) = WireLength nm"
  by (simp add: enc_name_def WireLength_def split: option.split)

lemma WireLength_None [simp]: "WireLength None = 1"
  by (simp add: WireLength_def)

lemma enc_nameE:
  assumes "wf_oname nm"
  obtains ls where "wf_labels ls" "enc_name nm = enc_labels ls @ [0]" "canon_name nm = Some (NewName ls)"
proof (cases nm)
  case None
  then show thesis
    by (intro that [of "[]"]) (simp_all add: enc_name_def canon_name_def NewName_def)
next
  case (Some n)
  then obtain ls where "n = NewName ls" "wf_labels ls"
    using assms by (auto elim: wf_nameE)
  with Some show thesis
    by (intro that [of "lower_labels ls"])
      (simp_all add: enc_name_NewName canon_name_def, simp add: NewName_def canonicalWire_enc)
qed

lemma pack_name_iff:
  assumes "wf_oname nm"
  shows "pack_name nm buf off = Inr (n, buf') \<longleftrightarrow>
    n = length (enc_name nm) \<and> off + n \<le> length buf \<and> buf' = put_at buf off (enc_name nm)"
proof (cases "off < length buf")
  case False
  then have "pack_name nm buf off = Inl ErrInvalidOffset"
    by (simp add: pack_name_def PackName_def)
  with False enc_name_pos [OF assms] show ?thesis
    by simp
next
  case True
  show ?thesis
  proof (cases nm)
    case None
    with True show ?thesis
      by (auto simp: pack_name_def PackName_def enc_name_def)
  next
    case (Some n)
    then obtain ls where "n = NewName ls" "wf_labels ls"
      using assms by (auto elim: wf_nameE)
    with Some True show ?thesis
      by (auto simp: pack_name_def PackName_plain enc_name_NewName simp del: length_enc_name)
  qed
qed

lemma unpack_name_enc:
  assumes "holds buf off (enc_name nm)" "wf_oname nm"
  shows "unpack_name buf off = Inr (Name (enc_name nm), WireLength nm)"
proof -
  obtain ls where ls: "wf_labels ls" "enc_name nm = enc_labels ls @ [0]"
    using enc_nameE [OF assms(2)] by metis
  then have "subslice buf off (length (enc_labels ls) + 1) = enc_labels ls @ [0]"
    using assms(1) by (simp add: holds_def)
  from UnpackName_plain [OF ls(1) this] ls(2) show ?thesis
    by (simp add: unpack_name_def NewName_def canonicalWire_enc flip: length_enc_name)
qed

lemma unpack_name_ok:
  assumes "unpack_name buf off = Inr (nm, n)"
  shows "wf_name nm" "0 < n" "off + n \<le> length buf"
proof -
  have *: "UnpackName buf (int off) = Inr (nm, n)"
    using assms by (simp add: unpack_name_def)
  then obtain ls d where "wf_labels ls" "nm = NewName ls"
    unfolding UnpackName_iff by blast
  then show "wf_name nm"
    by (simp add: wf_name_NewName)
  show "0 < n" "off + n \<le> length buf"
    using UnpackName_valid [OF *] by simp_all
qed

lemma canon_name_simps [simp]:
  "canon_name nm = Some (Name (enc_name nm))"
  by (simp add: canon_name_def)

lemma wf_name_enc [simp]: "wf_oname nm \<Longrightarrow> wf_name (Name (enc_name nm))"
  using enc_nameE [of nm] by (metis canon_name_simps option.inject wf_name_NewName)

lemma enc_name_idem [simp]: "enc_name (Some (Name (enc_name nm))) = enc_name nm"
proof -
  have "toLower 0 = 0"
    by (simp add: toLower_def)
  then show ?thesis
    by (simp add: enc_name_def split: option.split)
qed

lemmas name_laws = pack_name_iff unpack_name_enc length_enc_name

subsection \<open>The contract of record data\<close>

text \<open>
  The interface \<^verbatim>\<open>RData\<close> of \<^verbatim>\<open>record.go\<close>.  \<open>pack\<close>, \<open>unpack\<close> and \<open>len\<close> are its methods \<^verbatim>\<open>Pack\<close>,
  \<^verbatim>\<open>Unpack\<close> and \<^verbatim>\<open>Len\<close>, and \<open>zero\<close> is the value \<^verbatim>\<open>createRData\<close> hands to \<^verbatim>\<open>Unpack\<close>.  A provider says which
  values are well formed, which octets encode one, and what is read back: the value
  itself up to the case of its names and an absent name read as the root.
\<close>

locale rdata_codec =
  fixes pack :: "'r \<Rightarrow> bytes \<Rightarrow> nat \<Rightarrow> (nat \<times> bytes) result"
    and unpack :: "'r \<Rightarrow> bytes \<Rightarrow> nat \<Rightarrow> uint16 \<Rightarrow> (nat \<times> 'r) result"
    and len :: "'r \<Rightarrow> nat"
    and zero :: 'r
    and wf :: "'r \<Rightarrow> bool"
    and enc :: "'r \<Rightarrow> bytes"
    and canon :: "'r \<Rightarrow> 'r"
  assumes pack_iff: "wf r \<Longrightarrow> off \<le> length buf \<Longrightarrow>
      pack r buf off = Inr (n, buf') \<longleftrightarrow>
        n = length (enc r) \<and> off + n \<le> length buf \<and> buf' = put_at buf off (enc r)"
    and len_enc: "wf r \<Longrightarrow> len r = length (enc r)"
    and unpack_enc: "wf r \<Longrightarrow> holds buf off (enc r) \<Longrightarrow> unat rdlength = length (enc r) \<Longrightarrow>
      unpack zero buf off rdlength = Inr (length (enc r), canon r)"
    and unpack_bound: "unpack zero buf off rdlength = Inr (n, r) \<Longrightarrow>
      n \<le> unat rdlength \<and> off + n \<le> length buf"
    and canon_wf: "wf r \<Longrightarrow> wf (canon r)"
    and canon_enc: "wf r \<Longrightarrow> enc (canon r) = enc r"
begin

lemma pack_fits:
  assumes "wf r" "off + len r \<le> length buf"
  shows "pack r buf off = Inr (len r, put_at buf off (enc r))"
  using assms pack_iff [of r off buf "len r"] len_enc [of r] by simp

lemma pack_only_if_fits:
  assumes "wf r" "off \<le> length buf" "pack r buf off = Inr (n, buf')"
  shows "n = len r" "off + n \<le> length buf" "length buf' = length buf" "take off buf' = take off buf"
    "drop (off + n) buf' = drop (off + n) buf"
  using assms pack_iff [of r off buf n buf'] len_enc [of r]
  by (simp_all add: put_at_def)

lemma roundtrip:
  assumes "wf r" "off \<le> length buf" "pack r buf off = Inr (n, buf')" "n < 65536"
  shows "unpack zero buf' off (of_nat n) = Inr (n, canon r)"
proof -
  have "n = length (enc r)" "off + n \<le> length buf" "buf' = put_at buf off (enc r)"
    using assms pack_iff [of r off buf n buf'] by simp_all
  then show ?thesis
    using assms(1,4) unpack_enc [of r buf' off "of_nat n"] by (simp add: holds_put_at)
qed

lemma canon_idem:
  assumes "wf r" "len r < 65536"
  shows "canon (canon r) = canon r"
proof -
  have "holds (enc r) 0 (enc r)"
    by (simp add: holds_def subslice_def)
  then show ?thesis
    using assms unpack_enc [of r "enc r" 0 "of_nat (len r)"]
      unpack_enc [of "canon r" "enc r" 0 "of_nat (len r)"] canon_wf [of r] canon_enc [of r] len_enc [of r]
    by simp
qed

end

text \<open>A type that packs whatever it unpacks: what is received can be sent on.\<close>

locale rdata_closed = rdata_codec +
  assumes unpack_wf: "unpack zero buf off rdlength = Inr (n, r) \<Longrightarrow> wf r"
begin

lemma forward:
  assumes "unpack zero buf off rdlength = Inr (n, r)" "off' + len r \<le> length buf'" "len r < 65536"
  shows "\<exists>buf''. pack r buf' off' = Inr (len r, buf'') \<and>
    unpack zero buf'' off' (of_nat (len r)) = Inr (len r, canon r)"
proof -
  have "wf r"
    using assms(1) by (rule unpack_wf)
  from pack_fits [OF this assms(2)] roundtrip [OF this _ pack_fits [OF this assms(2)] assms(3)]
  show ?thesis
    using assms(2) by simp
qed

end

end
