(* ===== verification/RDataAuth.thy ===== *)
theory RDataAuth
  imports RDataBase
begin

text \<open>
  SOA and SRV record data, \<^verbatim>\<open>internal/protocol/types_auth.go\<close>.
\<close>

subsection \<open>SOA\<close>

record RDataSOA =
  soa_MName :: "name option"
  soa_RName :: "name option"
  soa_Serial :: uint32
  soa_Refresh :: uint32
  soa_Retry :: uint32
  soa_Expire :: uint32
  soa_Minimum :: uint32

definition RDataSOA_Pack :: "RDataSOA option \<Rightarrow> bytes \<Rightarrow> nat \<Rightarrow> (nat \<times> bytes) result" where
  "RDataSOA_Pack ro buf start =
     (case ro of None \<Rightarrow> Inl (Errorf ''nil SOA record'')
      | Some r \<Rightarrow>
          and_then (pack_name (soa_MName r) buf start) (\<lambda>(n, buf).
          let off = start + n in
          and_then (pack_name (soa_RName r) buf off) (\<lambda>(n, buf).
          let off = off + n in
          if off + 20 > length buf then Inl ErrBufferTooSmall
          else
            let buf = PutUint32_at buf off (soa_Serial r);
                off = off + 4;
                buf = PutUint32_at buf off (soa_Refresh r);
                off = off + 4;
                buf = PutUint32_at buf off (soa_Retry r);
                off = off + 4;
                buf = PutUint32_at buf off (soa_Expire r);
                off = off + 4;
                buf = PutUint32_at buf off (soa_Minimum r);
                off = off + 4
            in Inr (off - start, buf))))"

definition RDataSOA_Unpack ::
  "RDataSOA option \<Rightarrow> bytes \<Rightarrow> nat \<Rightarrow> uint16 \<Rightarrow> (nat \<times> RDataSOA) result"
where
  "RDataSOA_Unpack ro buf start rdlength =
     (case ro of None \<Rightarrow> Inl (Errorf ''nil SOA record'')
      | Some r \<Rightarrow>
          let endOffset = start + unat rdlength in
          if endOffset > length buf then Inl ErrBufferTooSmall
          else
            and_then (unpack_name buf start) (\<lambda>(mname, n).
            let off = start + n in
            if off > endOffset then Inl (Errorf ''SOA MName overflows rdlength'')
            else
              and_then (unpack_name buf off) (\<lambda>(rname, n).
              let off = off + n in
              if off > endOffset then Inl (Errorf ''SOA RName overflows rdlength'')
              else if off + 20 > endOffset then Inl (Errorf ''SOA fixed fields overflow rdlength'')
              else Inr (off + 4 + 4 + 4 + 4 + 4 - start,
                     \<lparr>soa_MName = Some mname, soa_RName = Some rname,
                      soa_Serial = Uint32 (drop off buf), soa_Refresh = Uint32 (drop (off + 4) buf),
                      soa_Retry = Uint32 (drop (off + 4 + 4) buf),
                      soa_Expire = Uint32 (drop (off + 4 + 4 + 4) buf),
                      soa_Minimum = Uint32 (drop (off + 4 + 4 + 4 + 4) buf)\<rparr>))))"

definition RDataSOA_Len :: "RDataSOA option \<Rightarrow> nat" where
  "RDataSOA_Len ro =
     (case ro of None \<Rightarrow> 0
      | Some r \<Rightarrow>
          (case soa_MName r of None \<Rightarrow> 1 | Some n \<Rightarrow> WireLength (Some n)) +
          (case soa_RName r of None \<Rightarrow> 1 | Some n \<Rightarrow> WireLength (Some n)) + 20)"

definition RDataSOA_zero :: RDataSOA where
  "RDataSOA_zero =
     \<lparr>soa_MName = None, soa_RName = None, soa_Serial = 0, soa_Refresh = 0, soa_Retry = 0,
      soa_Expire = 0, soa_Minimum = 0\<rparr>"

definition RDataSOA_wf :: "RDataSOA \<Rightarrow> bool" where
  "RDataSOA_wf r \<longleftrightarrow> wf_oname (soa_MName r) \<and> wf_oname (soa_RName r)"

definition RDataSOA_enc :: "RDataSOA \<Rightarrow> bytes" where
  "RDataSOA_enc r =
     enc_name (soa_MName r) @ enc_name (soa_RName r) @ be32 (soa_Serial r) @ be32 (soa_Refresh r) @
     be32 (soa_Retry r) @ be32 (soa_Expire r) @ be32 (soa_Minimum r)"

definition RDataSOA_canon :: "RDataSOA \<Rightarrow> RDataSOA" where
  "RDataSOA_canon r = r\<lparr>soa_MName := canon_name (soa_MName r), soa_RName := canon_name (soa_RName r)\<rparr>"

lemmas RDataSOA_defs = RDataSOA_Pack_def RDataSOA_Unpack_def RDataSOA_Len_def RDataSOA_zero_def
  RDataSOA_wf_def RDataSOA_enc_def RDataSOA_canon_def Let_def

interpretation SOA: rdata_closed "\<lambda>r. RDataSOA_Pack (Some r)" "\<lambda>r. RDataSOA_Unpack (Some r)"
  "\<lambda>r. RDataSOA_Len (Some r)" RDataSOA_zero RDataSOA_wf RDataSOA_enc RDataSOA_canon
proof unfold_locales
  fix r :: RDataSOA and buf buf' :: bytes and off n :: nat
  assume "RDataSOA_wf r" "off \<le> length buf"
  then show "RDataSOA_Pack (Some r) buf off = Inr (n, buf') \<longleftrightarrow>
      n = length (RDataSOA_enc r) \<and> off + n \<le> length buf \<and> buf' = put_at buf off (RDataSOA_enc r)"
    by (auto simp: RDataSOA_defs and_then_Inr pack_name_iff codec_simps)
next
  fix r :: RDataSOA and buf :: bytes and off :: nat and rdlength :: uint16
  assume "RDataSOA_wf r" "holds buf off (RDataSOA_enc r)" "unat rdlength = length (RDataSOA_enc r)"
  then show "RDataSOA_Unpack (Some RDataSOA_zero) buf off rdlength =
      Inr (length (RDataSOA_enc r), RDataSOA_canon r)"
    using holds_fits [of buf off "RDataSOA_enc r"]
    by (auto simp: RDataSOA_defs unpack_name_enc holds_be16 holds_be32)
qed (auto simp: RDataSOA_defs and_then_Inr split: if_splits option.splits dest: unpack_name_ok)

subsection \<open>SRV\<close>

record RDataSRV =
  srv_Priority :: uint16
  srv_Weight :: uint16
  srv_Port :: uint16
  srv_Target :: "name option"

definition RDataSRV_Pack :: "RDataSRV option \<Rightarrow> bytes \<Rightarrow> nat \<Rightarrow> (nat \<times> bytes) result" where
  "RDataSRV_Pack ro buf start =
     (case ro of None \<Rightarrow> Inl (Errorf ''nil SRV record'')
      | Some r \<Rightarrow>
          if start + 6 > length buf then Inl ErrBufferTooSmall
          else
            let buf = PutUint16_at buf start (srv_Priority r);
                off = start + 2;
                buf = PutUint16_at buf off (srv_Weight r);
                off = off + 2;
                buf = PutUint16_at buf off (srv_Port r);
                off = off + 2
            in and_then (pack_name (srv_Target r) buf off) (\<lambda>(n, buf). Inr (off + n - start, buf)))"

definition RDataSRV_Unpack ::
  "RDataSRV option \<Rightarrow> bytes \<Rightarrow> nat \<Rightarrow> uint16 \<Rightarrow> (nat \<times> RDataSRV) result"
where
  "RDataSRV_Unpack ro buf start rdlength =
     (case ro of None \<Rightarrow> Inl (Errorf ''nil SRV record'')
      | Some r \<Rightarrow>
          let endOffset = start + unat rdlength in
          if endOffset > length buf then Inl ErrBufferTooSmall
          else if start + 6 > endOffset then Inl (Errorf ''SRV fixed fields overflow rdlength'')
          else
            let off = start + 2 + 2 + 2 in
            and_then (unpack_name buf off) (\<lambda>(target, n).
            if off + n > endOffset then Inl (Errorf ''SRV Target overflows rdlength'')
            else Inr (off + n - start,
                   \<lparr>srv_Priority = Uint16 (drop start buf), srv_Weight = Uint16 (drop (start + 2) buf),
                    srv_Port = Uint16 (drop (start + 2 + 2) buf), srv_Target = Some target\<rparr>)))"

definition RDataSRV_Len :: "RDataSRV option \<Rightarrow> nat" where
  "RDataSRV_Len ro =
     (case ro of None \<Rightarrow> 0
      | Some r \<Rightarrow> (case srv_Target r of None \<Rightarrow> 7 | Some n \<Rightarrow> 6 + WireLength (Some n)))"

definition RDataSRV_zero :: RDataSRV where
  "RDataSRV_zero = \<lparr>srv_Priority = 0, srv_Weight = 0, srv_Port = 0, srv_Target = None\<rparr>"

definition RDataSRV_wf :: "RDataSRV \<Rightarrow> bool" where "RDataSRV_wf r \<longleftrightarrow> wf_oname (srv_Target r)"

definition RDataSRV_enc :: "RDataSRV \<Rightarrow> bytes" where
  "RDataSRV_enc r =
     be16 (srv_Priority r) @ be16 (srv_Weight r) @ be16 (srv_Port r) @ enc_name (srv_Target r)"

definition RDataSRV_canon :: "RDataSRV \<Rightarrow> RDataSRV" where
  "RDataSRV_canon r = r\<lparr>srv_Target := canon_name (srv_Target r)\<rparr>"

lemmas RDataSRV_defs = RDataSRV_Pack_def RDataSRV_Unpack_def RDataSRV_Len_def RDataSRV_zero_def
  RDataSRV_wf_def RDataSRV_enc_def RDataSRV_canon_def Let_def

interpretation SRV: rdata_closed "\<lambda>r. RDataSRV_Pack (Some r)" "\<lambda>r. RDataSRV_Unpack (Some r)"
  "\<lambda>r. RDataSRV_Len (Some r)" RDataSRV_zero RDataSRV_wf RDataSRV_enc RDataSRV_canon
proof unfold_locales
  fix r :: RDataSRV and buf buf' :: bytes and off n :: nat
  assume "RDataSRV_wf r" "off \<le> length buf"
  then show "RDataSRV_Pack (Some r) buf off = Inr (n, buf') \<longleftrightarrow>
      n = length (RDataSRV_enc r) \<and> off + n \<le> length buf \<and> buf' = put_at buf off (RDataSRV_enc r)"
    by (auto simp: RDataSRV_defs and_then_Inr pack_name_iff codec_simps)
next
  fix r :: RDataSRV and buf :: bytes and off :: nat and rdlength :: uint16
  assume "RDataSRV_wf r" "holds buf off (RDataSRV_enc r)" "unat rdlength = length (RDataSRV_enc r)"
  then show "RDataSRV_Unpack (Some RDataSRV_zero) buf off rdlength =
      Inr (length (RDataSRV_enc r), RDataSRV_canon r)"
    using holds_fits [of buf off "RDataSRV_enc r"]
    by (auto simp: RDataSRV_defs unpack_name_enc holds_be16 holds_be32)
qed (auto simp: RDataSRV_defs and_then_Inr split: if_splits option.splits dest: unpack_name_ok)

end
