(* ===== verification/RDataMail.thy ===== *)
theory RDataMail
  imports RDataBase
begin

text \<open>
  MX and TXT record data, \<^verbatim>\<open>internal/protocol/types_mail.go\<close>.
\<close>

unbundle bit_operations_syntax

subsection \<open>MX\<close>

record RDataMX =
  mx_Preference :: uint16
  mx_Exchange :: "name option"

definition RDataMX_Pack :: "RDataMX option \<Rightarrow> bytes \<Rightarrow> nat \<Rightarrow> (nat \<times> bytes) result" where
  "RDataMX_Pack ro buf start =
     (case ro of None \<Rightarrow> Inl (Errorf ''nil MX record'')
      | Some r \<Rightarrow>
          if start + 2 > length buf then Inl ErrBufferTooSmall
          else
            let buf = PutUint16_at buf start (mx_Preference r);
                off = start + 2
            in and_then (pack_name (mx_Exchange r) buf off) (\<lambda>(n, buf). Inr (off + n - start, buf)))"

definition RDataMX_Unpack :: "RDataMX option \<Rightarrow> bytes \<Rightarrow> nat \<Rightarrow> uint16 \<Rightarrow> (nat \<times> RDataMX) result" where
  "RDataMX_Unpack ro buf start rdlength =
     (case ro of None \<Rightarrow> Inl (Errorf ''nil MX record'')
      | Some r \<Rightarrow>
          let endOffset = start + unat rdlength
          in if endOffset > length buf then Inl ErrBufferTooSmall
             else if start + 2 > endOffset then Inl (Errorf ''MX preference overflows rdlength'')
             else
               let r = r\<lparr>mx_Preference := Uint16 (drop start buf)\<rparr>; off = start + 2
               in and_then (unpack_name buf off) (\<lambda>(name, n).
                    if off + n > endOffset then Inl (Errorf ''MX Exchange overflows rdlength'')
                    else Inr (off + n - start, r\<lparr>mx_Exchange := Some name\<rparr>)))"

definition RDataMX_Len :: "RDataMX option \<Rightarrow> nat" where
  "RDataMX_Len ro =
     (case ro of None \<Rightarrow> 0
      | Some r \<Rightarrow> (case mx_Exchange r of None \<Rightarrow> 3 | Some n \<Rightarrow> 2 + WireLength (Some n)))"

definition RDataMX_zero :: RDataMX where "RDataMX_zero = \<lparr>mx_Preference = 0, mx_Exchange = None\<rparr>"

definition RDataMX_wf :: "RDataMX \<Rightarrow> bool" where "RDataMX_wf r \<longleftrightarrow> wf_oname (mx_Exchange r)"

definition RDataMX_enc :: "RDataMX \<Rightarrow> bytes" where
  "RDataMX_enc r = be16 (mx_Preference r) @ enc_name (mx_Exchange r)"

definition RDataMX_canon :: "RDataMX \<Rightarrow> RDataMX" where
  "RDataMX_canon r = r\<lparr>mx_Exchange := canon_name (mx_Exchange r)\<rparr>"

lemmas RDataMX_defs = RDataMX_Pack_def RDataMX_Unpack_def RDataMX_Len_def RDataMX_zero_def
  RDataMX_wf_def RDataMX_enc_def RDataMX_canon_def Let_def

interpretation MX: rdata_closed "\<lambda>r. RDataMX_Pack (Some r)" "\<lambda>r. RDataMX_Unpack (Some r)"
  "\<lambda>r. RDataMX_Len (Some r)" RDataMX_zero RDataMX_wf RDataMX_enc RDataMX_canon
proof unfold_locales
  fix r :: RDataMX and buf buf' :: bytes and off n :: nat
  assume "RDataMX_wf r"
  then show "RDataMX_Pack (Some r) buf off = Inr (n, buf') \<longleftrightarrow>
      n = length (RDataMX_enc r) \<and> off + n \<le> length buf \<and> buf' = put_at buf off (RDataMX_enc r)"
    by (auto simp: RDataMX_defs and_then_Inr pack_name_iff codec_simps)
next
  fix r :: RDataMX and buf :: bytes and off :: nat and rdlength :: uint16
  assume "RDataMX_wf r" "holds buf off (RDataMX_enc r)" "unat rdlength = length (RDataMX_enc r)"
  then show "RDataMX_Unpack (Some RDataMX_zero) buf off rdlength =
      Inr (length (RDataMX_enc r), RDataMX_canon r)"
    using holds_fits [of buf off "RDataMX_enc r"]
    by (auto simp: RDataMX_defs unpack_name_enc holds_be16)
qed (auto simp: RDataMX_defs and_then_Inr split: if_splits option.splits dest: unpack_name_ok)

subsection \<open>TXT\<close>

record RDataTXT =
  txt_Strings :: "bytes list"

fun RDataTXT_Pack_loop :: "bytes list \<Rightarrow> bytes \<Rightarrow> nat \<Rightarrow> (nat \<times> bytes) result" where
  "RDataTXT_Pack_loop [] buf off = Inr (off, buf)"
| "RDataTXT_Pack_loop (s # ss) buf off =
     (if length s > 255 then Inl ErrLabelTooLong
      else if off + 1 + length s > length buf then Inl ErrBufferTooSmall
      else
        let buf = put_at buf off [bytes_of (length s)];
            off = off + 1;
            buf = put_at buf off s
        in RDataTXT_Pack_loop ss buf (off + length s))"

definition RDataTXT_Pack :: "RDataTXT option \<Rightarrow> bytes \<Rightarrow> nat \<Rightarrow> (nat \<times> bytes) result" where
  "RDataTXT_Pack ro buf start =
     (case ro of None \<Rightarrow> Inl (Errorf ''nil TXT record'')
      | Some r \<Rightarrow>
          and_then (RDataTXT_Pack_loop (txt_Strings r) buf start) (\<lambda>(off, buf). Inr (off - start, buf)))"

function RDataTXT_Unpack_loop :: "bytes \<Rightarrow> nat \<Rightarrow> nat \<Rightarrow> bytes list \<Rightarrow> (nat \<times> bytes list) result" where
  "RDataTXT_Unpack_loop buf off endOffset ss =
     (if off < endOffset then
        if off \<ge> length buf then Inl ErrBufferTooSmall
        else
          let slen = unat (buf ! off)
          in if off + 1 + slen > endOffset
             then Inl (Errorf ''TXT string length exceeds rdlength boundary'')
             else RDataTXT_Unpack_loop buf (off + 1 + slen) endOffset (ss @ [subslice buf (off + 1) slen])
      else Inr (off, ss))"
  by pat_completeness auto
termination
  by (relation "measure (\<lambda>(buf, off, endOffset, ss). endOffset - off)") (auto simp: Let_def)

declare RDataTXT_Unpack_loop.simps [simp del]

definition RDataTXT_Unpack ::
  "RDataTXT option \<Rightarrow> bytes \<Rightarrow> nat \<Rightarrow> uint16 \<Rightarrow> (nat \<times> RDataTXT) result"
where
  "RDataTXT_Unpack ro buf start rdlength =
     (case ro of None \<Rightarrow> Inl (Errorf ''nil TXT record'')
      | Some r \<Rightarrow>
          let endOffset = start + unat rdlength
          in if endOffset > length buf then Inl ErrBufferTooSmall
             else and_then (RDataTXT_Unpack_loop buf start endOffset (txt_Strings r))
                    (\<lambda>(off, ss). Inr (off - start, r\<lparr>txt_Strings := ss\<rparr>)))"

definition RDataTXT_Len :: "RDataTXT option \<Rightarrow> nat" where
  "RDataTXT_Len ro =
     (case ro of None \<Rightarrow> 0 | Some r \<Rightarrow> foldl (\<lambda>l s. l + (1 + length s)) 0 (txt_Strings r))"

definition RDataTXT_zero :: RDataTXT where "RDataTXT_zero = \<lparr>txt_Strings = []\<rparr>"

definition RDataTXT_wf :: "RDataTXT \<Rightarrow> bool" where
  "RDataTXT_wf r \<longleftrightarrow> (\<forall>s \<in> set (txt_Strings r). length s \<le> 255)"

definition enc_string :: "bytes \<Rightarrow> bytes" where
  "enc_string s = bytes_of (length s) # s"

definition RDataTXT_enc :: "RDataTXT \<Rightarrow> bytes" where
  "RDataTXT_enc r = concat (map enc_string (txt_Strings r))"

lemmas RDataTXT_defs = RDataTXT_Pack_def RDataTXT_Unpack_def RDataTXT_Len_def RDataTXT_zero_def
  RDataTXT_wf_def RDataTXT_enc_def Let_def

lemma length_enc_string [simp]: "length (enc_string s) = Suc (length s)"
  by (simp add: enc_string_def)

lemma RDataTXT_Pack_loop_iff:
  "\<forall>s \<in> set ss. length s \<le> 255 \<Longrightarrow> off \<le> length buf \<Longrightarrow>
   RDataTXT_Pack_loop ss buf off = Inr (off', buf') \<longleftrightarrow>
     off' = off + length (concat (map enc_string ss)) \<and> off' \<le> length buf \<and>
     buf' = put_at buf off (concat (map enc_string ss))"
proof (induction ss arbitrary: buf off)
  case Nil
  then show ?case by auto
next
  case (Cons s ss)
  show ?case
  proof (cases "off + 1 + length s \<le> length buf")
    case True
    then have "RDataTXT_Pack_loop (s # ss) buf off =
        RDataTXT_Pack_loop ss (put_at buf off (enc_string s)) (off + length (enc_string s))"
      using Cons.prems by (simp add: Let_def codec_simps enc_string_def)
    then show ?thesis
      using Cons True by (auto simp: put_at_put_at add.assoc)
  next
    case False
    then show ?thesis
      using Cons.prems by simp
  qed
qed

lemma RDataTXT_Unpack_loop_enc:
  "\<forall>s \<in> set ss. length s \<le> 255 \<Longrightarrow> holds buf off (concat (map enc_string ss)) \<Longrightarrow>
   RDataTXT_Unpack_loop buf off (off + length (concat (map enc_string ss))) acc =
     Inr (off + length (concat (map enc_string ss)), acc @ ss)"
proof (induction ss arbitrary: off acc)
  case Nil
  then show ?case by (simp add: RDataTXT_Unpack_loop.simps)
next
  case (Cons s ss)
  then have "off < length buf" "unat (buf ! off) = length s" "subslice buf (Suc off) (length s) = s"
    by (auto simp: enc_string_def holds_subslice_eq)
  moreover have "RDataTXT_Unpack_loop buf (off + length (enc_string s))
      (off + length (enc_string s) + length (concat (map enc_string ss))) (acc @ [s]) =
      Inr (off + length (enc_string s) + length (concat (map enc_string ss)), (acc @ [s]) @ ss)"
    using Cons by (intro Cons.IH) simp_all
  ultimately show ?case
    by (subst RDataTXT_Unpack_loop.simps) (simp add: Let_def add.assoc)
qed

lemma RDataTXT_Unpack_loop_ok:
  "RDataTXT_Unpack_loop buf off endOffset acc = Inr (off', ss) \<Longrightarrow> off \<le> endOffset \<Longrightarrow>
   \<forall>s \<in> set acc. length s \<le> 255 \<Longrightarrow> off' = endOffset \<and> (\<forall>s \<in> set ss. length s \<le> 255)"
proof (induction buf off endOffset acc rule: RDataTXT_Unpack_loop.induct)
  case (1 buf off endOffset acc)
  have "length (subslice buf (off + 1) (unat b)) \<le> 255" for b :: byte
    by (simp add: subslice_def min_le_iff_disj)
  with 1 show ?case
    by (subst (asm) (2) RDataTXT_Unpack_loop.simps) (auto simp: Let_def split: if_splits)
qed

interpretation TXT: rdata_closed "\<lambda>r. RDataTXT_Pack (Some r)" "\<lambda>r. RDataTXT_Unpack (Some r)"
  "\<lambda>r. RDataTXT_Len (Some r)" RDataTXT_zero RDataTXT_wf RDataTXT_enc "\<lambda>r. r"
proof unfold_locales
  fix r :: RDataTXT and buf buf' :: bytes and off n :: nat
  assume "RDataTXT_wf r" "off \<le> length buf"
  then show "RDataTXT_Pack (Some r) buf off = Inr (n, buf') \<longleftrightarrow>
      n = length (RDataTXT_enc r) \<and> off + n \<le> length buf \<and> buf' = put_at buf off (RDataTXT_enc r)"
    by (auto simp: RDataTXT_defs and_then_Inr RDataTXT_Pack_loop_iff)
next
  fix r :: RDataTXT
  have "foldl (\<lambda>l s. l + (1 + length s)) k xs = k + length (concat (map enc_string xs))" for k and xs
    by (induction xs arbitrary: k) simp_all
  then show "RDataTXT_Len (Some r) = length (RDataTXT_enc r)"
    by (simp add: RDataTXT_defs)
next
  fix r :: RDataTXT and buf :: bytes and off :: nat and rdlength :: uint16
  assume "RDataTXT_wf r" "holds buf off (RDataTXT_enc r)" "unat rdlength = length (RDataTXT_enc r)"
  then show "RDataTXT_Unpack (Some RDataTXT_zero) buf off rdlength =
      Inr (length (RDataTXT_enc r), r)"
    using RDataTXT_Unpack_loop_enc [of "txt_Strings r" buf off "[]"] holds_fits [of buf off "RDataTXT_enc r"]
    by (simp add: RDataTXT_defs)
qed (auto simp: RDataTXT_defs and_then_Inr split: if_splits dest!: RDataTXT_Unpack_loop_ok)

end
