(* ===== verification/RDataNaming.thy ===== *)
theory RDataNaming
  imports RDataMail
begin

text \<open>
  HINFO, RP, AFSDB, KX, URI and NAPTR record data, \<^verbatim>\<open>internal/protocol/types_naming.go\<close>, with the
  character strings they are made of.
\<close>

subsection \<open>Character strings\<close>

definition packCharacterString :: "bytes \<Rightarrow> nat \<Rightarrow> bytes \<Rightarrow> (nat \<times> bytes) result" where
  "packCharacterString buf off v =
     (if length v > 255 then Inl ErrLabelTooLong
      else if off + 1 + length v > length buf then Inl ErrBufferTooSmall
      else
        let buf = put_at buf off [bytes_of (length v)];
            buf = put_at buf (off + 1) v
        in Inr (1 + length v, buf))"

definition unpackCharacterString :: "bytes \<Rightarrow> nat \<Rightarrow> nat \<Rightarrow> (bytes \<times> nat) result" where
  "unpackCharacterString buf off endOffset =
     (if off \<ge> endOffset then Inl ErrBufferTooSmall
      else
        let valueLen = unat (buf ! off); off = off + 1
        in if off + valueLen > endOffset then Inl ErrBufferTooSmall
           else Inr (subslice buf off valueLen, 1 + valueLen))"

lemma packCharacterString_iff:
  "length v \<le> 255 \<Longrightarrow> packCharacterString buf off v = Inr (n, buf') \<longleftrightarrow>
     n = length (enc_string v) \<and> off + n \<le> length buf \<and> buf' = put_at buf off (enc_string v)"
  by (auto simp: packCharacterString_def enc_string_def codec_simps)

lemma unpackCharacterString_enc:
  "holds buf off (enc_string v) \<Longrightarrow> length v \<le> 255 \<Longrightarrow> off + Suc (length v) \<le> endOffset \<Longrightarrow>
   unpackCharacterString buf off endOffset = Inr (v, Suc (length v))"
  by (auto simp: unpackCharacterString_def enc_string_def holds_subslice_eq)

lemma unpackCharacterString_ok:
  assumes "unpackCharacterString buf off endOffset = Inr (v, n)"
  shows "length v \<le> 255" "0 < n" "off + n \<le> endOffset"
  using assms by (auto simp: unpackCharacterString_def subslice_def Let_def min_le_iff_disj split: if_splits)

subsection \<open>HINFO\<close>

record RDataHINFO =
  hinfo_CPU :: bytes
  hinfo_OS :: bytes

definition RDataHINFO_Pack :: "RDataHINFO option \<Rightarrow> bytes \<Rightarrow> nat \<Rightarrow> (nat \<times> bytes) result" where
  "RDataHINFO_Pack ro buf start =
     (case ro of None \<Rightarrow> Inl (Errorf ''nil HINFO record'')
      | Some r \<Rightarrow>
          and_then (packCharacterString buf start (hinfo_CPU r)) (\<lambda>(n, buf).
          let off = start + n in
          and_then (packCharacterString buf off (hinfo_OS r)) (\<lambda>(n, buf).
          Inr (off + n - start, buf))))"

definition RDataHINFO_Unpack ::
  "RDataHINFO option \<Rightarrow> bytes \<Rightarrow> nat \<Rightarrow> uint16 \<Rightarrow> (nat \<times> RDataHINFO) result"
where
  "RDataHINFO_Unpack ro buf start rdlength =
     (case ro of None \<Rightarrow> Inl (Errorf ''nil HINFO record'')
      | Some r \<Rightarrow>
          let endOffset = start + unat rdlength in
          if endOffset > length buf then Inl ErrBufferTooSmall
          else
            and_then (unpackCharacterString buf start endOffset) (\<lambda>(cpu, n).
            let off = start + n in
            and_then (unpackCharacterString buf off endOffset) (\<lambda>(os, n).
            let off = off + n in
            if off \<noteq> endOffset then Inl (Errorf ''HINFO RDATA length mismatch'')
            else Inr (off - start, r\<lparr>hinfo_CPU := cpu, hinfo_OS := os\<rparr>))))"

definition RDataHINFO_Len :: "RDataHINFO option \<Rightarrow> nat" where
  "RDataHINFO_Len ro =
     (case ro of None \<Rightarrow> 0 | Some r \<Rightarrow> 1 + length (hinfo_CPU r) + 1 + length (hinfo_OS r))"

definition RDataHINFO_zero :: RDataHINFO where "RDataHINFO_zero = \<lparr>hinfo_CPU = [], hinfo_OS = []\<rparr>"

definition RDataHINFO_wf :: "RDataHINFO \<Rightarrow> bool" where
  "RDataHINFO_wf r \<longleftrightarrow> length (hinfo_CPU r) \<le> 255 \<and> length (hinfo_OS r) \<le> 255"

definition RDataHINFO_enc :: "RDataHINFO \<Rightarrow> bytes" where
  "RDataHINFO_enc r = enc_string (hinfo_CPU r) @ enc_string (hinfo_OS r)"

lemmas RDataHINFO_defs = RDataHINFO_Pack_def RDataHINFO_Unpack_def RDataHINFO_Len_def RDataHINFO_zero_def
  RDataHINFO_wf_def RDataHINFO_enc_def Let_def

interpretation HINFO: rdata_closed "\<lambda>r. RDataHINFO_Pack (Some r)" "\<lambda>r. RDataHINFO_Unpack (Some r)"
  "\<lambda>r. RDataHINFO_Len (Some r)" RDataHINFO_zero RDataHINFO_wf RDataHINFO_enc "\<lambda>r. r"
proof unfold_locales
  fix r :: RDataHINFO and buf buf' :: bytes and off n :: nat
  assume "RDataHINFO_wf r" "off \<le> length buf"
  then show "RDataHINFO_Pack (Some r) buf off = Inr (n, buf') \<longleftrightarrow>
      n = length (RDataHINFO_enc r) \<and> off + n \<le> length buf \<and> buf' = put_at buf off (RDataHINFO_enc r)"
    by (auto simp: RDataHINFO_defs and_then_Inr pack_name_iff codec_simps packCharacterString_iff)
next
  fix r :: RDataHINFO and buf :: bytes and off :: nat and rdlength :: uint16
  assume "RDataHINFO_wf r" "holds buf off (RDataHINFO_enc r)" "unat rdlength = length (RDataHINFO_enc r)"
  then show "RDataHINFO_Unpack (Some RDataHINFO_zero) buf off rdlength =
      Inr (length (RDataHINFO_enc r), r)"
    using holds_fits [of buf off "RDataHINFO_enc r"]
    by (auto simp: RDataHINFO_defs unpack_name_enc holds_be16 holds_be32 unpackCharacterString_enc)
qed (auto simp: RDataHINFO_defs and_then_Inr split: if_splits option.splits dest: unpack_name_ok unpackCharacterString_ok)

subsection \<open>RP\<close>

record RDataRP =
  rp_MBox :: "name option"
  rp_Txt :: "name option"

definition RDataRP_Pack :: "RDataRP option \<Rightarrow> bytes \<Rightarrow> nat \<Rightarrow> (nat \<times> bytes) result" where
  "RDataRP_Pack ro buf start =
     (case ro of None \<Rightarrow> Inl (Errorf ''nil RP record'')
      | Some r \<Rightarrow>
          and_then (pack_name (rp_MBox r) buf start) (\<lambda>(n, buf).
          let off = start + n in
          and_then (pack_name (rp_Txt r) buf off) (\<lambda>(n, buf).
          Inr (off + n - start, buf))))"

definition RDataRP_Unpack :: "RDataRP option \<Rightarrow> bytes \<Rightarrow> nat \<Rightarrow> uint16 \<Rightarrow> (nat \<times> RDataRP) result" where
  "RDataRP_Unpack ro buf start rdlength =
     (case ro of None \<Rightarrow> Inl (Errorf ''nil RP record'')
      | Some r \<Rightarrow>
          let endOffset = start + unat rdlength in
          if endOffset > length buf then Inl ErrBufferTooSmall
          else
            and_then (unpack_name buf start) (\<lambda>(mbox, n).
            let off = start + n in
            and_then (unpack_name buf off) (\<lambda>(txt, n).
            let off = off + n in
            if off \<noteq> endOffset then Inl (Errorf ''RP RDATA length mismatch'')
            else Inr (off - start, r\<lparr>rp_MBox := Some mbox, rp_Txt := Some txt\<rparr>))))"

definition RDataRP_Len :: "RDataRP option \<Rightarrow> nat" where
  "RDataRP_Len ro = (case ro of None \<Rightarrow> 0 | Some r \<Rightarrow> WireLength (rp_MBox r) + WireLength (rp_Txt r))"

definition RDataRP_zero :: RDataRP where "RDataRP_zero = \<lparr>rp_MBox = None, rp_Txt = None\<rparr>"

definition RDataRP_wf :: "RDataRP \<Rightarrow> bool" where
  "RDataRP_wf r \<longleftrightarrow> wf_oname (rp_MBox r) \<and> wf_oname (rp_Txt r)"

definition RDataRP_enc :: "RDataRP \<Rightarrow> bytes" where
  "RDataRP_enc r = enc_name (rp_MBox r) @ enc_name (rp_Txt r)"

definition RDataRP_canon :: "RDataRP \<Rightarrow> RDataRP" where
  "RDataRP_canon r = \<lparr>rp_MBox = canon_name (rp_MBox r), rp_Txt = canon_name (rp_Txt r)\<rparr>"

lemmas RDataRP_defs = RDataRP_Pack_def RDataRP_Unpack_def RDataRP_Len_def RDataRP_zero_def
  RDataRP_wf_def RDataRP_enc_def RDataRP_canon_def Let_def

interpretation RP: rdata_closed "\<lambda>r. RDataRP_Pack (Some r)" "\<lambda>r. RDataRP_Unpack (Some r)"
  "\<lambda>r. RDataRP_Len (Some r)" RDataRP_zero RDataRP_wf RDataRP_enc RDataRP_canon
proof unfold_locales
  fix r :: RDataRP and buf buf' :: bytes and off n :: nat
  assume "RDataRP_wf r" "off \<le> length buf"
  then show "RDataRP_Pack (Some r) buf off = Inr (n, buf') \<longleftrightarrow>
      n = length (RDataRP_enc r) \<and> off + n \<le> length buf \<and> buf' = put_at buf off (RDataRP_enc r)"
    by (auto simp: RDataRP_defs and_then_Inr pack_name_iff codec_simps)
next
  fix r :: RDataRP and buf :: bytes and off :: nat and rdlength :: uint16
  assume "RDataRP_wf r" "holds buf off (RDataRP_enc r)" "unat rdlength = length (RDataRP_enc r)"
  then show "RDataRP_Unpack (Some RDataRP_zero) buf off rdlength =
      Inr (length (RDataRP_enc r), RDataRP_canon r)"
    using holds_fits [of buf off "RDataRP_enc r"]
    by (auto simp: RDataRP_defs unpack_name_enc holds_be16 holds_be32)
qed (auto simp: RDataRP_defs and_then_Inr split: if_splits option.splits dest: unpack_name_ok)

subsection \<open>AFSDB\<close>

record RDataAFSDB =
  afsdb_Subtype :: uint16
  afsdb_Hostname :: "name option"

definition RDataAFSDB_Pack :: "RDataAFSDB option \<Rightarrow> bytes \<Rightarrow> nat \<Rightarrow> (nat \<times> bytes) result" where
  "RDataAFSDB_Pack ro buf start =
     (case ro of None \<Rightarrow> Inl (Errorf ''nil AFSDB record'')
      | Some r \<Rightarrow>
          if start + 2 > length buf then Inl ErrBufferTooSmall
          else
            let buf = PutUint16_at buf start (afsdb_Subtype r);
                off = start + 2
            in and_then (pack_name (afsdb_Hostname r) buf off) (\<lambda>(n, buf). Inr (off + n - start, buf)))"

definition RDataAFSDB_Unpack ::
  "RDataAFSDB option \<Rightarrow> bytes \<Rightarrow> nat \<Rightarrow> uint16 \<Rightarrow> (nat \<times> RDataAFSDB) result"
where
  "RDataAFSDB_Unpack ro buf start rdlength =
     (case ro of None \<Rightarrow> Inl (Errorf ''nil AFSDB record'')
      | Some r \<Rightarrow>
          let endOffset = start + unat rdlength in
          if endOffset > length buf then Inl ErrBufferTooSmall
          else if start + 2 > endOffset then Inl ErrBufferTooSmall
          else
            let r = r\<lparr>afsdb_Subtype := Uint16 (drop start buf)\<rparr>; off = start + 2 in
            and_then (unpack_name buf off) (\<lambda>(hostname, n).
            let off = off + n in
            if off \<noteq> endOffset then Inl (Errorf ''AFSDB RDATA length mismatch'')
            else Inr (off - start, r\<lparr>afsdb_Hostname := Some hostname\<rparr>)))"

definition RDataAFSDB_Len :: "RDataAFSDB option \<Rightarrow> nat" where
  "RDataAFSDB_Len ro = (case ro of None \<Rightarrow> 0 | Some r \<Rightarrow> 2 + WireLength (afsdb_Hostname r))"

definition RDataAFSDB_zero :: RDataAFSDB where "RDataAFSDB_zero = \<lparr>afsdb_Subtype = 0, afsdb_Hostname = None\<rparr>"

definition RDataAFSDB_wf :: "RDataAFSDB \<Rightarrow> bool" where "RDataAFSDB_wf r \<longleftrightarrow> wf_oname (afsdb_Hostname r)"

definition RDataAFSDB_enc :: "RDataAFSDB \<Rightarrow> bytes" where
  "RDataAFSDB_enc r = be16 (afsdb_Subtype r) @ enc_name (afsdb_Hostname r)"

definition RDataAFSDB_canon :: "RDataAFSDB \<Rightarrow> RDataAFSDB" where
  "RDataAFSDB_canon r = r\<lparr>afsdb_Hostname := canon_name (afsdb_Hostname r)\<rparr>"

lemmas RDataAFSDB_defs = RDataAFSDB_Pack_def RDataAFSDB_Unpack_def RDataAFSDB_Len_def RDataAFSDB_zero_def
  RDataAFSDB_wf_def RDataAFSDB_enc_def RDataAFSDB_canon_def Let_def

interpretation AFSDB: rdata_closed "\<lambda>r. RDataAFSDB_Pack (Some r)" "\<lambda>r. RDataAFSDB_Unpack (Some r)"
  "\<lambda>r. RDataAFSDB_Len (Some r)" RDataAFSDB_zero RDataAFSDB_wf RDataAFSDB_enc RDataAFSDB_canon
proof unfold_locales
  fix r :: RDataAFSDB and buf buf' :: bytes and off n :: nat
  assume "RDataAFSDB_wf r" "off \<le> length buf"
  then show "RDataAFSDB_Pack (Some r) buf off = Inr (n, buf') \<longleftrightarrow>
      n = length (RDataAFSDB_enc r) \<and> off + n \<le> length buf \<and> buf' = put_at buf off (RDataAFSDB_enc r)"
    by (auto simp: RDataAFSDB_defs and_then_Inr pack_name_iff codec_simps)
next
  fix r :: RDataAFSDB and buf :: bytes and off :: nat and rdlength :: uint16
  assume "RDataAFSDB_wf r" "holds buf off (RDataAFSDB_enc r)" "unat rdlength = length (RDataAFSDB_enc r)"
  then show "RDataAFSDB_Unpack (Some RDataAFSDB_zero) buf off rdlength =
      Inr (length (RDataAFSDB_enc r), RDataAFSDB_canon r)"
    using holds_fits [of buf off "RDataAFSDB_enc r"]
    by (auto simp: RDataAFSDB_defs unpack_name_enc holds_be16 holds_be32)
qed (auto simp: RDataAFSDB_defs and_then_Inr split: if_splits option.splits dest: unpack_name_ok)

subsection \<open>KX\<close>

record RDataKX =
  kx_Preference :: uint16
  kx_Exchanger :: "name option"

definition RDataKX_Pack :: "RDataKX option \<Rightarrow> bytes \<Rightarrow> nat \<Rightarrow> (nat \<times> bytes) result" where
  "RDataKX_Pack ro buf start =
     (case ro of None \<Rightarrow> Inl (Errorf ''nil KX record'')
      | Some r \<Rightarrow>
          if start + 2 > length buf then Inl ErrBufferTooSmall
          else
            let buf = PutUint16_at buf start (kx_Preference r);
                off = start + 2
            in and_then (pack_name (kx_Exchanger r) buf off) (\<lambda>(n, buf). Inr (off + n - start, buf)))"

definition RDataKX_Unpack ::
  "RDataKX option \<Rightarrow> bytes \<Rightarrow> nat \<Rightarrow> uint16 \<Rightarrow> (nat \<times> RDataKX) result"
where
  "RDataKX_Unpack ro buf start rdlength =
     (case ro of None \<Rightarrow> Inl (Errorf ''nil KX record'')
      | Some r \<Rightarrow>
          let endOffset = start + unat rdlength in
          if endOffset > length buf then Inl ErrBufferTooSmall
          else if start + 2 > endOffset then Inl ErrBufferTooSmall
          else
            let r = r\<lparr>kx_Preference := Uint16 (drop start buf)\<rparr>; off = start + 2 in
            and_then (unpack_name buf off) (\<lambda>(exchanger, n).
            let off = off + n in
            if off \<noteq> endOffset then Inl (Errorf ''KX RDATA length mismatch'')
            else Inr (off - start, r\<lparr>kx_Exchanger := Some exchanger\<rparr>)))"

definition RDataKX_Len :: "RDataKX option \<Rightarrow> nat" where
  "RDataKX_Len ro = (case ro of None \<Rightarrow> 0 | Some r \<Rightarrow> 2 + WireLength (kx_Exchanger r))"

definition RDataKX_zero :: RDataKX where "RDataKX_zero = \<lparr>kx_Preference = 0, kx_Exchanger = None\<rparr>"

definition RDataKX_wf :: "RDataKX \<Rightarrow> bool" where "RDataKX_wf r \<longleftrightarrow> wf_oname (kx_Exchanger r)"

definition RDataKX_enc :: "RDataKX \<Rightarrow> bytes" where
  "RDataKX_enc r = be16 (kx_Preference r) @ enc_name (kx_Exchanger r)"

definition RDataKX_canon :: "RDataKX \<Rightarrow> RDataKX" where
  "RDataKX_canon r = r\<lparr>kx_Exchanger := canon_name (kx_Exchanger r)\<rparr>"

lemmas RDataKX_defs = RDataKX_Pack_def RDataKX_Unpack_def RDataKX_Len_def RDataKX_zero_def
  RDataKX_wf_def RDataKX_enc_def RDataKX_canon_def Let_def

interpretation KX: rdata_closed "\<lambda>r. RDataKX_Pack (Some r)" "\<lambda>r. RDataKX_Unpack (Some r)"
  "\<lambda>r. RDataKX_Len (Some r)" RDataKX_zero RDataKX_wf RDataKX_enc RDataKX_canon
proof unfold_locales
  fix r :: RDataKX and buf buf' :: bytes and off n :: nat
  assume "RDataKX_wf r" "off \<le> length buf"
  then show "RDataKX_Pack (Some r) buf off = Inr (n, buf') \<longleftrightarrow>
      n = length (RDataKX_enc r) \<and> off + n \<le> length buf \<and> buf' = put_at buf off (RDataKX_enc r)"
    by (auto simp: RDataKX_defs and_then_Inr pack_name_iff codec_simps)
next
  fix r :: RDataKX and buf :: bytes and off :: nat and rdlength :: uint16
  assume "RDataKX_wf r" "holds buf off (RDataKX_enc r)" "unat rdlength = length (RDataKX_enc r)"
  then show "RDataKX_Unpack (Some RDataKX_zero) buf off rdlength =
      Inr (length (RDataKX_enc r), RDataKX_canon r)"
    using holds_fits [of buf off "RDataKX_enc r"]
    by (auto simp: RDataKX_defs unpack_name_enc holds_be16 holds_be32)
qed (auto simp: RDataKX_defs and_then_Inr split: if_splits option.splits dest: unpack_name_ok)

subsection \<open>URI\<close>

record RDataURI =
  uri_Priority :: uint16
  uri_Weight :: uint16
  uri_Target :: bytes

definition RDataURI_Pack :: "RDataURI option \<Rightarrow> bytes \<Rightarrow> nat \<Rightarrow> (nat \<times> bytes) result" where
  "RDataURI_Pack ro buf start =
     (case ro of None \<Rightarrow> Inl (Errorf ''nil URI record'')
      | Some r \<Rightarrow>
          if start + 4 > length buf then Inl ErrBufferTooSmall
          else
            let buf = PutUint16_at buf start (uri_Priority r);
                off = start + 2;
                buf = PutUint16_at buf off (uri_Weight r);
                off = off + 2;
                targetLen = length (uri_Target r)
            in if targetLen > 255 then Inl ErrLabelTooLong
               else if off + 1 + targetLen > length buf then Inl ErrBufferTooSmall
               else
                 let buf = put_at buf off [bytes_of targetLen];
                     off = off + 1;
                     buf = put_at buf off (uri_Target r);
                     off = off + targetLen
                 in Inr (off - start, buf))"

definition RDataURI_Unpack ::
  "RDataURI option \<Rightarrow> bytes \<Rightarrow> nat \<Rightarrow> uint16 \<Rightarrow> (nat \<times> RDataURI) result"
where
  "RDataURI_Unpack ro buf start rdlength =
     (case ro of None \<Rightarrow> Inl (Errorf ''nil URI record'')
      | Some r \<Rightarrow>
          let endOffset = start + unat rdlength in
          if endOffset > length buf then Inl ErrBufferTooSmall
          else if start + 5 > endOffset then Inl ErrBufferTooSmall
          else
            let off = start + 2 + 2; targetLen = unat (buf ! off); off = off + 1 in
            if off + targetLen > endOffset then Inl ErrBufferTooSmall
            else if off + targetLen \<noteq> endOffset then Inl (Errorf ''URI RDATA length mismatch'')
            else Inr (off + targetLen - start,
                   \<lparr>uri_Priority = Uint16 (drop start buf), uri_Weight = Uint16 (drop (start + 2) buf),
                    uri_Target = subslice buf off targetLen\<rparr>))"

definition RDataURI_Len :: "RDataURI option \<Rightarrow> nat" where
  "RDataURI_Len ro = (case ro of None \<Rightarrow> 0 | Some r \<Rightarrow> 2 + 2 + 1 + length (uri_Target r))"

definition RDataURI_zero :: RDataURI where
  "RDataURI_zero = \<lparr>uri_Priority = 0, uri_Weight = 0, uri_Target = []\<rparr>"

definition RDataURI_wf :: "RDataURI \<Rightarrow> bool" where "RDataURI_wf r \<longleftrightarrow> length (uri_Target r) \<le> 255"

definition RDataURI_enc :: "RDataURI \<Rightarrow> bytes" where
  "RDataURI_enc r = be16 (uri_Priority r) @ be16 (uri_Weight r) @ enc_string (uri_Target r)"

lemmas RDataURI_defs = RDataURI_Pack_def RDataURI_Unpack_def RDataURI_Len_def RDataURI_zero_def
  RDataURI_wf_def RDataURI_enc_def enc_string_def Let_def

interpretation URI: rdata_closed "\<lambda>r. RDataURI_Pack (Some r)" "\<lambda>r. RDataURI_Unpack (Some r)"
  "\<lambda>r. RDataURI_Len (Some r)" RDataURI_zero RDataURI_wf RDataURI_enc "\<lambda>r. r"
proof unfold_locales
  fix r :: RDataURI and buf buf' :: bytes and off n :: nat
  assume "RDataURI_wf r" "off \<le> length buf"
  then show "RDataURI_Pack (Some r) buf off = Inr (n, buf') \<longleftrightarrow>
      n = length (RDataURI_enc r) \<and> off + n \<le> length buf \<and> buf' = put_at buf off (RDataURI_enc r)"
    by (auto simp: RDataURI_defs and_then_Inr pack_name_iff codec_simps)
next
  fix r :: RDataURI and buf :: bytes and off :: nat and rdlength :: uint16
  assume "RDataURI_wf r" "holds buf off (RDataURI_enc r)" "unat rdlength = length (RDataURI_enc r)"
  then show "RDataURI_Unpack (Some RDataURI_zero) buf off rdlength =
      Inr (length (RDataURI_enc r), r)"
    using holds_fits [of buf off "RDataURI_enc r"]
    by (auto simp: RDataURI_defs unpack_name_enc holds_be16 holds_be32 holds_subslice_eq)
qed (auto simp: RDataURI_defs subslice_def min_le_iff_disj split: if_splits option.splits dest: unpack_name_ok)

subsection \<open>NAPTR\<close>

record RDataNAPTR =
  naptr_Order :: uint16
  naptr_Preference :: uint16
  naptr_Flags :: bytes
  naptr_Service :: bytes
  naptr_Regexp :: bytes
  naptr_Replacement :: "name option"

text \<open>The three strings are packed and unpacked by the statements of the character string helpers,
  written out in the source.\<close>

definition RDataNAPTR_Pack :: "RDataNAPTR option \<Rightarrow> bytes \<Rightarrow> nat \<Rightarrow> (nat \<times> bytes) result" where
  "RDataNAPTR_Pack ro buf start =
     (case ro of None \<Rightarrow> Inl (Errorf ''nil NAPTR record'')
      | Some r \<Rightarrow>
          if start + 2 > length buf then Inl ErrBufferTooSmall
          else
            let buf = PutUint16_at buf start (naptr_Order r); off = start + 2 in
            if off + 2 > length buf then Inl ErrBufferTooSmall
            else
              let buf = PutUint16_at buf off (naptr_Preference r); off = off + 2 in
              and_then (packCharacterString buf off (naptr_Flags r)) (\<lambda>(n, buf).
              let off = off + n in
              and_then (packCharacterString buf off (naptr_Service r)) (\<lambda>(n, buf).
              let off = off + n in
              and_then (packCharacterString buf off (naptr_Regexp r)) (\<lambda>(n, buf).
              let off = off + n in
              and_then (pack_name (naptr_Replacement r) buf off) (\<lambda>(n, buf).
              Inr (off + n - start, buf))))))"

definition RDataNAPTR_Unpack ::
  "RDataNAPTR option \<Rightarrow> bytes \<Rightarrow> nat \<Rightarrow> uint16 \<Rightarrow> (nat \<times> RDataNAPTR) result"
where
  "RDataNAPTR_Unpack ro buf start rdlength =
     (case ro of None \<Rightarrow> Inl (Errorf ''nil NAPTR record'')
      | Some r \<Rightarrow>
          let endOffset = start + unat rdlength in
          if endOffset > length buf then Inl ErrBufferTooSmall
          else if start + 2 > endOffset then Inl ErrBufferTooSmall
          else
            let off = start + 2 in
            if off + 2 > endOffset then Inl ErrBufferTooSmall
            else
              let off = off + 2 in
              and_then (unpackCharacterString buf off endOffset) (\<lambda>(flags, n).
              let off = off + n in
              and_then (unpackCharacterString buf off endOffset) (\<lambda>(service, n).
              let off = off + n in
              and_then (unpackCharacterString buf off endOffset) (\<lambda>(regexp, n).
              let off = off + n in
              and_then (unpack_name buf off) (\<lambda>(replacement, n).
              let off = off + n in
              if off \<noteq> endOffset then Inl (Errorf ''NAPTR RDATA length mismatch'')
              else Inr (off - start,
                     \<lparr>naptr_Order = Uint16 (drop start buf),
                      naptr_Preference = Uint16 (drop (start + 2) buf), naptr_Flags = flags,
                      naptr_Service = service, naptr_Regexp = regexp,
                      naptr_Replacement = Some replacement\<rparr>))))))"

definition RDataNAPTR_Len :: "RDataNAPTR option \<Rightarrow> nat" where
  "RDataNAPTR_Len ro =
     (case ro of None \<Rightarrow> 0
      | Some r \<Rightarrow>
          2 + 2 + 1 + length (naptr_Flags r) + 1 + length (naptr_Service r) + 1 + length (naptr_Regexp r) +
          (case naptr_Replacement r of None \<Rightarrow> 0 | Some n \<Rightarrow> WireLength (Some n)))"

definition RDataNAPTR_zero :: RDataNAPTR where
  "RDataNAPTR_zero =
     \<lparr>naptr_Order = 0, naptr_Preference = 0, naptr_Flags = [], naptr_Service = [], naptr_Regexp = [],
      naptr_Replacement = None\<rparr>"

text \<open>An absent replacement is packed as the root name, one octet \<open>RDataNAPTR_Len\<close> does not count; the
  well-formed values have one.\<close>

definition RDataNAPTR_wf :: "RDataNAPTR \<Rightarrow> bool" where
  "RDataNAPTR_wf r \<longleftrightarrow>
     length (naptr_Flags r) \<le> 255 \<and> length (naptr_Service r) \<le> 255 \<and> length (naptr_Regexp r) \<le> 255 \<and>
     naptr_Replacement r \<noteq> None \<and> wf_oname (naptr_Replacement r)"

definition RDataNAPTR_enc :: "RDataNAPTR \<Rightarrow> bytes" where
  "RDataNAPTR_enc r =
     be16 (naptr_Order r) @ be16 (naptr_Preference r) @ enc_string (naptr_Flags r) @
     enc_string (naptr_Service r) @ enc_string (naptr_Regexp r) @ enc_name (naptr_Replacement r)"

definition RDataNAPTR_canon :: "RDataNAPTR \<Rightarrow> RDataNAPTR" where
  "RDataNAPTR_canon r = r\<lparr>naptr_Replacement := canon_name (naptr_Replacement r)\<rparr>"

lemmas RDataNAPTR_defs = RDataNAPTR_Pack_def RDataNAPTR_Unpack_def RDataNAPTR_Len_def RDataNAPTR_zero_def
  RDataNAPTR_wf_def RDataNAPTR_enc_def RDataNAPTR_canon_def Let_def

interpretation NAPTR: rdata_closed "\<lambda>r. RDataNAPTR_Pack (Some r)" "\<lambda>r. RDataNAPTR_Unpack (Some r)"
  "\<lambda>r. RDataNAPTR_Len (Some r)" RDataNAPTR_zero RDataNAPTR_wf RDataNAPTR_enc RDataNAPTR_canon
proof unfold_locales
  fix r :: RDataNAPTR and buf buf' :: bytes and off n :: nat
  assume "RDataNAPTR_wf r" "off \<le> length buf"
  then show "RDataNAPTR_Pack (Some r) buf off = Inr (n, buf') \<longleftrightarrow>
      n = length (RDataNAPTR_enc r) \<and> off + n \<le> length buf \<and> buf' = put_at buf off (RDataNAPTR_enc r)"
    by (auto simp: RDataNAPTR_defs and_then_Inr pack_name_iff codec_simps packCharacterString_iff)
next
  fix r :: RDataNAPTR and buf :: bytes and off :: nat and rdlength :: uint16
  assume "RDataNAPTR_wf r" "holds buf off (RDataNAPTR_enc r)" "unat rdlength = length (RDataNAPTR_enc r)"
  then show "RDataNAPTR_Unpack (Some RDataNAPTR_zero) buf off rdlength =
      Inr (length (RDataNAPTR_enc r), RDataNAPTR_canon r)"
    using holds_fits [of buf off "RDataNAPTR_enc r"]
    by (auto simp: RDataNAPTR_defs unpack_name_enc holds_be16 holds_be32 unpackCharacterString_enc)
qed (auto simp: RDataNAPTR_defs and_then_Inr split: if_splits option.splits dest: unpack_name_ok unpackCharacterString_ok)

lemma NAPTR_Len_nil:
  "RDataNAPTR_Len (Some RDataNAPTR_zero) = 7 \<and>
   (\<exists>buf. RDataNAPTR_Pack (Some RDataNAPTR_zero) (replicate 8 0) 0 = Inr (8, buf))"
  by (simp add: RDataNAPTR_defs packCharacterString_def pack_name_def PackName_def codec_simps)

end
