(* ===== verification/RDataSecurity.thy ===== *)
theory RDataSecurity
  imports RDataMail
begin

text \<open>
  Record data for keys and certificates, \<^verbatim>\<open>internal/protocol/types_security.go\<close>: CAA, IPSECKEY, HIP,
  CERT, OPENPGPKEY, DHCID, SSHFP and TLSA, and ZONEMD of \<^verbatim>\<open>internal/protocol/types_zonemd.go\<close>.
\<close>

subsection \<open>CAA\<close>

record RDataCAA =
  caa_Flags :: byte
  caa_Tag :: bytes
  caa_Value :: bytes

definition RDataCAA_Pack :: "RDataCAA option \<Rightarrow> bytes \<Rightarrow> nat \<Rightarrow> (nat \<times> bytes) result" where
  "RDataCAA_Pack ro buf start =
     (case ro of None \<Rightarrow> Inl (Errorf ''nil CAA record'')
      | Some r \<Rightarrow>
          if start + 1 > length buf then Inl ErrBufferTooSmall
          else
            let buf = put_at buf start [caa_Flags r];
                off = start + 1;
                tagLen = length (caa_Tag r)
            in if tagLen > 255 then Inl ErrLabelTooLong
               else if off + 1 + tagLen > length buf then Inl ErrBufferTooSmall
               else
                 let buf = put_at buf off [bytes_of tagLen];
                     off = off + 1;
                     buf = put_at buf off (caa_Tag r);
                     off = off + tagLen;
                     valueLen = length (caa_Value r)
                 in if off + valueLen > length buf then Inl ErrBufferTooSmall
                    else Inr (off + valueLen - start, put_at buf off (caa_Value r)))"

definition RDataCAA_Unpack ::
  "RDataCAA option \<Rightarrow> bytes \<Rightarrow> nat \<Rightarrow> uint16 \<Rightarrow> (nat \<times> RDataCAA) result"
where
  "RDataCAA_Unpack ro buf start rdlength =
     (case ro of None \<Rightarrow> Inl (Errorf ''nil CAA record'')
      | Some r \<Rightarrow>
          let endOffset = start + unat rdlength in
          if endOffset > length buf then Inl ErrBufferTooSmall
          else if start + 2 > endOffset then Inl ErrBufferTooSmall
          else
            let flags = buf ! start; off = start + 1; tagLen = unat (buf ! off); off = off + 1 in
            if off + tagLen > endOffset then Inl ErrBufferTooSmall
            else Inr (endOffset - start,
                   \<lparr>caa_Flags = flags, caa_Tag = subslice buf off tagLen,
                    caa_Value = subslice buf (off + tagLen) (endOffset - (off + tagLen))\<rparr>))"

definition RDataCAA_Len :: "RDataCAA option \<Rightarrow> nat" where
  "RDataCAA_Len ro =
     (case ro of None \<Rightarrow> 0 | Some r \<Rightarrow> 1 + 1 + length (caa_Tag r) + length (caa_Value r))"

definition RDataCAA_zero :: RDataCAA where
  "RDataCAA_zero = \<lparr>caa_Flags = 0, caa_Tag = [], caa_Value = []\<rparr>"

definition RDataCAA_wf :: "RDataCAA \<Rightarrow> bool" where "RDataCAA_wf r \<longleftrightarrow> length (caa_Tag r) \<le> 255"

definition RDataCAA_enc :: "RDataCAA \<Rightarrow> bytes" where
  "RDataCAA_enc r = [caa_Flags r] @ enc_string (caa_Tag r) @ caa_Value r"

lemmas RDataCAA_defs = RDataCAA_Pack_def RDataCAA_Unpack_def RDataCAA_Len_def RDataCAA_zero_def
  RDataCAA_wf_def RDataCAA_enc_def enc_string_def Let_def

interpretation CAA: rdata_closed "\<lambda>r. RDataCAA_Pack (Some r)" "\<lambda>r. RDataCAA_Unpack (Some r)"
  "\<lambda>r. RDataCAA_Len (Some r)" RDataCAA_zero RDataCAA_wf RDataCAA_enc "\<lambda>r. r"
proof unfold_locales
  fix r :: RDataCAA and buf buf' :: bytes and off n :: nat
  assume "RDataCAA_wf r" "off \<le> length buf"
  then show "RDataCAA_Pack (Some r) buf off = Inr (n, buf') \<longleftrightarrow>
      n = length (RDataCAA_enc r) \<and> off + n \<le> length buf \<and> buf' = put_at buf off (RDataCAA_enc r)"
    by (auto simp: RDataCAA_defs and_then_Inr pack_name_iff codec_simps)
next
  fix r :: RDataCAA and buf :: bytes and off :: nat and rdlength :: uint16
  assume "RDataCAA_wf r" "holds buf off (RDataCAA_enc r)" "unat rdlength = length (RDataCAA_enc r)"
  then show "RDataCAA_Unpack (Some RDataCAA_zero) buf off rdlength =
      Inr (length (RDataCAA_enc r), r)"
    using holds_fits [of buf off "RDataCAA_enc r"]
    by (auto simp: RDataCAA_defs unpack_name_enc holds_be16 holds_be32 holds_subslice_eq)
qed (auto simp: RDataCAA_defs and_then_Inr subslice_def min_le_iff_disj split: if_splits option.splits dest: unpack_name_ok)

subsection \<open>IPSECKEY\<close>

record RDataIPSECKEY =
  ipsec_Precedence :: byte
  ipsec_GatewayType :: byte
  ipsec_Algorithm :: byte
  ipsec_Gateway :: bytes
  ipsec_GatewayName :: "name option"
  ipsec_PublicKey :: bytes

definition pack_gateway :: "RDataIPSECKEY \<Rightarrow> bytes \<Rightarrow> nat \<Rightarrow> (nat \<times> bytes) result" where
  "pack_gateway r buf off =
     (if ipsec_GatewayType r = 0 then Inr (0, buf)
      else if ipsec_GatewayType r = 1 then
        if length (ipsec_Gateway r) \<noteq> 4 then Inl (Errorf ''IPSECKEY IPv4 gateway length'')
        else if off + 4 > length buf then Inl ErrBufferTooSmall
        else Inr (4, put_at buf off (ipsec_Gateway r))
      else if ipsec_GatewayType r = 2 then
        if length (ipsec_Gateway r) \<noteq> 16 then Inl (Errorf ''IPSECKEY IPv6 gateway length'')
        else if off + 16 > length buf then Inl ErrBufferTooSmall
        else Inr (16, put_at buf off (ipsec_Gateway r))
      else if ipsec_GatewayType r = 3 then pack_name (ipsec_GatewayName r) buf off
      else Inl (Errorf ''unsupported IPSECKEY gateway type''))"

definition RDataIPSECKEY_Pack :: "RDataIPSECKEY option \<Rightarrow> bytes \<Rightarrow> nat \<Rightarrow> (nat \<times> bytes) result" where
  "RDataIPSECKEY_Pack ro buf start =
     (case ro of None \<Rightarrow> Inl (Errorf ''nil IPSECKEY record'')
      | Some r \<Rightarrow>
          if start + 3 > length buf then Inl ErrBufferTooSmall
          else
            let buf = put_at buf start [ipsec_Precedence r];
                off = start + 1;
                buf = put_at buf off [ipsec_GatewayType r];
                off = off + 1;
                buf = put_at buf off [ipsec_Algorithm r];
                off = off + 1
            in and_then (pack_gateway r buf off) (\<lambda>(n, buf).
               let off = off + n in
               if off + length (ipsec_PublicKey r) > length buf then Inl ErrBufferTooSmall
               else Inr (off + length (ipsec_PublicKey r) - start, put_at buf off (ipsec_PublicKey r))))"

definition unpack_gateway ::
  "byte \<Rightarrow> bytes \<Rightarrow> nat \<Rightarrow> nat \<Rightarrow> (bytes \<times> name option \<times> nat) result"
where
  "unpack_gateway ty buf off endOffset =
     (if ty = 0 then Inr ([], None, 0)
      else if ty = 1 then
        if off + 4 > endOffset then Inl ErrBufferTooSmall else Inr (subslice buf off 4, None, 4)
      else if ty = 2 then
        if off + 16 > endOffset then Inl ErrBufferTooSmall else Inr (subslice buf off 16, None, 16)
      else if ty = 3 then
        and_then (unpack_name buf off) (\<lambda>(name, n). Inr ([], Some name, n))
      else Inl (Errorf ''unsupported IPSECKEY gateway type''))"

definition RDataIPSECKEY_Unpack ::
  "RDataIPSECKEY option \<Rightarrow> bytes \<Rightarrow> nat \<Rightarrow> uint16 \<Rightarrow> (nat \<times> RDataIPSECKEY) result"
where
  "RDataIPSECKEY_Unpack ro buf start rdlength =
     (case ro of None \<Rightarrow> Inl (Errorf ''nil IPSECKEY record'')
      | Some r \<Rightarrow>
          let endOffset = start + unat rdlength in
          if endOffset > length buf then Inl ErrBufferTooSmall
          else if start + 3 > endOffset then Inl ErrBufferTooSmall
          else
            let precedence = buf ! start; off = start + 1; gatewayType = buf ! off; off = off + 1;
                algorithm = buf ! off; off = off + 1
            in and_then (unpack_gateway gatewayType buf off endOffset) (\<lambda>(gateway, gatewayName, n).
               let off = off + n in
               if off > endOffset then Inl ErrBufferTooSmall
               else Inr (endOffset - start,
                      \<lparr>ipsec_Precedence = precedence, ipsec_GatewayType = gatewayType,
                       ipsec_Algorithm = algorithm, ipsec_Gateway = gateway,
                       ipsec_GatewayName = gatewayName,
                       ipsec_PublicKey = subslice buf off (endOffset - off)\<rparr>)))"

definition RDataIPSECKEY_Len :: "RDataIPSECKEY option \<Rightarrow> nat" where
  "RDataIPSECKEY_Len ro =
     (case ro of None \<Rightarrow> 0
      | Some r \<Rightarrow>
          3 + length (ipsec_PublicKey r) +
          (if ipsec_GatewayType r = 1 then 4
           else if ipsec_GatewayType r = 2 then 16
           else if ipsec_GatewayType r = 3 then WireLength (ipsec_GatewayName r)
           else 0))"

definition RDataIPSECKEY_zero :: RDataIPSECKEY where
  "RDataIPSECKEY_zero =
     \<lparr>ipsec_Precedence = 0, ipsec_GatewayType = 0, ipsec_Algorithm = 0, ipsec_Gateway = [],
      ipsec_GatewayName = None, ipsec_PublicKey = []\<rparr>"

definition RDataIPSECKEY_wf :: "RDataIPSECKEY \<Rightarrow> bool" where
  "RDataIPSECKEY_wf r \<longleftrightarrow>
     ipsec_GatewayType r = 0 \<or>
     ipsec_GatewayType r = 1 \<and> length (ipsec_Gateway r) = 4 \<or>
     ipsec_GatewayType r = 2 \<and> length (ipsec_Gateway r) = 16 \<or>
     ipsec_GatewayType r = 3 \<and> wf_oname (ipsec_GatewayName r)"

definition enc_gateway :: "RDataIPSECKEY \<Rightarrow> bytes" where
  "enc_gateway r =
     (if ipsec_GatewayType r = 1 \<or> ipsec_GatewayType r = 2 then ipsec_Gateway r
      else if ipsec_GatewayType r = 3 then enc_name (ipsec_GatewayName r)
      else [])"

definition RDataIPSECKEY_enc :: "RDataIPSECKEY \<Rightarrow> bytes" where
  "RDataIPSECKEY_enc r =
     [ipsec_Precedence r] @ [ipsec_GatewayType r] @ [ipsec_Algorithm r] @ enc_gateway r @
     ipsec_PublicKey r"

definition RDataIPSECKEY_canon :: "RDataIPSECKEY \<Rightarrow> RDataIPSECKEY" where
  "RDataIPSECKEY_canon r =
     r\<lparr>ipsec_Gateway := (if ipsec_GatewayType r = 1 \<or> ipsec_GatewayType r = 2 then ipsec_Gateway r else []),
       ipsec_GatewayName := (if ipsec_GatewayType r = 3 then canon_name (ipsec_GatewayName r) else None)\<rparr>"

lemma pack_gateway_iff:
  "RDataIPSECKEY_wf r \<Longrightarrow> off \<le> length buf \<Longrightarrow>
   pack_gateway r buf off = Inr (n, buf') \<longleftrightarrow>
     n = length (enc_gateway r) \<and> off + n \<le> length buf \<and> buf' = put_at buf off (enc_gateway r)"
  by (auto simp: RDataIPSECKEY_wf_def pack_gateway_def enc_gateway_def pack_name_iff)

lemma unpack_gateway_enc:
  "holds buf off (enc_gateway r) \<Longrightarrow> RDataIPSECKEY_wf r \<Longrightarrow> off + length (enc_gateway r) \<le> endOffset \<Longrightarrow>
   unpack_gateway (ipsec_GatewayType r) buf off endOffset =
     Inr (ipsec_Gateway (RDataIPSECKEY_canon r), ipsec_GatewayName (RDataIPSECKEY_canon r),
          length (enc_gateway r))"
  by (auto simp: RDataIPSECKEY_wf_def unpack_gateway_def enc_gateway_def RDataIPSECKEY_canon_def
      unpack_name_enc holds_subslice_eq)

lemma unpack_gateway_ok:
  assumes "unpack_gateway ty buf off endOffset = Inr (gateway, gatewayName, n)" "endOffset \<le> length buf"
  shows "ty = 0 \<or> ty = 1 \<and> length gateway = 4 \<or> ty = 2 \<and> length gateway = 16 \<or>
    ty = 3 \<and> wf_oname gatewayName"
  using assms by (auto simp: unpack_gateway_def and_then_Inr split: if_splits dest: unpack_name_ok)

lemmas RDataIPSECKEY_defs = RDataIPSECKEY_Pack_def RDataIPSECKEY_Unpack_def RDataIPSECKEY_Len_def
  RDataIPSECKEY_zero_def RDataIPSECKEY_enc_def Let_def

interpretation IPSECKEY: rdata_closed "\<lambda>r. RDataIPSECKEY_Pack (Some r)"
  "\<lambda>r. RDataIPSECKEY_Unpack (Some r)" "\<lambda>r. RDataIPSECKEY_Len (Some r)" RDataIPSECKEY_zero
  RDataIPSECKEY_wf RDataIPSECKEY_enc RDataIPSECKEY_canon
proof unfold_locales
  fix r :: RDataIPSECKEY and buf buf' :: bytes and off n :: nat
  assume "RDataIPSECKEY_wf r" "off \<le> length buf"
  then show "RDataIPSECKEY_Pack (Some r) buf off = Inr (n, buf') \<longleftrightarrow>
      n = length (RDataIPSECKEY_enc r) \<and> off + n \<le> length buf \<and> buf' = put_at buf off (RDataIPSECKEY_enc r)"
    by (auto simp: RDataIPSECKEY_defs and_then_Inr pack_gateway_iff codec_simps)
next
  fix r :: RDataIPSECKEY and buf :: bytes and off :: nat and rdlength :: uint16
  assume "RDataIPSECKEY_wf r" "holds buf off (RDataIPSECKEY_enc r)"
    "unat rdlength = length (RDataIPSECKEY_enc r)"
  then show "RDataIPSECKEY_Unpack (Some RDataIPSECKEY_zero) buf off rdlength =
      Inr (length (RDataIPSECKEY_enc r), RDataIPSECKEY_canon r)"
    using holds_fits [of buf off "RDataIPSECKEY_enc r"]
    by (auto simp: RDataIPSECKEY_defs unpack_gateway_enc holds_subslice_eq RDataIPSECKEY_canon_def)
next
  fix buf :: bytes and off n :: nat and rdlength :: uint16 and r :: RDataIPSECKEY
  assume "RDataIPSECKEY_Unpack (Some RDataIPSECKEY_zero) buf off rdlength = Inr (n, r)"
  then show "RDataIPSECKEY_wf r"
    by (auto simp: RDataIPSECKEY_defs RDataIPSECKEY_wf_def and_then_Inr split: if_splits
        dest!: unpack_gateway_ok)
qed (auto simp: RDataIPSECKEY_defs RDataIPSECKEY_wf_def RDataIPSECKEY_canon_def enc_gateway_def and_then_Inr
    split: if_splits)

subsection \<open>HIP\<close>

record RDataHIP =
  hip_HIT :: bytes
  hip_PublicKeyAlgorithm :: byte
  hip_PublicKey :: bytes
  hip_RendezvousServers :: "name option list"

fun RDataHIP_Pack_loop :: "name option list \<Rightarrow> bytes \<Rightarrow> nat \<Rightarrow> (nat \<times> bytes) result" where
  "RDataHIP_Pack_loop [] buf off = Inr (off, buf)"
| "RDataHIP_Pack_loop (None # servers) buf off = RDataHIP_Pack_loop servers buf off"
| "RDataHIP_Pack_loop (Some server # servers) buf off =
     and_then (pack_name (Some server) buf off) (\<lambda>(n, buf). RDataHIP_Pack_loop servers buf (off + n))"

definition RDataHIP_Pack :: "RDataHIP option \<Rightarrow> bytes \<Rightarrow> nat \<Rightarrow> (nat \<times> bytes) result" where
  "RDataHIP_Pack ro buf start =
     (case ro of None \<Rightarrow> Inl (Errorf ''nil HIP record'')
      | Some r \<Rightarrow>
          if length (hip_HIT r) > 255 then Inl (Errorf ''HIP HIT length'')
          else if length (hip_PublicKey r) > 65535 then Inl (Errorf ''HIP public key length'')
          else if start + 4 > length buf then Inl ErrBufferTooSmall
          else
            let buf = put_at buf start [bytes_of (length (hip_HIT r))];
                off = start + 1;
                buf = put_at buf off [hip_PublicKeyAlgorithm r];
                off = off + 1;
                buf = PutUint16_at buf off (of_nat (length (hip_PublicKey r)));
                off = off + 2
            in if off + length (hip_HIT r) + length (hip_PublicKey r) > length buf
               then Inl ErrBufferTooSmall
               else
                 let buf = put_at buf off (hip_HIT r);
                     off = off + length (hip_HIT r);
                     buf = put_at buf off (hip_PublicKey r);
                     off = off + length (hip_PublicKey r)
                 in and_then (RDataHIP_Pack_loop (hip_RendezvousServers r) buf off)
                      (\<lambda>(off, buf). Inr (off - start, buf)))"

function RDataHIP_Unpack_loop ::
  "bytes \<Rightarrow> nat \<Rightarrow> nat \<Rightarrow> name option list \<Rightarrow> (nat \<times> name option list) result"
where
  "RDataHIP_Unpack_loop buf off endOffset servers =
     (if off < endOffset then
        (case unpack_name buf off of
           Inl e \<Rightarrow> Inl e
         | Inr (name, n) \<Rightarrow>
             if off + n > endOffset then Inl ErrBufferTooSmall
             else RDataHIP_Unpack_loop buf (off + n) endOffset (servers @ [Some name]))
      else Inr (off, servers))"
  by pat_completeness auto
termination
  by (relation "measure (\<lambda>(buf, off, endOffset, servers). endOffset - off)")
    (auto dest: unpack_name_ok(2))

declare RDataHIP_Unpack_loop.simps [simp del]

definition RDataHIP_Unpack ::
  "RDataHIP option \<Rightarrow> bytes \<Rightarrow> nat \<Rightarrow> uint16 \<Rightarrow> (nat \<times> RDataHIP) result"
where
  "RDataHIP_Unpack ro buf start rdlength =
     (case ro of None \<Rightarrow> Inl (Errorf ''nil HIP record'')
      | Some r \<Rightarrow>
          let endOffset = start + unat rdlength in
          if endOffset > length buf then Inl ErrBufferTooSmall
          else if start + 4 > endOffset then Inl ErrBufferTooSmall
          else
            let hitLen = unat (buf ! start); off = start + 1; algorithm = buf ! off; off = off + 1;
                publicKeyLen = unat (Uint16 (drop off buf)); off = off + 2
            in if off + hitLen + publicKeyLen > endOffset then Inl ErrBufferTooSmall
               else
                 let hit = subslice buf off hitLen; off = off + hitLen;
                     publicKey = subslice buf off publicKeyLen; off = off + publicKeyLen
                 in and_then (RDataHIP_Unpack_loop buf off endOffset []) (\<lambda>(off, servers).
                    if off \<noteq> endOffset then Inl ErrBufferTooSmall
                    else Inr (off - start,
                           \<lparr>hip_HIT = hit, hip_PublicKeyAlgorithm = algorithm, hip_PublicKey = publicKey,
                            hip_RendezvousServers = servers\<rparr>)))"

definition RDataHIP_Len :: "RDataHIP option \<Rightarrow> nat" where
  "RDataHIP_Len ro =
     (case ro of None \<Rightarrow> 0
      | Some r \<Rightarrow>
          foldl (\<lambda>l server. case server of None \<Rightarrow> l | Some n \<Rightarrow> l + WireLength (Some n))
            (4 + length (hip_HIT r) + length (hip_PublicKey r)) (hip_RendezvousServers r))"

definition RDataHIP_zero :: RDataHIP where
  "RDataHIP_zero =
     \<lparr>hip_HIT = [], hip_PublicKeyAlgorithm = 0, hip_PublicKey = [], hip_RendezvousServers = []\<rparr>"

definition RDataHIP_wf :: "RDataHIP \<Rightarrow> bool" where
  "RDataHIP_wf r \<longleftrightarrow> length (hip_HIT r) \<le> 255 \<and> length (hip_PublicKey r) \<le> 65535 \<and>
     (\<forall>s \<in> set (hip_RendezvousServers r). wf_oname s)"

definition enc_servers :: "name option list \<Rightarrow> bytes" where
  "enc_servers servers = concat (map (\<lambda>s. case s of None \<Rightarrow> [] | Some n \<Rightarrow> enc_name (Some n)) servers)"

definition canon_servers :: "name option list \<Rightarrow> name option list" where
  "canon_servers servers = map canon_name (filter (\<lambda>s. s \<noteq> None) servers)"

definition RDataHIP_enc :: "RDataHIP \<Rightarrow> bytes" where
  "RDataHIP_enc r =
     [bytes_of (length (hip_HIT r))] @ [hip_PublicKeyAlgorithm r] @
     be16 (of_nat (length (hip_PublicKey r))) @ hip_HIT r @ hip_PublicKey r @
     enc_servers (hip_RendezvousServers r)"

definition RDataHIP_canon :: "RDataHIP \<Rightarrow> RDataHIP" where
  "RDataHIP_canon r = r\<lparr>hip_RendezvousServers := canon_servers (hip_RendezvousServers r)\<rparr>"

lemma unat_uint16_le: "unat (v :: uint16) \<le> 65535"
  using unat_uint16_less [of v] by linarith

lemma enc_servers_simps [simp]:
  "enc_servers [] = []" "enc_servers (None # servers) = enc_servers servers"
  "enc_servers (Some n # servers) = enc_name (Some n) @ enc_servers servers"
  by (simp_all add: enc_servers_def)

lemma RDataHIP_Pack_loop_iff:
  "\<forall>s \<in> set servers. wf_oname s \<Longrightarrow> off \<le> length buf \<Longrightarrow>
   RDataHIP_Pack_loop servers buf off = Inr (off', buf') \<longleftrightarrow>
     off' = off + length (enc_servers servers) \<and> off' \<le> length buf \<and>
     buf' = put_at buf off (enc_servers servers)"
proof (induction servers buf off rule: RDataHIP_Pack_loop.induct)
  case (3 server servers buf off)
  show ?case
  proof (cases "off + WireLength (Some server) \<le> length buf")
    case True
    then have *: "pack_name (Some server) buf off =
        Inr (WireLength (Some server), put_at buf off (enc_name (Some server)))"
      using "3.prems" by (simp add: pack_name_iff)
    then show ?thesis
      using "3.IH" [of "WireLength (Some server)" "put_at buf off (enc_name (Some server))"] "3.prems" True
      by (auto simp: put_at_put_at add.assoc)
  next
    case False
    then show ?thesis
      using "3.prems" by (auto simp: and_then_Inr pack_name_iff)
  qed
qed auto

lemma RDataHIP_Unpack_loop_enc:
  "holds buf off (enc_servers servers) \<Longrightarrow> \<forall>s \<in> set servers. wf_oname s \<Longrightarrow>
   RDataHIP_Unpack_loop buf off (off + length (enc_servers servers)) acc =
     Inr (off + length (enc_servers servers), acc @ canon_servers servers)"
proof (induction servers arbitrary: off acc)
  case Nil
  then show ?case by (simp add: RDataHIP_Unpack_loop.simps canon_servers_def)
next
  case (Cons s servers)
  show ?case
  proof (cases s)
    case None
    with Cons show ?thesis by (simp add: canon_servers_def)
  next
    case (Some n)
    then have "unpack_name buf off = Inr (Name (enc_name s), WireLength s)" "0 < WireLength s"
      using Cons.prems enc_name_pos [of s] by (simp_all add: unpack_name_enc)
    then show ?thesis
      using Cons Some by (subst RDataHIP_Unpack_loop.simps) (simp add: add.assoc [symmetric] canon_servers_def)
  qed
qed

lemma RDataHIP_Unpack_loop_ok:
  "RDataHIP_Unpack_loop buf off endOffset acc = Inr (off', servers) \<Longrightarrow> off \<le> endOffset \<Longrightarrow>
   \<forall>s \<in> set acc. wf_oname s \<Longrightarrow> off' = endOffset \<and> (\<forall>s \<in> set servers. wf_oname s)"
proof (induction buf off endOffset acc rule: RDataHIP_Unpack_loop.induct)
  case (1 buf off endOffset acc)
  then show ?case
    by (subst (asm) (2) RDataHIP_Unpack_loop.simps)
      (auto split: if_splits sum.splits dest: unpack_name_ok)
qed

lemma enc_canon_servers:
  "\<forall>s \<in> set servers. wf_oname s \<Longrightarrow> enc_servers (canon_servers servers) = enc_servers servers \<and>
   (\<forall>s \<in> set (canon_servers servers). wf_oname s)"
proof (induction servers)
  case (Cons s servers)
  then show ?case by (cases s) (auto simp: canon_servers_def)
qed (simp add: canon_servers_def)

lemmas RDataHIP_defs = RDataHIP_Pack_def RDataHIP_Unpack_def RDataHIP_Len_def RDataHIP_zero_def
  RDataHIP_wf_def RDataHIP_enc_def RDataHIP_canon_def Let_def

interpretation HIP: rdata_closed "\<lambda>r. RDataHIP_Pack (Some r)" "\<lambda>r. RDataHIP_Unpack (Some r)"
  "\<lambda>r. RDataHIP_Len (Some r)" RDataHIP_zero RDataHIP_wf RDataHIP_enc RDataHIP_canon
proof unfold_locales
  fix r :: RDataHIP and buf buf' :: bytes and off n :: nat
  assume "RDataHIP_wf r" "off \<le> length buf"
  then show "RDataHIP_Pack (Some r) buf off = Inr (n, buf') \<longleftrightarrow>
      n = length (RDataHIP_enc r) \<and> off + n \<le> length buf \<and> buf' = put_at buf off (RDataHIP_enc r)"
    by (auto simp: RDataHIP_defs and_then_Inr RDataHIP_Pack_loop_iff codec_simps)
next
  fix r :: RDataHIP
  have "foldl (\<lambda>l server. case server of None \<Rightarrow> l | Some n \<Rightarrow> l + WireLength (Some n)) k xs =
      k + length (enc_servers xs)" for k xs
    by (induction xs arbitrary: k) (simp_all add: enc_servers_def split: option.split)
  then show "RDataHIP_Len (Some r) = length (RDataHIP_enc r)"
    by (simp add: RDataHIP_defs)
next
  fix r :: RDataHIP and buf :: bytes and off :: nat and rdlength :: uint16
  assume wf: "RDataHIP_wf r" and h: "holds buf off (RDataHIP_enc r)"
    and len: "unat rdlength = length (RDataHIP_enc r)"
  let ?s = "Suc (Suc off) + 2 + length (hip_HIT r) + length (hip_PublicKey r)"
  have "RDataHIP_Unpack_loop buf ?s (?s + length (enc_servers (hip_RendezvousServers r))) [] =
      Inr (?s + length (enc_servers (hip_RendezvousServers r)), canon_servers (hip_RendezvousServers r))"
    using RDataHIP_Unpack_loop_enc [of buf ?s "hip_RendezvousServers r" "[]"] h wf
    by (simp add: RDataHIP_enc_def RDataHIP_wf_def)
  with wf h len show "RDataHIP_Unpack (Some RDataHIP_zero) buf off rdlength =
      Inr (length (RDataHIP_enc r), RDataHIP_canon r)"
    using holds_fits [OF h]
    by (auto simp: RDataHIP_defs holds_be16 holds_subslice_eq add.assoc)
qed (auto simp: RDataHIP_defs and_then_Inr subslice_def min_le_iff_disj enc_canon_servers unat_uint16_le
    split: if_splits dest!: RDataHIP_Unpack_loop_ok)

subsection \<open>OPENPGPKEY\<close>

record RDataOPENPGPKEY =
  pgp_PublicKey :: bytes

definition RDataOPENPGPKEY_Pack :: "RDataOPENPGPKEY option \<Rightarrow> bytes \<Rightarrow> nat \<Rightarrow> (nat \<times> bytes) result" where
  "RDataOPENPGPKEY_Pack ro buf off =
     (case ro of None \<Rightarrow> Inl (Errorf ''nil OPENPGPKEY record'')
      | Some r \<Rightarrow>
          if off + length (pgp_PublicKey r) > length buf then Inl ErrBufferTooSmall
          else Inr (length (pgp_PublicKey r), put_at buf off (pgp_PublicKey r)))"

definition RDataOPENPGPKEY_Unpack ::
  "RDataOPENPGPKEY option \<Rightarrow> bytes \<Rightarrow> nat \<Rightarrow> uint16 \<Rightarrow> (nat \<times> RDataOPENPGPKEY) result"
where
  "RDataOPENPGPKEY_Unpack ro buf off rdlength =
     (case ro of None \<Rightarrow> Inl (Errorf ''nil OPENPGPKEY record'')
      | Some r \<Rightarrow>
          if off + unat rdlength > length buf then Inl ErrBufferTooSmall
          else Inr (unat rdlength, r\<lparr>pgp_PublicKey := subslice buf off (unat rdlength)\<rparr>))"

definition RDataOPENPGPKEY_Len :: "RDataOPENPGPKEY option \<Rightarrow> nat" where
  "RDataOPENPGPKEY_Len ro = (case ro of None \<Rightarrow> 0 | Some r \<Rightarrow> length (pgp_PublicKey r))"

definition RDataOPENPGPKEY_zero :: RDataOPENPGPKEY where "RDataOPENPGPKEY_zero = \<lparr>pgp_PublicKey = []\<rparr>"

lemmas RDataOPENPGPKEY_defs = RDataOPENPGPKEY_Pack_def RDataOPENPGPKEY_Unpack_def RDataOPENPGPKEY_Len_def RDataOPENPGPKEY_zero_def

interpretation OPENPGPKEY: rdata_closed "\<lambda>r. RDataOPENPGPKEY_Pack (Some r)" "\<lambda>r. RDataOPENPGPKEY_Unpack (Some r)"
  "\<lambda>r. RDataOPENPGPKEY_Len (Some r)" RDataOPENPGPKEY_zero "\<lambda>r. True" pgp_PublicKey "\<lambda>r. r"
  by unfold_locales (auto simp: RDataOPENPGPKEY_defs holds_subslice_eq split: if_splits dest: holds_fits)

subsection \<open>DHCID\<close>

record RDataDHCID =
  dhcid_Data :: bytes

definition RDataDHCID_Pack :: "RDataDHCID option \<Rightarrow> bytes \<Rightarrow> nat \<Rightarrow> (nat \<times> bytes) result" where
  "RDataDHCID_Pack ro buf off =
     (case ro of None \<Rightarrow> Inl (Errorf ''nil DHCID record'')
      | Some r \<Rightarrow>
          if off + length (dhcid_Data r) > length buf then Inl ErrBufferTooSmall
          else Inr (length (dhcid_Data r), put_at buf off (dhcid_Data r)))"

definition RDataDHCID_Unpack ::
  "RDataDHCID option \<Rightarrow> bytes \<Rightarrow> nat \<Rightarrow> uint16 \<Rightarrow> (nat \<times> RDataDHCID) result"
where
  "RDataDHCID_Unpack ro buf off rdlength =
     (case ro of None \<Rightarrow> Inl (Errorf ''nil DHCID record'')
      | Some r \<Rightarrow>
          if off + unat rdlength > length buf then Inl ErrBufferTooSmall
          else Inr (unat rdlength, r\<lparr>dhcid_Data := subslice buf off (unat rdlength)\<rparr>))"

definition RDataDHCID_Len :: "RDataDHCID option \<Rightarrow> nat" where
  "RDataDHCID_Len ro = (case ro of None \<Rightarrow> 0 | Some r \<Rightarrow> length (dhcid_Data r))"

definition RDataDHCID_zero :: RDataDHCID where "RDataDHCID_zero = \<lparr>dhcid_Data = []\<rparr>"

lemmas RDataDHCID_defs = RDataDHCID_Pack_def RDataDHCID_Unpack_def RDataDHCID_Len_def RDataDHCID_zero_def

interpretation DHCID: rdata_closed "\<lambda>r. RDataDHCID_Pack (Some r)" "\<lambda>r. RDataDHCID_Unpack (Some r)"
  "\<lambda>r. RDataDHCID_Len (Some r)" RDataDHCID_zero "\<lambda>r. True" dhcid_Data "\<lambda>r. r"
  by unfold_locales (auto simp: RDataDHCID_defs holds_subslice_eq split: if_splits dest: holds_fits)

subsection \<open>CERT\<close>

record RDataCERT =
  cert_CertType :: uint16
  cert_KeyTag :: uint16
  cert_Algorithm :: byte
  cert_Certificate :: bytes

definition RDataCERT_Pack :: "RDataCERT option \<Rightarrow> bytes \<Rightarrow> nat \<Rightarrow> (nat \<times> bytes) result" where
  "RDataCERT_Pack ro buf off =
     (case ro of None \<Rightarrow> Inl (Errorf ''nil CERT record'')
      | Some r \<Rightarrow>
          let len = 5 + length (cert_Certificate r) in
          if off + len > length buf then Inl ErrBufferTooSmall
          else
            let buf = PutUint16_at buf off (cert_CertType r);
                off = off + 2;
                buf = PutUint16_at buf off (cert_KeyTag r);
                off = off + 2;
                buf = put_at buf off [cert_Algorithm r];
                off = off + 1;
                buf = put_at buf off (cert_Certificate r)
            in Inr (len, buf))"

definition RDataCERT_Unpack ::
  "RDataCERT option \<Rightarrow> bytes \<Rightarrow> nat \<Rightarrow> uint16 \<Rightarrow> (nat \<times> RDataCERT) result"
where
  "RDataCERT_Unpack ro buf start rdlength =
     (case ro of None \<Rightarrow> Inl (Errorf ''nil CERT record'')
      | Some r \<Rightarrow>
          if unat rdlength < 5 then Inl ErrBufferTooSmall
          else if start + unat rdlength > length buf then Inl ErrBufferTooSmall
          else
            let certLen = unat rdlength - 5; off = start + 2 + 2 in
            Inr (off + 1 + certLen - start,
              \<lparr>cert_CertType = Uint16 (drop start buf), cert_KeyTag = Uint16 (drop (start + 2) buf),
               cert_Algorithm = buf ! off, cert_Certificate = subslice buf (off + 1) certLen\<rparr>))"

definition RDataCERT_Len :: "RDataCERT option \<Rightarrow> nat" where
  "RDataCERT_Len ro = (case ro of None \<Rightarrow> 0 | Some r \<Rightarrow> 5 + length (cert_Certificate r))"

definition RDataCERT_zero :: RDataCERT where
  "RDataCERT_zero = \<lparr>cert_CertType = 0, cert_KeyTag = 0, cert_Algorithm = 0, cert_Certificate = []\<rparr>"

definition RDataCERT_wf :: "RDataCERT \<Rightarrow> bool" where "RDataCERT_wf r \<longleftrightarrow> True"

definition RDataCERT_enc :: "RDataCERT \<Rightarrow> bytes" where
  "RDataCERT_enc r =
     be16 (cert_CertType r) @ be16 (cert_KeyTag r) @ [cert_Algorithm r] @ cert_Certificate r"

lemmas RDataCERT_defs = RDataCERT_Pack_def RDataCERT_Unpack_def RDataCERT_Len_def RDataCERT_zero_def
  RDataCERT_wf_def RDataCERT_enc_def Let_def

interpretation CERT: rdata_closed "\<lambda>r. RDataCERT_Pack (Some r)" "\<lambda>r. RDataCERT_Unpack (Some r)"
  "\<lambda>r. RDataCERT_Len (Some r)" RDataCERT_zero RDataCERT_wf RDataCERT_enc "\<lambda>r. r"
proof unfold_locales
  fix r :: RDataCERT and buf buf' :: bytes and off n :: nat
  assume "RDataCERT_wf r" "off \<le> length buf"
  then show "RDataCERT_Pack (Some r) buf off = Inr (n, buf') \<longleftrightarrow>
      n = length (RDataCERT_enc r) \<and> off + n \<le> length buf \<and> buf' = put_at buf off (RDataCERT_enc r)"
    by (auto simp: RDataCERT_defs and_then_Inr pack_name_iff codec_simps)
next
  fix r :: RDataCERT and buf :: bytes and off :: nat and rdlength :: uint16
  assume "RDataCERT_wf r" "holds buf off (RDataCERT_enc r)" "unat rdlength = length (RDataCERT_enc r)"
  then show "RDataCERT_Unpack (Some RDataCERT_zero) buf off rdlength =
      Inr (length (RDataCERT_enc r), r)"
    using holds_fits [of buf off "RDataCERT_enc r"]
    by (auto simp: RDataCERT_defs unpack_name_enc holds_be16 holds_be32 holds_subslice_eq)
qed (auto simp: RDataCERT_defs and_then_Inr split: if_splits option.splits dest: unpack_name_ok)

subsection \<open>SSHFP\<close>

record RDataSSHFP =
  sshfp_Algorithm :: byte
  sshfp_FPType :: byte
  sshfp_Fingerprint :: bytes

definition RDataSSHFP_Pack :: "RDataSSHFP option \<Rightarrow> bytes \<Rightarrow> nat \<Rightarrow> (nat \<times> bytes) result" where
  "RDataSSHFP_Pack ro buf off =
     (case ro of None \<Rightarrow> Inl (Errorf ''nil SSHFP record'')
      | Some r \<Rightarrow>
          let len = 2 + length (sshfp_Fingerprint r) in
          if off + len > length buf then Inl ErrBufferTooSmall
          else
            let buf = put_at buf off [sshfp_Algorithm r];
                off = off + 1;
                buf = put_at buf off [sshfp_FPType r];
                off = off + 1;
                buf = put_at buf off (sshfp_Fingerprint r)
            in Inr (len, buf))"

definition RDataSSHFP_Unpack ::
  "RDataSSHFP option \<Rightarrow> bytes \<Rightarrow> nat \<Rightarrow> uint16 \<Rightarrow> (nat \<times> RDataSSHFP) result"
where
  "RDataSSHFP_Unpack ro buf start rdlength =
     (case ro of None \<Rightarrow> Inl (Errorf ''nil SSHFP record'')
      | Some r \<Rightarrow>
          if unat rdlength < 2 then Inl ErrBufferTooSmall
          else if start + 2 > length buf then Inl ErrBufferTooSmall
          else
            let off = start + 1 + 1; fpLen = unat rdlength - 2 in
            if off + fpLen > length buf then Inl ErrBufferTooSmall
            else Inr (off + fpLen - start,
                   \<lparr>sshfp_Algorithm = buf ! start, sshfp_FPType = buf ! (start + 1),
                    sshfp_Fingerprint = subslice buf off fpLen\<rparr>))"

definition RDataSSHFP_Len :: "RDataSSHFP option \<Rightarrow> nat" where
  "RDataSSHFP_Len ro = (case ro of None \<Rightarrow> 0 | Some r \<Rightarrow> 2 + length (sshfp_Fingerprint r))"

definition RDataSSHFP_zero :: RDataSSHFP where
  "RDataSSHFP_zero = \<lparr>sshfp_Algorithm = 0, sshfp_FPType = 0, sshfp_Fingerprint = []\<rparr>"

definition RDataSSHFP_wf :: "RDataSSHFP \<Rightarrow> bool" where "RDataSSHFP_wf r \<longleftrightarrow> True"

definition RDataSSHFP_enc :: "RDataSSHFP \<Rightarrow> bytes" where
  "RDataSSHFP_enc r = [sshfp_Algorithm r] @ [sshfp_FPType r] @ sshfp_Fingerprint r"

lemmas RDataSSHFP_defs = RDataSSHFP_Pack_def RDataSSHFP_Unpack_def RDataSSHFP_Len_def RDataSSHFP_zero_def
  RDataSSHFP_wf_def RDataSSHFP_enc_def Let_def

interpretation SSHFP: rdata_closed "\<lambda>r. RDataSSHFP_Pack (Some r)" "\<lambda>r. RDataSSHFP_Unpack (Some r)"
  "\<lambda>r. RDataSSHFP_Len (Some r)" RDataSSHFP_zero RDataSSHFP_wf RDataSSHFP_enc "\<lambda>r. r"
proof unfold_locales
  fix r :: RDataSSHFP and buf buf' :: bytes and off n :: nat
  assume "RDataSSHFP_wf r" "off \<le> length buf"
  then show "RDataSSHFP_Pack (Some r) buf off = Inr (n, buf') \<longleftrightarrow>
      n = length (RDataSSHFP_enc r) \<and> off + n \<le> length buf \<and> buf' = put_at buf off (RDataSSHFP_enc r)"
    by (auto simp: RDataSSHFP_defs and_then_Inr pack_name_iff codec_simps)
next
  fix r :: RDataSSHFP and buf :: bytes and off :: nat and rdlength :: uint16
  assume "RDataSSHFP_wf r" "holds buf off (RDataSSHFP_enc r)" "unat rdlength = length (RDataSSHFP_enc r)"
  then show "RDataSSHFP_Unpack (Some RDataSSHFP_zero) buf off rdlength =
      Inr (length (RDataSSHFP_enc r), r)"
    using holds_fits [of buf off "RDataSSHFP_enc r"]
    by (auto simp: RDataSSHFP_defs unpack_name_enc holds_be16 holds_be32 holds_subslice_eq)
qed (auto simp: RDataSSHFP_defs and_then_Inr split: if_splits option.splits dest: unpack_name_ok)

subsection \<open>TLSA\<close>

record RDataTLSA =
  tlsa_Usage :: byte
  tlsa_Selector :: byte
  tlsa_MatchingType :: byte
  tlsa_Certificate :: bytes

definition RDataTLSA_Pack :: "RDataTLSA option \<Rightarrow> bytes \<Rightarrow> nat \<Rightarrow> (nat \<times> bytes) result" where
  "RDataTLSA_Pack ro buf off =
     (case ro of None \<Rightarrow> Inl (Errorf ''nil TLSA record'')
      | Some r \<Rightarrow>
          let len = 3 + length (tlsa_Certificate r) in
          if off + len > length buf then Inl ErrBufferTooSmall
          else
            let buf = put_at buf off [tlsa_Usage r];
                off = off + 1;
                buf = put_at buf off [tlsa_Selector r];
                off = off + 1;
                buf = put_at buf off [tlsa_MatchingType r];
                off = off + 1;
                buf = put_at buf off (tlsa_Certificate r)
            in Inr (len, buf))"

definition RDataTLSA_Unpack ::
  "RDataTLSA option \<Rightarrow> bytes \<Rightarrow> nat \<Rightarrow> uint16 \<Rightarrow> (nat \<times> RDataTLSA) result"
where
  "RDataTLSA_Unpack ro buf start rdlength =
     (case ro of None \<Rightarrow> Inl (Errorf ''nil TLSA record'')
      | Some r \<Rightarrow>
          if unat rdlength < 3 then Inl ErrBufferTooSmall
          else if start + 3 > length buf then Inl ErrBufferTooSmall
          else
            let off = start + 1 + 1 + 1; certLen = unat rdlength - 3 in
            if off + certLen > length buf then Inl ErrBufferTooSmall
            else Inr (off + certLen - start,
                   \<lparr>tlsa_Usage = buf ! start, tlsa_Selector = buf ! (start + 1),
                    tlsa_MatchingType = buf ! (start + 1 + 1),
                    tlsa_Certificate = subslice buf off certLen\<rparr>))"

definition RDataTLSA_Len :: "RDataTLSA option \<Rightarrow> nat" where
  "RDataTLSA_Len ro = (case ro of None \<Rightarrow> 0 | Some r \<Rightarrow> 3 + length (tlsa_Certificate r))"

definition RDataTLSA_zero :: RDataTLSA where
  "RDataTLSA_zero =
     \<lparr>tlsa_Usage = 0, tlsa_Selector = 0, tlsa_MatchingType = 0, tlsa_Certificate = []\<rparr>"

definition RDataTLSA_wf :: "RDataTLSA \<Rightarrow> bool" where "RDataTLSA_wf r \<longleftrightarrow> True"

definition RDataTLSA_enc :: "RDataTLSA \<Rightarrow> bytes" where
  "RDataTLSA_enc r = [tlsa_Usage r] @ [tlsa_Selector r] @ [tlsa_MatchingType r] @ tlsa_Certificate r"

lemmas RDataTLSA_defs = RDataTLSA_Pack_def RDataTLSA_Unpack_def RDataTLSA_Len_def RDataTLSA_zero_def
  RDataTLSA_wf_def RDataTLSA_enc_def Let_def

interpretation TLSA: rdata_closed "\<lambda>r. RDataTLSA_Pack (Some r)" "\<lambda>r. RDataTLSA_Unpack (Some r)"
  "\<lambda>r. RDataTLSA_Len (Some r)" RDataTLSA_zero RDataTLSA_wf RDataTLSA_enc "\<lambda>r. r"
proof unfold_locales
  fix r :: RDataTLSA and buf buf' :: bytes and off n :: nat
  assume "RDataTLSA_wf r" "off \<le> length buf"
  then show "RDataTLSA_Pack (Some r) buf off = Inr (n, buf') \<longleftrightarrow>
      n = length (RDataTLSA_enc r) \<and> off + n \<le> length buf \<and> buf' = put_at buf off (RDataTLSA_enc r)"
    by (auto simp: RDataTLSA_defs and_then_Inr pack_name_iff codec_simps)
next
  fix r :: RDataTLSA and buf :: bytes and off :: nat and rdlength :: uint16
  assume "RDataTLSA_wf r" "holds buf off (RDataTLSA_enc r)" "unat rdlength = length (RDataTLSA_enc r)"
  then show "RDataTLSA_Unpack (Some RDataTLSA_zero) buf off rdlength =
      Inr (length (RDataTLSA_enc r), r)"
    using holds_fits [of buf off "RDataTLSA_enc r"]
    by (auto simp: RDataTLSA_defs unpack_name_enc holds_be16 holds_be32 holds_subslice_eq)
qed (auto simp: RDataTLSA_defs and_then_Inr split: if_splits option.splits dest: unpack_name_ok)

subsection \<open>ZONEMD\<close>

record RDataZONEMD =
  zonemd_Serial :: uint32
  zonemd_Scheme :: byte
  zonemd_Algorithm :: byte
  zonemd_Digest :: bytes

lemma offsets_2_4: "(2 :: nat) = Suc (Suc 0)" "(3 :: nat) = Suc (Suc (Suc 0))" "(4 :: nat) = Suc (Suc (Suc (Suc 0)))"
  by simp_all

text \<open>The serial is written and read octet by octet, most significant first.\<close>

definition RDataZONEMD_Pack :: "RDataZONEMD option \<Rightarrow> bytes \<Rightarrow> nat \<Rightarrow> (nat \<times> bytes) result" where
  "RDataZONEMD_Pack ro buf start =
     (case ro of None \<Rightarrow> Inl (Errorf ''nil ZONEMD record'')
      | Some r \<Rightarrow>
          let need = 6 + length (zonemd_Digest r) in
          if start + need > length buf then Inl ErrBufferTooSmall
          else
            let buf = put_at buf start [ucast (drop_bit 24 (zonemd_Serial r))];
                buf = put_at buf (start + 1) [ucast (drop_bit 16 (zonemd_Serial r))];
                buf = put_at buf (start + 2) [ucast (drop_bit 8 (zonemd_Serial r))];
                buf = put_at buf (start + 3) [ucast (zonemd_Serial r)];
                off = start + 4;
                buf = put_at buf off [zonemd_Scheme r];
                off = off + 1;
                buf = put_at buf off [zonemd_Algorithm r];
                off = off + 1;
                buf = put_at buf off (zonemd_Digest r);
                off = off + length (zonemd_Digest r)
            in Inr (off - start, buf))"

definition RDataZONEMD_Unpack ::
  "RDataZONEMD option \<Rightarrow> bytes \<Rightarrow> nat \<Rightarrow> uint16 \<Rightarrow> (nat \<times> RDataZONEMD) result"
where
  "RDataZONEMD_Unpack ro buf start rdlength =
     (case ro of None \<Rightarrow> Inl (Errorf ''nil ZONEMD record'')
      | Some r \<Rightarrow>
          let endOffset = start + unat rdlength in
          if endOffset > length buf then Inl ErrBufferTooSmall
          else if start + 6 > endOffset then Inl (Errorf ''ZONEMD rdata too short'')
          else
            let serial = of_be32 (buf ! start) (buf ! (start + 1)) (buf ! (start + 2)) (buf ! (start + 3));
                off = start + 4; scheme = buf ! off; off = off + 1; algorithm = buf ! off; off = off + 1;
                digestLen = endOffset - off
            in Inr (off + digestLen - start,
                 \<lparr>zonemd_Serial = serial, zonemd_Scheme = scheme, zonemd_Algorithm = algorithm,
                  zonemd_Digest = subslice buf off digestLen\<rparr>))"

definition RDataZONEMD_Len :: "RDataZONEMD option \<Rightarrow> nat" where
  "RDataZONEMD_Len ro = (case ro of None \<Rightarrow> 0 | Some r \<Rightarrow> 6 + length (zonemd_Digest r))"

definition RDataZONEMD_zero :: RDataZONEMD where
  "RDataZONEMD_zero =
     \<lparr>zonemd_Serial = 0, zonemd_Scheme = 0, zonemd_Algorithm = 0, zonemd_Digest = []\<rparr>"

definition RDataZONEMD_wf :: "RDataZONEMD \<Rightarrow> bool" where "RDataZONEMD_wf r \<longleftrightarrow> True"

definition RDataZONEMD_enc :: "RDataZONEMD \<Rightarrow> bytes" where
  "RDataZONEMD_enc r =
     be32 (zonemd_Serial r) @ [zonemd_Scheme r] @ [zonemd_Algorithm r] @ zonemd_Digest r"

lemmas RDataZONEMD_defs = RDataZONEMD_Pack_def RDataZONEMD_Unpack_def RDataZONEMD_Len_def RDataZONEMD_zero_def
  RDataZONEMD_wf_def RDataZONEMD_enc_def be32_def Let_def

interpretation ZONEMD: rdata_closed "\<lambda>r. RDataZONEMD_Pack (Some r)" "\<lambda>r. RDataZONEMD_Unpack (Some r)"
  "\<lambda>r. RDataZONEMD_Len (Some r)" RDataZONEMD_zero RDataZONEMD_wf RDataZONEMD_enc "\<lambda>r. r"
proof unfold_locales
  fix r :: RDataZONEMD and buf buf' :: bytes and off n :: nat
  assume "RDataZONEMD_wf r" "off \<le> length buf"
  then show "RDataZONEMD_Pack (Some r) buf off = Inr (n, buf') \<longleftrightarrow>
      n = length (RDataZONEMD_enc r) \<and> off + n \<le> length buf \<and> buf' = put_at buf off (RDataZONEMD_enc r)"
    by (auto simp: RDataZONEMD_defs and_then_Inr pack_name_iff codec_simps)
next
  fix r :: RDataZONEMD and buf :: bytes and off :: nat and rdlength :: uint16
  assume "RDataZONEMD_wf r" "holds buf off (RDataZONEMD_enc r)" "unat rdlength = length (RDataZONEMD_enc r)"
  then show "RDataZONEMD_Unpack (Some RDataZONEMD_zero) buf off rdlength =
      Inr (length (RDataZONEMD_enc r), r)"
    using holds_fits [of buf off "RDataZONEMD_enc r"]
    by (auto simp: RDataZONEMD_defs unpack_name_enc holds_be16 holds_subslice_eq offsets_2_4)
qed (auto simp: RDataZONEMD_defs and_then_Inr split: if_splits option.splits dest: unpack_name_ok)

end
