(* ===== verification/TypeBitMap.thy ===== *)
theory TypeBitMap
  imports RDataBase
begin

text \<open>
  The type bit maps of NSEC and NSEC3 records, \<^verbatim>\<open>internal/protocol/dnssec_nsec.go\<close> (the code of
  \<^verbatim>\<open>dnssec_nsec3.go\<close> is the same).  A list of record types is sorted, grouped by its high octet into windows,
  and each window is written as an octet string with one bit per type.  The Go map of windows is a
  function from the window to its bits in the order they are appended.  Packing and unpacking is
  shown to return the sorted set of the types.
\<close>

unbundle bit_operations_syntax

definition window_of :: "uint16 \<Rightarrow> byte" where "window_of t = ucast (drop_bit 8 t)"

definition bit_of :: "uint16 \<Rightarrow> byte" where "bit_of t = ucast (t AND 0xFF)"

definition windows :: "uint16 list \<Rightarrow> byte \<Rightarrow> byte list" where
  "windows sortedTypes w = map bit_of (filter (\<lambda>t. window_of t = w) sortedTypes)"

definition windowNums :: "uint16 list \<Rightarrow> byte list" where
  "windowNums sortedTypes = sort (remdups (map window_of sortedTypes))"

definition mark_bit :: "bytes \<Rightarrow> byte \<Rightarrow> bytes" where
  "mark_bit bitmap b =
     (let byteIndex = unat (b div 8); bitIndex = 7 - unat (b mod 8)
      in bitmap[byteIndex := bitmap ! byteIndex OR push_bit bitIndex 1])"

definition bitmapLen :: "byte list \<Rightarrow> nat" where
  "bitmapLen bits = unat (last bits div 8) + 1"

definition make_bitmap :: "byte list \<Rightarrow> bytes" where
  "make_bitmap bits = foldl mark_bit (replicate (bitmapLen bits) 0) bits"

fun pack_windows :: "uint16 list \<Rightarrow> byte list \<Rightarrow> bytes \<Rightarrow> nat \<Rightarrow> (nat \<times> bytes) result" where
  "pack_windows sortedTypes [] buf off = Inr (off, buf)"
| "pack_windows sortedTypes (w # ws) buf off =
     (let bits = windows sortedTypes w in
      if off + 2 + bitmapLen bits > length buf then Inl ErrBufferTooSmall
      else
        let buf = put_at buf off [w];
            off = off + 1;
            buf = put_at buf off [bytes_of (bitmapLen bits)];
            off = off + 1;
            buf = put_at buf off (make_bitmap bits)
        in pack_windows sortedTypes ws buf (off + bitmapLen bits))"

definition pack_bitmap :: "uint16 list \<Rightarrow> bytes \<Rightarrow> nat \<Rightarrow> (nat \<times> bytes) result" where
  "pack_bitmap types buf off =
     (if types = [] then Inr (off, buf)
      else let sortedTypes = sort types in pack_windows sortedTypes (windowNums sortedTypes) buf off)"

definition read_octet :: "byte \<Rightarrow> nat \<Rightarrow> byte \<Rightarrow> uint16 list" where
  "read_octet w i b =
     map (\<lambda>j. push_bit 8 (ucast w) OR of_nat (i * 8 + j))
       (filter (\<lambda>j. b AND push_bit (7 - j) 1 \<noteq> 0) [0..<8])"

function unpack_bitmap :: "bytes \<Rightarrow> nat \<Rightarrow> nat \<Rightarrow> uint16 list \<Rightarrow> (nat \<times> uint16 list) result" where
  "unpack_bitmap buf off endOffset types =
     (if off < endOffset then
        if off + 2 > endOffset then Inl ErrBufferTooSmall
        else
          let w = buf ! off; off = off + 1; len = unat (buf ! off); off = off + 1
          in if off + len > endOffset then Inl ErrBufferTooSmall
             else unpack_bitmap buf (off + len) endOffset
                    (types @ concat (map (\<lambda>i. read_octet w i (buf ! (off + i))) [0..<len]))
      else Inr (off, types))"
  by pat_completeness auto
termination
  by (relation "measure (\<lambda>(buf, off, endOffset, types). endOffset - off)") (auto simp: Let_def)

declare unpack_bitmap.simps [simp del]

text \<open>The length the \<^verbatim>\<open>Len\<close> methods compute: the highest octet index of every window.\<close>

definition window_max :: "uint16 list \<Rightarrow> byte \<rightharpoonup> nat" where
  "window_max types =
     foldl (\<lambda>m t. let byteIndex = unat (bit_of t div 8) in
              case m (window_of t) of
                None \<Rightarrow> m(window_of t \<mapsto> byteIndex)
              | Some cur \<Rightarrow> if byteIndex > cur then m(window_of t \<mapsto> byteIndex) else m)
       Map.empty types"

definition bitmap_length :: "uint16 list \<Rightarrow> nat" where
  "bitmap_length types =
     (if types = [] then 0
      else sum_list (map (\<lambda>w. 2 + the (window_max types w) + 1) (remdups (map window_of types))))"

subsection \<open>A window and its octets\<close>

definition enc_window :: "uint16 list \<Rightarrow> byte \<Rightarrow> bytes" where
  "enc_window sortedTypes w =
     [w] @ [bytes_of (bitmapLen (windows sortedTypes w))] @ make_bitmap (windows sortedTypes w)"

definition enc_bitmap :: "uint16 list \<Rightarrow> bytes" where
  "enc_bitmap types = concat (map (enc_window (sort types)) (windowNums (sort types)))"

definition canon_types :: "uint16 list \<Rightarrow> uint16 list" where
  "canon_types types = sort (remdups types)"

lemma and_0xFF: "(t :: 'a::len word) AND 0xFF = take_bit 8 t"
  using take_bit_eq_mask [of 8 t] by (simp add: mask_eq_exp_minus_1)

lemma unat_bit_of: "unat (bit_of t) = unat t mod 256"
  unfolding bit_of_def and_0xFF by (simp add: unsigned_ucast_eq take_bit_eq_mod unat_mod)

lemma unat_window_of: "unat (window_of t) = unat t div 256"
proof -
  have "unat t div 256 < 256"
    using unat_uint16_less [of t] by linarith
  then show ?thesis
    by (simp add: window_of_def unsigned_ucast_eq drop_bit_eq_div unat_div take_bit_nat_eq_self)
qed

lemma unat_window_bit: "unat t = 256 * unat (window_of t) + unat (bit_of t)"
  by (simp add: unat_bit_of unat_window_of)

definition type_num :: "byte \<Rightarrow> nat \<Rightarrow> uint16" where
  "type_num w n = push_bit 8 (ucast w) OR of_nat n"

lemma type_num_parts:
  assumes "n < 256"
  shows "window_of (type_num w n) = w" "bit_of (type_num w n) = of_nat n"
proof -
  have high: "\<not> bit n m" if "8 \<le> m" for m
  proof -
    have "(2 :: nat) ^ 8 \<le> 2 ^ m"
      using that by (rule power_increasing) simp
    with assms have "n div 2 ^ m = 0"
      by simp
    then show ?thesis
      by (simp add: bit_iff_odd)
  qed
  show "window_of (type_num w n) = w"
    using high by (intro bit_word_eqI) (auto simp: window_of_def type_num_def bit_simps)
  show "bit_of (type_num w n) = of_nat n"
    unfolding bit_of_def and_0xFF by (intro bit_word_eqI) (auto simp: type_num_def bit_simps)
qed

lemma unat_type_num: "n < 256 \<Longrightarrow> unat (type_num w n) = 256 * unat w + n"
  by (simp add: unat_window_bit [of "type_num w n"] type_num_parts unat_of_nat take_bit_nat_eq_self)

lemma type_num_window_bit: "type_num (window_of t) (unat (bit_of t)) = t"
proof -
  have "unat (type_num (window_of t) (unat (bit_of t))) = unat t"
    using unat_window_bit [of t] by (simp add: unat_type_num unat_bit_of)
  then show ?thesis
    by (simp add: word_unat_eq_iff)
qed

lemma unat_div_mod_8: "unat ((b :: byte) div 8) = unat b div 8" "unat (b mod 8) = unat b mod 8"
  by (simp_all add: unat_div unat_mod)

lemma mark_bits:
  assumes "\<forall>b \<in> set bits. unat b div 8 < length bm" "i < length bm"
  shows "length (foldl mark_bit bm bits) = length bm"
    "bit (foldl mark_bit bm bits ! i) k \<longleftrightarrow>
      bit (bm ! i) k \<or> (\<exists>b \<in> set bits. unat b div 8 = i \<and> k = 7 - unat b mod 8)"
proof -
  have "length (foldl mark_bit bm bits) = length bm \<and>
    (bit (foldl mark_bit bm bits ! i) k \<longleftrightarrow>
      bit (bm ! i) k \<or> (\<exists>b \<in> set bits. unat b div 8 = i \<and> k = 7 - unat b mod 8))"
    using assms
  proof (induction bits arbitrary: bm)
    case (Cons b bits)
    have "length (mark_bit bm b) = length bm"
      by (simp add: mark_bit_def Let_def)
    moreover have "bit (mark_bit bm b ! i) k \<longleftrightarrow>
        bit (bm ! i) k \<or> unat b div 8 = i \<and> k = 7 - unat b mod 8"
      using Cons.prems
      by (auto simp: mark_bit_def Let_def unat_div_mod_8 nth_list_update bit_or_iff bit_exp_iff)
    ultimately show ?case
      using Cons.IH [of "mark_bit bm b"] Cons.prems by auto
  qed simp
  then show "length (foldl mark_bit bm bits) = length bm"
    "bit (foldl mark_bit bm bits ! i) k \<longleftrightarrow>
      bit (bm ! i) k \<or> (\<exists>b \<in> set bits. unat b div 8 = i \<and> k = 7 - unat b mod 8)"
    by simp_all
qed

lemma sorted_le_last: "sorted xs \<Longrightarrow> x \<in> set xs \<Longrightarrow> x \<le> last (xs :: byte list)"
  by (induction xs) (auto simp: last_in_set)

lemma make_bitmap_ok:
  assumes "sorted bits" "bits \<noteq> []"
  shows "length (make_bitmap bits) = bitmapLen bits" "bitmapLen bits \<le> 32"
    "i < bitmapLen bits \<Longrightarrow> bit (make_bitmap bits ! i) k \<longleftrightarrow>
       (\<exists>b \<in> set bits. unat b div 8 = i \<and> k = 7 - unat b mod 8)"
    "b \<in> set bits \<Longrightarrow> unat b < 8 * bitmapLen bits"
proof -
  have lt: "unat b div 8 < bitmapLen bits" if "b \<in> set bits" for b
    using sorted_le_last [OF assms(1) that]
    by (simp add: bitmapLen_def unat_div_mod_8 word_le_nat_alt div_le_mono less_Suc_eq_le)
  then have lt': "\<forall>b \<in> set bits. unat b div 8 < length (replicate (bitmapLen bits) (0 :: byte))"
    by simp
  have "0 < bitmapLen bits"
    by (simp add: bitmapLen_def)
  then show "length (make_bitmap bits) = bitmapLen bits"
    using mark_bits(1) [OF lt', of 0] by (simp add: make_bitmap_def)
  show "bitmapLen bits \<le> 32"
    using unat_byte_le [of "last bits"] by (simp add: bitmapLen_def unat_div_mod_8 del: unat_byte_le)
  show "i < bitmapLen bits \<Longrightarrow> bit (make_bitmap bits ! i) k \<longleftrightarrow>
       (\<exists>b \<in> set bits. unat b div 8 = i \<and> k = 7 - unat b mod 8)"
    using mark_bits(2) [OF lt', of i k] by (simp add: make_bitmap_def)
  show "b \<in> set bits \<Longrightarrow> unat b < 8 * bitmapLen bits"
    using lt [of b] by (simp add: div_less_iff_less_mult mult.commute)
qed

subsection \<open>Reading a window back\<close>

lemma read_blocks:
  "concat (map (\<lambda>i. map (\<lambda>j. f (i * 8 + j)) (filter (\<lambda>j. P (i * 8 + j)) [0..<8])) [0..<L]) =
   map f (filter P [0..<8 * L])"
proof (induction L)
  case (Suc L)
  have "[8 * L..<8 * L + 8] = map (\<lambda>j. L * 8 + j) [0..<8]"
    by (simp add: map_add_upt add.commute mult.commute)
  then have "[0..<8 * Suc L] = [0..<8 * L] @ map (\<lambda>j. L * 8 + j) [0..<8]"
    using upt_add_eq_append [of 0 "8 * L" 8] by (simp add: add.commute)
  with Suc show ?case
    by (simp add: filter_map o_def)
qed simp

lemma read_window:
  assumes "sorted bits" "bits \<noteq> []"
  shows "concat (map (\<lambda>i. read_octet w i (make_bitmap bits ! i)) [0..<bitmapLen bits]) =
    map (type_num w) (filter (\<lambda>n. n \<in> unat ` set bits) [0..<8 * bitmapLen bits])"
proof -
  have "read_octet w i (make_bitmap bits ! i) =
      map (\<lambda>j. type_num w (i * 8 + j)) (filter (\<lambda>j. i * 8 + j \<in> unat ` set bits) [0..<8])"
    if "i < bitmapLen bits" for i
  proof -
    have "(\<exists>b \<in> set bits. unat b div 8 = i \<and> 7 - j = 7 - unat b mod 8) \<longleftrightarrow> i * 8 + j \<in> unat ` set bits"
      if "j < 8" for j
    proof
      assume "\<exists>b \<in> set bits. unat b div 8 = i \<and> 7 - j = 7 - unat b mod 8"
      then obtain b where "b \<in> set bits" "unat b div 8 = i" "7 - j = 7 - unat b mod 8"
        by blast
      moreover have "unat b mod 8 = j"
        using that calculation(3) mod_less_divisor [of 8 "unat b"] by arith
      ultimately show "i * 8 + j \<in> unat ` set bits"
        by (metis div_mult_mod_eq image_eqI)
    next
      assume "i * 8 + j \<in> unat ` set bits"
      then obtain b where b: "b \<in> set bits" "unat b = i * 8 + j"
        by auto
      then have "unat b div 8 = i" "unat b mod 8 = j"
        using that by simp_all
      with b(1) show "\<exists>b \<in> set bits. unat b div 8 = i \<and> 7 - j = 7 - unat b mod 8"
        by auto
    qed
    then show ?thesis
      unfolding read_octet_def and_bit_nonzero make_bitmap_ok(3) [OF assms that] type_num_def
      by (intro arg_cong [where f = "map _"] filter_cong) auto
  qed
  then have "map (\<lambda>i. read_octet w i (make_bitmap bits ! i)) [0..<bitmapLen bits] =
      map (\<lambda>i. map (\<lambda>j. type_num w (i * 8 + j)) (filter (\<lambda>j. i * 8 + j \<in> unat ` set bits) [0..<8]))
        [0..<bitmapLen bits]"
    by simp
  then show ?thesis
    using read_blocks [of "type_num w" "\<lambda>n. n \<in> unat ` set bits" "bitmapLen bits"] by (simp only:)
qed

definition window_types :: "uint16 list \<Rightarrow> byte \<Rightarrow> uint16 list" where
  "window_types types w =
     map (type_num w) (filter (\<lambda>n. n \<in> unat ` set (windows (sort types) w))
       [0..<8 * bitmapLen (windows (sort types) w)])"

lemma set_windows: "set (windows (sort types) w) = bit_of ` {t \<in> set types. window_of t = w}"
  by (auto simp: windows_def)

lemma sorted_windows: "sorted (windows (sort types) w)"
proof -
  have "sorted_wrt (\<lambda>s t. bit_of s \<le> bit_of t) (filter (\<lambda>t. window_of t = w) (sort types))"
  proof (rule sorted_wrt_mono_rel [of _ "(\<le>)"])
    show "sorted_wrt (\<le>) (filter (\<lambda>t. window_of t = w) (sort types))"
      by (simp add: sorted_wrt_filter)
    show "bit_of s \<le> bit_of t" if "s \<in> set (filter (\<lambda>t. window_of t = w) (sort types))"
      "t \<in> set (filter (\<lambda>t. window_of t = w) (sort types))" "s \<le> t" for s t
      using that unat_window_bit [of s] unat_window_bit [of t] by (simp add: word_le_nat_alt)
  qed
  then show ?thesis
    by (simp add: windows_def sorted_wrt_map)
qed

lemma window_types_ok:
  assumes "w \<in> window_of ` set types"
  shows "set (window_types types w) = {t \<in> set types. window_of t = w}"
    "sorted_wrt (<) (map unat (window_types types w))"
proof -
  let ?b = "windows (sort types) w"
  have ne: "?b \<noteq> []"
    using assms by (auto simp: windows_def filter_empty_conv)
  have lt: "unat b < 256" "unat b < 8 * bitmapLen ?b" if "b \<in> set ?b" for b :: byte
    using unat_byte_le [of b] make_bitmap_ok(4) [OF sorted_windows ne that] by (simp_all del: unat_byte_le)
  have "set (window_types types w) = type_num w ` unat ` set ?b"
    using lt(2) by (auto simp: window_types_def)
  also have "\<dots> = {t \<in> set types. window_of t = w}"
    using type_num_window_bit by (auto simp: set_windows image_iff) metis
  finally show "set (window_types types w) = {t \<in> set types. window_of t = w}" .
  have "map unat (window_types types w) =
      map (\<lambda>n. 256 * unat w + n) (filter (\<lambda>n. n \<in> unat ` set ?b) [0..<8 * bitmapLen ?b])"
    using lt(1) by (auto simp: window_types_def unat_type_num)
  then show "sorted_wrt (<) (map unat (window_types types w))"
    by (simp add: sorted_wrt_map sorted_wrt_filter)
qed

subsection \<open>The whole bit map\<close>

lemma set_windowNums: "set (windowNums (sort types)) = window_of ` set types"
  by (simp add: windowNums_def)

lemma sorted_concat_map:
  assumes "sorted_wrt (<) (ws :: byte list)" "\<And>w. w \<in> set ws \<Longrightarrow> sorted_wrt (<) (f w :: nat list)"
    "\<And>v w x y. v \<in> set ws \<Longrightarrow> w \<in> set ws \<Longrightarrow> v < w \<Longrightarrow> x \<in> set (f v) \<Longrightarrow> y \<in> set (f w) \<Longrightarrow> x < y"
  shows "sorted_wrt (<) (concat (map f ws))"
  using assms
proof (induction ws)
  case (Cons w ws)
  have "sorted_wrt (<) (concat (map f ws))"
  proof (rule Cons.IH)
    show "x < y" if "u \<in> set ws" "v \<in> set ws" "u < v" "x \<in> set (f u)" "y \<in> set (f v)" for u v x y
      using that by (intro Cons.prems(3) [of u v]) simp_all
  qed (use Cons.prems in simp_all)
  moreover have "x < y" if "x \<in> set (f w)" "y \<in> set (concat (map f ws))" for x y
    using that Cons.prems(1) Cons.prems(3) [of w] by auto
  ultimately show ?case
    using Cons.prems(2) [of w] by (simp add: sorted_wrt_append)
qed simp

lemma windowNums_sorted: "sorted_wrt (<) (windowNums types)"
  by (simp add: windowNums_def strict_sorted_iff)

lemma windows_eq_canon:
  "concat (map (window_types types) (windowNums (sort types))) = canon_types types" (is "?R = _")
proof -
  have mem: "w \<in> window_of ` set types" if "w \<in> set (windowNums (sort types))" for w
    using that by (simp add: set_windowNums)
  have "sorted_wrt (<) (concat (map (\<lambda>w. map unat (window_types types w)) (windowNums (sort types))))"
  proof (rule sorted_concat_map)
    fix v w :: byte and x y :: nat
    assume vw: "v \<in> set (windowNums (sort types))" "w \<in> set (windowNums (sort types))" "v < w"
      and x: "x \<in> set (map unat (window_types types v))" and y: "y \<in> set (map unat (window_types types w))"
    obtain s t where "x = unat s" "window_of s = v" "y = unat t" "window_of t = w"
      using x y window_types_ok(1) [OF mem [OF vw(1)]] window_types_ok(1) [OF mem [OF vw(2)]] by auto
    then show "x < y"
      using vw(3) unat_window_bit [of s] unat_window_bit [of t] unat_byte_le [of "bit_of s"]
      by (simp add: word_less_nat_alt del: unat_byte_le)
  qed (simp_all add: windowNums_sorted mem window_types_ok(2))
  then have "sorted_wrt (<) (map unat ?R)"
    by (simp add: map_concat o_def)
  then have "sorted_wrt (<) ?R"
    unfolding sorted_wrt_map word_less_nat_alt [symmetric] .
  moreover have "set ?R = set types"
    using window_types_ok(1) [OF mem] by (auto simp: set_windowNums)
  ultimately show ?thesis
    unfolding canon_types_def by (intro sorted_distinct_set_unique) (simp_all add: strict_sorted_iff)
qed

lemma length_enc_window:
  "w \<in> window_of ` set types \<Longrightarrow>
   length (enc_window (sort types) w) = 2 + bitmapLen (windows (sort types) w)"
  using make_bitmap_ok(1) [OF sorted_windows, of types w]
  by (auto simp: enc_window_def windows_def filter_empty_conv)

lemma pack_windows_iff:
  "set ws \<subseteq> window_of ` set types \<Longrightarrow> off \<le> length buf \<Longrightarrow>
   pack_windows (sort types) ws buf off = Inr (off', buf') \<longleftrightarrow>
     off' = off + length (concat (map (enc_window (sort types)) ws)) \<and> off' \<le> length buf \<and>
     buf' = put_at buf off (concat (map (enc_window (sort types)) ws))"
proof (induction ws arbitrary: buf off)
  case Nil
  then show ?case by auto
next
  case (Cons w ws)
  let ?e = "enc_window (sort types) w"
  have len: "length ?e = 2 + bitmapLen (windows (sort types) w)"
    using Cons.prems by (intro length_enc_window) simp
  have lenb: "length (make_bitmap (windows (sort types) w)) = bitmapLen (windows (sort types) w)"
    using len by (simp add: enc_window_def)
  show ?case
  proof (cases "off + length ?e \<le> length buf")
    case True
    then have "pack_windows (sort types) (w # ws) buf off =
        pack_windows (sort types) ws (put_at buf off ?e) (off + length ?e)"
      using lenb by (simp add: Let_def codec_simps enc_window_def)
    then show ?thesis
      using Cons True by (auto simp: put_at_put_at add.assoc)
  next
    case False
    then show ?thesis
      by (auto simp: Let_def len)
  qed
qed

lemma pack_bitmap_iff:
  "off \<le> length buf \<Longrightarrow>
   pack_bitmap types buf off = Inr (off', buf') \<longleftrightarrow>
     off' = off + length (enc_bitmap types) \<and> off' \<le> length buf \<and> buf' = put_at buf off (enc_bitmap types)"
  using pack_windows_iff [of "windowNums (sort types)" types off buf off' buf']
  by (auto simp: pack_bitmap_def enc_bitmap_def set_windowNums Let_def windowNums_def [of "[]"])

lemma unpack_windows_enc:
  "holds buf off (concat (map (enc_window (sort types)) ws)) \<Longrightarrow> set ws \<subseteq> window_of ` set types \<Longrightarrow>
   unpack_bitmap buf off (off + length (concat (map (enc_window (sort types)) ws))) acc =
     Inr (off + length (concat (map (enc_window (sort types)) ws)),
          acc @ concat (map (window_types types) ws))"
proof (induction ws arbitrary: off acc)
  case Nil
  then show ?case by (simp add: unpack_bitmap.simps)
next
  case (Cons w ws)
  let ?b = "windows (sort types) w" and ?e = "enc_window (sort types) w"
  have ne: "?b \<noteq> []"
    using Cons.prems(2) by (auto simp: windows_def filter_empty_conv)
  note ok = make_bitmap_ok [OF sorted_windows ne]
  have len: "length ?e = 2 + bitmapLen ?b"
    using Cons.prems(2) by (intro length_enc_window) simp
  have "holds buf off ?e"
    using Cons.prems(1) by simp
  then have e: "buf ! off = w" "buf ! (off + 1) = bytes_of (bitmapLen ?b)"
    "holds buf (off + 2) (make_bitmap ?b)"
    by (simp_all add: enc_window_def)
  have "buf ! (off + 2 + i) = make_bitmap ?b ! i" if "i < bitmapLen ?b" for i
    using e(3) that ok(1) by (metis holds_def subslice_nth add_less_cancel_left less_le_trans)
  then have "map (\<lambda>i. read_octet w i (buf ! (off + 2 + i))) [0..<bitmapLen ?b] =
      map (\<lambda>i. read_octet w i (make_bitmap ?b ! i)) [0..<bitmapLen ?b]"
    by simp
  then have "concat (map (\<lambda>i. read_octet w i (buf ! (off + 2 + i))) [0..<bitmapLen ?b]) = window_types types w"
    unfolding window_types_def read_window [OF sorted_windows ne, of w, symmetric] by (rule arg_cong)
  moreover have "unat (bytes_of (bitmapLen ?b)) = bitmapLen ?b"
    using ok(2) by simp
  moreover have "unpack_bitmap buf (off + length ?e)
      (off + length ?e + length (concat (map (enc_window (sort types)) ws))) (acc @ window_types types w) =
      Inr (off + length ?e + length (concat (map (enc_window (sort types)) ws)),
          (acc @ window_types types w) @ concat (map (window_types types) ws))"
    using Cons by (intro Cons.IH) simp_all
  ultimately show ?case
    using e by (subst unpack_bitmap.simps) (simp add: Let_def len add.assoc)
qed

lemma unpack_bitmap_enc:
  "holds buf off (enc_bitmap types) \<Longrightarrow>
   unpack_bitmap buf off (off + length (enc_bitmap types)) [] =
     Inr (off + length (enc_bitmap types), canon_types types)"
  using unpack_windows_enc [of buf off types "windowNums (sort types)" "[]"]
  by (simp add: enc_bitmap_def set_windowNums windows_eq_canon)

lemma unpack_bitmap_ok:
  "unpack_bitmap buf off endOffset acc = Inr (off', types) \<Longrightarrow> off \<le> endOffset \<Longrightarrow> off' = endOffset"
proof (induction buf off endOffset acc rule: unpack_bitmap.induct)
  case (1 buf off endOffset acc)
  then show ?case
    by (subst (asm) (2) unpack_bitmap.simps) (auto simp: Let_def split: if_splits)
qed

subsection \<open>The computed length\<close>

definition octet_index :: "uint16 \<Rightarrow> nat" where
  "octet_index t = unat (bit_of t div 8)"

lemma window_max_eq:
  "window_max types w =
     (if w \<in> window_of ` set types then Some (Max (octet_index ` {t \<in> set types. window_of t = w})) else None)"
proof (induction types rule: rev_induct)
  case Nil
  then show ?case by (simp add: window_max_def)
next
  case (snoc t types)
  let ?S = "octet_index ` {t \<in> set types. window_of t = w}"
  have step: "window_max (types @ [t]) w =
      (if window_of t = w
       then (case window_max types w of None \<Rightarrow> Some (octet_index t)
             | Some cur \<Rightarrow> if octet_index t > cur then Some (octet_index t) else Some cur)
       else window_max types w)"
    by (auto simp: window_max_def octet_index_def Let_def split: option.split)
  have set: "octet_index ` {u \<in> set (types @ [t]). window_of u = w} =
      (if window_of t = w then insert (octet_index t) ?S else ?S)"
    by auto
  have fin: "finite ?S"
    by simp
  show ?case
  proof (cases "w \<in> window_of ` set types")
    case True
    then have "?S \<noteq> {}"
      by auto
    then have ins: "Max (insert (octet_index t) ?S) = max (octet_index t) (Max ?S)"
      using fin by (rule Max_insert [rotated])
    define M where "M = Max ?S"
    show ?thesis
      using True unfolding step set snoc if_True ins M_def [symmetric]
      by (auto simp: max_def ins M_def [symmetric])
  next
    case False
    then have S: "?S = {}"
      by auto
    show ?thesis
      using False unfolding step set snoc S by auto
  qed
qed

lemma octet_index_last:
  assumes "w \<in> window_of ` set types"
  shows "Max (octet_index ` {t \<in> set types. window_of t = w}) + 1 = bitmapLen (windows (sort types) w)"
proof -
  let ?b = "windows (sort types) w"
  have ne: "?b \<noteq> []"
    using assms by (auto simp: windows_def filter_empty_conv)
  have "octet_index ` {t \<in> set types. window_of t = w} = (\<lambda>b. unat (b div 8)) ` set ?b"
    unfolding set_windows by (auto simp: octet_index_def)
  also have "Max \<dots> = unat (last ?b div 8)"
  proof (rule Max_eqI)
    show "unat (last ?b div 8) \<in> (\<lambda>b. unat (b div 8)) ` set ?b"
      using last_in_set [OF ne] by (rule imageI)
    show "n \<le> unat (last ?b div 8)" if n: "n \<in> (\<lambda>b. unat (b div 8)) ` set ?b" for n
    proof -
      obtain b where b: "n = unat (b div 8)" "b \<in> set ?b"
        using n by (rule imageE)
      then show ?thesis
        using sorted_le_last [OF sorted_windows b(2)]
        by (simp add: unat_div_mod_8 word_le_nat_alt div_le_mono)
    qed
  qed simp
  finally show ?thesis
    by (simp add: bitmapLen_def)
qed

lemma bitmap_length_enc: "bitmap_length types = length (enc_bitmap types)"
proof (cases "types = []")
  case True
  then show ?thesis
    by (simp add: bitmap_length_def enc_bitmap_def windowNums_def)
next
  case False
  have "bitmap_length types = sum_list (map (\<lambda>w. 2 + the (window_max types w) + 1) (remdups (map window_of types)))"
    using False by (simp add: bitmap_length_def)
  also have "\<dots> = (\<Sum>w \<in> window_of ` set types. 2 + the (window_max types w) + 1)"
    by (simp add: sum_list_distinct_conv_sum_set)
  also have "\<dots> = (\<Sum>w \<in> window_of ` set types. length (enc_window (sort types) w))"
    by (rule sum.cong) (simp_all add: window_max_eq length_enc_window flip: octet_index_last)
  also have "\<dots> = sum_list (map (\<lambda>w. length (enc_window (sort types) w)) (windowNums (sort types)))"
    using windowNums_sorted [of "sort types"]
    by (simp add: sum_list_distinct_conv_sum_set strict_sorted_iff set_windowNums)
  also have "\<dots> = length (enc_bitmap types)"
    by (simp add: enc_bitmap_def length_concat o_def)
  finally show ?thesis .
qed

subsection \<open>Only the set of types matters\<close>

lemma make_bitmap_cong:
  assumes "sorted bs" "sorted cs" "set bs = set cs" "bs \<noteq> []"
  shows "bitmapLen bs = bitmapLen cs" "make_bitmap bs = make_bitmap cs"
proof -
  have ne: "cs \<noteq> []"
    using assms(3,4) by auto
  have "last bs \<le> last cs" "last cs \<le> last bs"
    using sorted_le_last [OF assms(2), of "last bs"] sorted_le_last [OF assms(1), of "last cs"]
      last_in_set [OF assms(4)] last_in_set [OF ne] unfolding assms(3) by blast+
  then show len: "bitmapLen bs = bitmapLen cs"
    by (simp add: bitmapLen_def)
  show "make_bitmap bs = make_bitmap cs"
  proof (rule nth_equalityI)
    note lb = make_bitmap_ok(1) [OF assms(1,4)] and lc = make_bitmap_ok(1) [OF assms(2) ne]
    show "length (make_bitmap bs) = length (make_bitmap cs)"
      unfolding lb lc by (rule len)
    fix i
    assume "i < length (make_bitmap bs)"
    then have i: "i < bitmapLen bs" "i < bitmapLen cs"
      unfolding lb len by simp_all
    show "make_bitmap bs ! i = make_bitmap cs ! i"
      by (rule bit_word_eqI)
        (simp only: make_bitmap_ok(3) [OF assms(1,4) i(1)] make_bitmap_ok(3) [OF assms(2) ne i(2)] assms(3))
  qed
qed

lemma set_canon_types [simp]: "set (canon_types types) = set types"
  by (simp add: canon_types_def)

lemma windowNums_cong: "set types = set types' \<Longrightarrow> windowNums types = windowNums types'"
  unfolding windowNums_def by (intro sorted_distinct_set_unique) simp_all

lemma enc_bitmap_canon: "enc_bitmap (canon_types types) = enc_bitmap types"
proof -
  have "enc_window (sort (canon_types types)) w = enc_window (sort types) w"
    if "w \<in> set (windowNums (sort types))" for w
  proof -
    have "windows (sort types) w \<noteq> []"
      using that by (auto simp: set_windowNums windows_def filter_empty_conv)
    moreover have "set (windows (sort (canon_types types)) w) = set (windows (sort types) w)"
      by (simp add: set_windows)
    ultimately show ?thesis
      unfolding enc_window_def
      using make_bitmap_cong [OF sorted_windows sorted_windows, of types w "canon_types types" w] by simp
  qed
  then show ?thesis
    unfolding enc_bitmap_def windowNums_cong [of "sort (canon_types types)" "sort types", simplified]
    by (intro arg_cong [where f = concat] map_cong) simp_all
qed

end
