(* ===== verification/RDataDnssec.thy ===== *)
theory RDataDnssec
  imports RDataMail TypeBitMap
begin

text \<open>
  The DNSSEC record data of \<^verbatim>\<open>internal/protocol\<close>: DNSKEY (\<^verbatim>\<open>dnssec_dnskey.go\<close>), DS (\<^verbatim>\<open>dnssec_ds.go\<close>), RRSIG
  (\<^verbatim>\<open>dnssec_rrsig.go\<close>), NSEC (\<^verbatim>\<open>dnssec_nsec.go\<close>), NSEC3 (\<^verbatim>\<open>dnssec_nsec3.go\<close>) and NSEC3PARAM
  (\<^verbatim>\<open>dnssec_nsec3param.go\<close>), each an instance of the record data contract.
\<close>

lemma length_subslice_le: "n \<le> k \<Longrightarrow> length (subslice buf off n) \<le> k"
  by (simp add: subslice_def min_le_iff_disj)

lemma unpack_bitmap_to_end:
  "holds buf off (enc_bitmap types) \<Longrightarrow> endOffset = off + length (enc_bitmap types) \<Longrightarrow>
   unpack_bitmap buf off endOffset [] = Inr (endOffset, canon_types types)"
  by (simp add: unpack_bitmap_enc)

subsection \<open>DNSKEY\<close>

record RDataDNSKEY =
  dnskey_Flags :: uint16
  dnskey_Protocol :: byte
  dnskey_Algorithm :: byte
  dnskey_PublicKey :: bytes

definition RDataDNSKEY_Pack :: "RDataDNSKEY option \<Rightarrow> bytes \<Rightarrow> nat \<Rightarrow> (nat \<times> bytes) result" where
  "RDataDNSKEY_Pack ro buf start =
     (case ro of None \<Rightarrow> Inl (Errorf ''nil DNSKEY record'')
      | Some r \<Rightarrow>
          if start + 2 > length buf then Inl ErrBufferTooSmall else
          let buf = PutUint16_at buf start (dnskey_Flags r); off = start + 2 in
          if off + 1 > length buf then Inl ErrBufferTooSmall else
          let buf = put_at buf off [dnskey_Protocol r]; off = off + 1 in
          if off + 1 > length buf then Inl ErrBufferTooSmall else
          let buf = put_at buf off [dnskey_Algorithm r]; off = off + 1 in
          if off + length (dnskey_PublicKey r) > length buf then Inl ErrBufferTooSmall
          else Inr (off + length (dnskey_PublicKey r) - start, put_at buf off (dnskey_PublicKey r)))"

definition RDataDNSKEY_Unpack ::
  "RDataDNSKEY option \<Rightarrow> bytes \<Rightarrow> nat \<Rightarrow> uint16 \<Rightarrow> (nat \<times> RDataDNSKEY) result"
where
  "RDataDNSKEY_Unpack ro buf start rdlength =
     (case ro of None \<Rightarrow> Inl (Errorf ''nil DNSKEY record'')
      | Some r \<Rightarrow>
          let endOffset = start + unat rdlength in
          if endOffset > length buf then Inl ErrBufferTooSmall
          else if start + 4 > endOffset then Inl ErrBufferTooSmall
          else
            Inr (endOffset - start,
              \<lparr>dnskey_Flags = Uint16 (drop start buf), dnskey_Protocol = buf ! (start + 2),
               dnskey_Algorithm = buf ! (start + 2 + 1),
               dnskey_PublicKey = subslice buf (start + 2 + 1 + 1) (endOffset - (start + 2 + 1 + 1))\<rparr>))"

definition RDataDNSKEY_Len :: "RDataDNSKEY option \<Rightarrow> nat" where
  "RDataDNSKEY_Len ro = (case ro of None \<Rightarrow> 0 | Some r \<Rightarrow> 4 + length (dnskey_PublicKey r))"

definition RDataDNSKEY_zero :: RDataDNSKEY where
  "RDataDNSKEY_zero = \<lparr>dnskey_Flags = 0, dnskey_Protocol = 0, dnskey_Algorithm = 0, dnskey_PublicKey = []\<rparr>"

definition RDataDNSKEY_wf :: "RDataDNSKEY \<Rightarrow> bool" where "RDataDNSKEY_wf r \<longleftrightarrow> True"

definition RDataDNSKEY_enc :: "RDataDNSKEY \<Rightarrow> bytes" where
  "RDataDNSKEY_enc r = be16 (dnskey_Flags r) @ [dnskey_Protocol r] @ [dnskey_Algorithm r] @ dnskey_PublicKey r"

lemmas RDataDNSKEY_defs = RDataDNSKEY_Pack_def RDataDNSKEY_Unpack_def RDataDNSKEY_Len_def RDataDNSKEY_zero_def
  RDataDNSKEY_wf_def RDataDNSKEY_enc_def Let_def

interpretation DNSKEY: rdata_closed "\<lambda>r. RDataDNSKEY_Pack (Some r)" "\<lambda>r. RDataDNSKEY_Unpack (Some r)"
  "\<lambda>r. RDataDNSKEY_Len (Some r)" RDataDNSKEY_zero RDataDNSKEY_wf RDataDNSKEY_enc "\<lambda>r. r"
proof unfold_locales
  fix r :: RDataDNSKEY and buf buf' :: bytes and off n :: nat
  assume "RDataDNSKEY_wf r" "off \<le> length buf"
  then show "RDataDNSKEY_Pack (Some r) buf off = Inr (n, buf') \<longleftrightarrow>
      n = length (RDataDNSKEY_enc r) \<and> off + n \<le> length buf \<and> buf' = put_at buf off (RDataDNSKEY_enc r)"
    by (auto simp: RDataDNSKEY_defs and_then_Inr pack_name_iff codec_simps)
next
  fix r :: RDataDNSKEY and buf :: bytes and off :: nat and rdlength :: uint16
  assume "RDataDNSKEY_wf r" "holds buf off (RDataDNSKEY_enc r)" "unat rdlength = length (RDataDNSKEY_enc r)"
  then show "RDataDNSKEY_Unpack (Some RDataDNSKEY_zero) buf off rdlength =
      Inr (length (RDataDNSKEY_enc r), r)"
    using holds_fits [of buf off "RDataDNSKEY_enc r"]
    by (auto simp: RDataDNSKEY_defs unpack_name_enc holds_be16 holds_be32 holds_subslice_eq)
qed (auto simp: RDataDNSKEY_defs and_then_Inr split: if_splits option.splits dest: unpack_name_ok)

subsection \<open>DS\<close>

record RDataDS =
  ds_KeyTag :: uint16
  ds_Algorithm :: byte
  ds_DigestType :: byte
  ds_Digest :: bytes

definition RDataDS_Pack :: "RDataDS option \<Rightarrow> bytes \<Rightarrow> nat \<Rightarrow> (nat \<times> bytes) result" where
  "RDataDS_Pack ro buf start =
     (case ro of None \<Rightarrow> Inl (Errorf ''nil DS record'')
      | Some r \<Rightarrow>
          if start + 2 > length buf then Inl ErrBufferTooSmall else
          let buf = PutUint16_at buf start (ds_KeyTag r); off = start + 2 in
          if off + 1 > length buf then Inl ErrBufferTooSmall else
          let buf = put_at buf off [ds_Algorithm r]; off = off + 1 in
          if off + 1 > length buf then Inl ErrBufferTooSmall else
          let buf = put_at buf off [ds_DigestType r]; off = off + 1 in
          if off + length (ds_Digest r) > length buf then Inl ErrBufferTooSmall
          else Inr (off + length (ds_Digest r) - start, put_at buf off (ds_Digest r)))"

definition RDataDS_Unpack ::
  "RDataDS option \<Rightarrow> bytes \<Rightarrow> nat \<Rightarrow> uint16 \<Rightarrow> (nat \<times> RDataDS) result"
where
  "RDataDS_Unpack ro buf start rdlength =
     (case ro of None \<Rightarrow> Inl (Errorf ''nil DS record'')
      | Some r \<Rightarrow>
          let endOffset = start + unat rdlength in
          if endOffset > length buf then Inl ErrBufferTooSmall
          else if start + 4 > endOffset then Inl ErrBufferTooSmall
          else
            Inr (endOffset - start,
              \<lparr>ds_KeyTag = Uint16 (drop start buf), ds_Algorithm = buf ! (start + 2),
               ds_DigestType = buf ! (start + 2 + 1),
               ds_Digest = subslice buf (start + 2 + 1 + 1) (endOffset - (start + 2 + 1 + 1))\<rparr>))"

definition RDataDS_Len :: "RDataDS option \<Rightarrow> nat" where
  "RDataDS_Len ro = (case ro of None \<Rightarrow> 0 | Some r \<Rightarrow> 4 + length (ds_Digest r))"

definition RDataDS_zero :: RDataDS where
  "RDataDS_zero = \<lparr>ds_KeyTag = 0, ds_Algorithm = 0, ds_DigestType = 0, ds_Digest = []\<rparr>"

definition RDataDS_wf :: "RDataDS \<Rightarrow> bool" where "RDataDS_wf r \<longleftrightarrow> True"

definition RDataDS_enc :: "RDataDS \<Rightarrow> bytes" where
  "RDataDS_enc r = be16 (ds_KeyTag r) @ [ds_Algorithm r] @ [ds_DigestType r] @ ds_Digest r"

lemmas RDataDS_defs = RDataDS_Pack_def RDataDS_Unpack_def RDataDS_Len_def RDataDS_zero_def
  RDataDS_wf_def RDataDS_enc_def Let_def

interpretation DS: rdata_closed "\<lambda>r. RDataDS_Pack (Some r)" "\<lambda>r. RDataDS_Unpack (Some r)"
  "\<lambda>r. RDataDS_Len (Some r)" RDataDS_zero RDataDS_wf RDataDS_enc "\<lambda>r. r"
proof unfold_locales
  fix r :: RDataDS and buf buf' :: bytes and off n :: nat
  assume "RDataDS_wf r" "off \<le> length buf"
  then show "RDataDS_Pack (Some r) buf off = Inr (n, buf') \<longleftrightarrow>
      n = length (RDataDS_enc r) \<and> off + n \<le> length buf \<and> buf' = put_at buf off (RDataDS_enc r)"
    by (auto simp: RDataDS_defs and_then_Inr pack_name_iff codec_simps)
next
  fix r :: RDataDS and buf :: bytes and off :: nat and rdlength :: uint16
  assume "RDataDS_wf r" "holds buf off (RDataDS_enc r)" "unat rdlength = length (RDataDS_enc r)"
  then show "RDataDS_Unpack (Some RDataDS_zero) buf off rdlength =
      Inr (length (RDataDS_enc r), r)"
    using holds_fits [of buf off "RDataDS_enc r"]
    by (auto simp: RDataDS_defs unpack_name_enc holds_be16 holds_be32 holds_subslice_eq)
qed (auto simp: RDataDS_defs and_then_Inr split: if_splits option.splits dest: unpack_name_ok)

subsection \<open>RRSIG\<close>

record RDataRRSIG =
  rrsig_TypeCovered :: uint16
  rrsig_Algorithm :: byte
  rrsig_Labels :: byte
  rrsig_OriginalTTL :: uint32
  rrsig_Expiration :: uint32
  rrsig_Inception :: uint32
  rrsig_KeyTag :: uint16
  rrsig_SignerName :: "name option"
  rrsig_Signature :: bytes

definition RDataRRSIG_Pack :: "RDataRRSIG option \<Rightarrow> bytes \<Rightarrow> nat \<Rightarrow> (nat \<times> bytes) result" where
  "RDataRRSIG_Pack ro buf start =
     (case ro of None \<Rightarrow> Inl (Errorf ''nil RRSIG record'')
      | Some r \<Rightarrow>
          if start + 2 > length buf then Inl ErrBufferTooSmall else
          let buf = PutUint16_at buf start (rrsig_TypeCovered r); off = start + 2 in
          if off + 1 > length buf then Inl ErrBufferTooSmall else
          let buf = put_at buf off [rrsig_Algorithm r]; off = off + 1 in
          if off + 1 > length buf then Inl ErrBufferTooSmall else
          let buf = put_at buf off [rrsig_Labels r]; off = off + 1 in
          if off + 4 > length buf then Inl ErrBufferTooSmall else
          let buf = PutUint32_at buf off (rrsig_OriginalTTL r); off = off + 4 in
          if off + 4 > length buf then Inl ErrBufferTooSmall else
          let buf = PutUint32_at buf off (rrsig_Expiration r); off = off + 4 in
          if off + 4 > length buf then Inl ErrBufferTooSmall else
          let buf = PutUint32_at buf off (rrsig_Inception r); off = off + 4 in
          if off + 2 > length buf then Inl ErrBufferTooSmall else
          let buf = PutUint16_at buf off (rrsig_KeyTag r); off = off + 2 in
          and_then (wrap_err ''packing signer name'' (pack_name (rrsig_SignerName r) buf off)) (\<lambda>(n, buf).
          let off = off + n in
          if off + length (rrsig_Signature r) > length buf then Inl ErrBufferTooSmall
          else Inr (off + length (rrsig_Signature r) - start, put_at buf off (rrsig_Signature r))))"

definition RDataRRSIG_Unpack ::
  "RDataRRSIG option \<Rightarrow> bytes \<Rightarrow> nat \<Rightarrow> uint16 \<Rightarrow> (nat \<times> RDataRRSIG) result"
where
  "RDataRRSIG_Unpack ro buf start rdlength =
     (case ro of None \<Rightarrow> Inl (Errorf ''nil RRSIG record'')
      | Some r \<Rightarrow>
          let endOffset = start + unat rdlength in
          if endOffset > length buf then Inl ErrBufferTooSmall
          else if start + 18 > endOffset then Inl ErrBufferTooSmall
          else
            let off = start + 2 + 1 + 1 + 4 + 4 + 4 + 2 in
            and_then (wrap_err ''unpacking signer name'' (unpack_name buf off)) (\<lambda>(signerName, n).
            let off' = off + n in
            if off' > endOffset then Inl ErrBufferTooSmall
            else
              Inr (endOffset - start,
                \<lparr>rrsig_TypeCovered = Uint16 (drop start buf), rrsig_Algorithm = buf ! (start + 2),
                 rrsig_Labels = buf ! (start + 2 + 1), rrsig_OriginalTTL = Uint32 (drop (start + 2 + 1 + 1) buf),
                 rrsig_Expiration = Uint32 (drop (start + 2 + 1 + 1 + 4) buf),
                 rrsig_Inception = Uint32 (drop (start + 2 + 1 + 1 + 4 + 4) buf),
                 rrsig_KeyTag = Uint16 (drop (start + 2 + 1 + 1 + 4 + 4 + 4) buf),
                 rrsig_SignerName = Some signerName,
                 rrsig_Signature = subslice buf off' (endOffset - off')\<rparr>)))"

definition RDataRRSIG_Len :: "RDataRRSIG option \<Rightarrow> nat" where
  "RDataRRSIG_Len ro =
     (case ro of None \<Rightarrow> 0
      | Some r \<Rightarrow>
          18 + (case rrsig_SignerName r of None \<Rightarrow> 1 | Some n \<Rightarrow> WireLength (Some n)) +
          length (rrsig_Signature r))"

definition RDataRRSIG_zero :: RDataRRSIG where
  "RDataRRSIG_zero =
     \<lparr>rrsig_TypeCovered = 0, rrsig_Algorithm = 0, rrsig_Labels = 0, rrsig_OriginalTTL = 0,
      rrsig_Expiration = 0, rrsig_Inception = 0, rrsig_KeyTag = 0, rrsig_SignerName = None,
      rrsig_Signature = []\<rparr>"

definition RDataRRSIG_wf :: "RDataRRSIG \<Rightarrow> bool" where
  "RDataRRSIG_wf r \<longleftrightarrow> wf_oname (rrsig_SignerName r)"

definition RDataRRSIG_enc :: "RDataRRSIG \<Rightarrow> bytes" where
  "RDataRRSIG_enc r =
     be16 (rrsig_TypeCovered r) @ [rrsig_Algorithm r] @ [rrsig_Labels r] @ be32 (rrsig_OriginalTTL r) @
     be32 (rrsig_Expiration r) @ be32 (rrsig_Inception r) @ be16 (rrsig_KeyTag r) @
     enc_name (rrsig_SignerName r) @ rrsig_Signature r"

definition RDataRRSIG_canon :: "RDataRRSIG \<Rightarrow> RDataRRSIG" where
  "RDataRRSIG_canon r = r\<lparr>rrsig_SignerName := canon_name (rrsig_SignerName r)\<rparr>"

lemmas RDataRRSIG_defs = RDataRRSIG_Pack_def RDataRRSIG_Unpack_def RDataRRSIG_Len_def RDataRRSIG_zero_def
  RDataRRSIG_wf_def RDataRRSIG_enc_def RDataRRSIG_canon_def Let_def

interpretation RRSIG: rdata_closed "\<lambda>r. RDataRRSIG_Pack (Some r)" "\<lambda>r. RDataRRSIG_Unpack (Some r)"
  "\<lambda>r. RDataRRSIG_Len (Some r)" RDataRRSIG_zero RDataRRSIG_wf RDataRRSIG_enc RDataRRSIG_canon
proof unfold_locales
  fix r :: RDataRRSIG and buf buf' :: bytes and off n :: nat
  assume "RDataRRSIG_wf r" "off \<le> length buf"
  then show "RDataRRSIG_Pack (Some r) buf off = Inr (n, buf') \<longleftrightarrow>
      n = length (RDataRRSIG_enc r) \<and> off + n \<le> length buf \<and> buf' = put_at buf off (RDataRRSIG_enc r)"
    by (auto simp: RDataRRSIG_defs and_then_Inr pack_name_iff codec_simps)
next
  fix r :: RDataRRSIG and buf :: bytes and off :: nat and rdlength :: uint16
  assume "RDataRRSIG_wf r" "holds buf off (RDataRRSIG_enc r)" "unat rdlength = length (RDataRRSIG_enc r)"
  then show "RDataRRSIG_Unpack (Some RDataRRSIG_zero) buf off rdlength =
      Inr (length (RDataRRSIG_enc r), RDataRRSIG_canon r)"
    using holds_fits [of buf off "RDataRRSIG_enc r"]
    by (auto simp: RDataRRSIG_defs unpack_name_enc holds_be16 holds_be32 holds_subslice_eq)
qed (auto simp: RDataRRSIG_defs and_then_Inr split: if_splits option.splits dest: unpack_name_ok)

subsection \<open>NSEC\<close>

record RDataNSEC =
  nsec_NextDomain :: "name option"
  nsec_TypeBitMap :: "uint16 list"

definition RDataNSEC_Pack :: "RDataNSEC option \<Rightarrow> bytes \<Rightarrow> nat \<Rightarrow> (nat \<times> bytes) result" where
  "RDataNSEC_Pack ro buf start =
     (case ro of None \<Rightarrow> Inl (Errorf ''nil NSEC record'')
      | Some r \<Rightarrow>
          and_then (wrap_err ''packing next domain'' (pack_name (nsec_NextDomain r) buf start)) (\<lambda>(n, buf).
          and_then (pack_bitmap (nsec_TypeBitMap r) buf (start + n)) (\<lambda>(off, buf).
          Inr (off - start, buf))))"

definition RDataNSEC_Unpack ::
  "RDataNSEC option \<Rightarrow> bytes \<Rightarrow> nat \<Rightarrow> uint16 \<Rightarrow> (nat \<times> RDataNSEC) result"
where
  "RDataNSEC_Unpack ro buf start rdlength =
     (case ro of None \<Rightarrow> Inl (Errorf ''nil NSEC record'')
      | Some r \<Rightarrow>
          let endOffset = start + unat rdlength in
          if endOffset > length buf then Inl ErrBufferTooSmall
          else
            and_then (wrap_err ''unpacking next domain'' (unpack_name buf start)) (\<lambda>(nextDomain, n).
            if start + n > endOffset then Inl ErrBufferTooSmall
            else
              and_then (unpack_bitmap buf (start + n) endOffset []) (\<lambda>(off, types).
              Inr (off - start, \<lparr>nsec_NextDomain = Some nextDomain, nsec_TypeBitMap = types\<rparr>))))"

definition RDataNSEC_Len :: "RDataNSEC option \<Rightarrow> nat" where
  "RDataNSEC_Len ro =
     (case ro of None \<Rightarrow> 0
      | Some r \<Rightarrow>
          (case nsec_NextDomain r of None \<Rightarrow> 1 | Some n \<Rightarrow> WireLength (Some n)) +
          bitmap_length (nsec_TypeBitMap r))"

definition RDataNSEC_zero :: RDataNSEC where
  "RDataNSEC_zero = \<lparr>nsec_NextDomain = None, nsec_TypeBitMap = []\<rparr>"

definition RDataNSEC_wf :: "RDataNSEC \<Rightarrow> bool" where
  "RDataNSEC_wf r \<longleftrightarrow> wf_oname (nsec_NextDomain r)"

definition RDataNSEC_enc :: "RDataNSEC \<Rightarrow> bytes" where
  "RDataNSEC_enc r = enc_name (nsec_NextDomain r) @ enc_bitmap (nsec_TypeBitMap r)"

definition RDataNSEC_canon :: "RDataNSEC \<Rightarrow> RDataNSEC" where
  "RDataNSEC_canon r =
     \<lparr>nsec_NextDomain = canon_name (nsec_NextDomain r), nsec_TypeBitMap = canon_types (nsec_TypeBitMap r)\<rparr>"

lemmas RDataNSEC_defs = RDataNSEC_Pack_def RDataNSEC_Unpack_def RDataNSEC_Len_def RDataNSEC_zero_def
  RDataNSEC_wf_def RDataNSEC_enc_def RDataNSEC_canon_def Let_def

interpretation NSEC: rdata_closed "\<lambda>r. RDataNSEC_Pack (Some r)" "\<lambda>r. RDataNSEC_Unpack (Some r)"
  "\<lambda>r. RDataNSEC_Len (Some r)" RDataNSEC_zero RDataNSEC_wf RDataNSEC_enc RDataNSEC_canon
proof unfold_locales
  fix r :: RDataNSEC and buf buf' :: bytes and off n :: nat
  assume "RDataNSEC_wf r" "off \<le> length buf"
  then show "RDataNSEC_Pack (Some r) buf off = Inr (n, buf') \<longleftrightarrow>
      n = length (RDataNSEC_enc r) \<and> off + n \<le> length buf \<and> buf' = put_at buf off (RDataNSEC_enc r)"
    by (auto simp: RDataNSEC_defs and_then_Inr pack_name_iff codec_simps pack_bitmap_iff)
next
  fix r :: RDataNSEC and buf :: bytes and off :: nat and rdlength :: uint16
  assume "RDataNSEC_wf r" "holds buf off (RDataNSEC_enc r)" "unat rdlength = length (RDataNSEC_enc r)"
  then show "RDataNSEC_Unpack (Some RDataNSEC_zero) buf off rdlength =
      Inr (length (RDataNSEC_enc r), RDataNSEC_canon r)"
    using holds_fits [of buf off "RDataNSEC_enc r"]
    by (auto simp: RDataNSEC_defs unpack_name_enc holds_be16 holds_be32 unpack_bitmap_to_end)
qed (auto simp: RDataNSEC_defs and_then_Inr split: if_splits option.splits dest: unpack_name_ok unpack_bitmap_ok simp: bitmap_length_enc enc_bitmap_canon)

subsection \<open>NSEC3\<close>

record RDataNSEC3 =
  nsec3_HashAlgorithm :: byte
  nsec3_Flags :: byte
  nsec3_Iterations :: uint16
  nsec3_Salt :: bytes
  nsec3_HashLength :: byte
  nsec3_NextHashed :: bytes
  nsec3_TypeBitMap :: "uint16 list"

definition RDataNSEC3_Pack :: "RDataNSEC3 option \<Rightarrow> bytes \<Rightarrow> nat \<Rightarrow> (nat \<times> bytes) result" where
  "RDataNSEC3_Pack ro buf start =
     (case ro of None \<Rightarrow> Inl (Errorf ''nil NSEC3 record'')
      | Some r \<Rightarrow>
          if start + 1 > length buf then Inl ErrBufferTooSmall else
          let buf = put_at buf start [nsec3_HashAlgorithm r]; off = start + 1 in
          if off + 1 > length buf then Inl ErrBufferTooSmall else
          let buf = put_at buf off [nsec3_Flags r]; off = off + 1 in
          if off + 2 > length buf then Inl ErrBufferTooSmall else
          let buf = PutUint16_at buf off (nsec3_Iterations r); off = off + 2 in
          if length (nsec3_Salt r) > 255 then Inl ErrLabelTooLong else
          if off + 1 > length buf then Inl ErrBufferTooSmall else
          let buf = put_at buf off [bytes_of (length (nsec3_Salt r))]; off = off + 1 in
          if off + length (nsec3_Salt r) > length buf then Inl ErrBufferTooSmall else
          let buf = put_at buf off (nsec3_Salt r); off = off + length (nsec3_Salt r) in
          if length (nsec3_NextHashed r) > 255 then Inl ErrLabelTooLong else
          if off + 1 > length buf then Inl ErrBufferTooSmall else
          let buf = put_at buf off [bytes_of (length (nsec3_NextHashed r))]; off = off + 1 in
          if off + length (nsec3_NextHashed r) > length buf then Inl ErrBufferTooSmall else
          let buf = put_at buf off (nsec3_NextHashed r); off = off + length (nsec3_NextHashed r) in
          and_then (pack_bitmap (nsec3_TypeBitMap r) buf off) (\<lambda>(off, buf). Inr (off - start, buf)))"

definition RDataNSEC3_Unpack ::
  "RDataNSEC3 option \<Rightarrow> bytes \<Rightarrow> nat \<Rightarrow> uint16 \<Rightarrow> (nat \<times> RDataNSEC3) result"
where
  "RDataNSEC3_Unpack ro buf start rdlength =
     (case ro of None \<Rightarrow> Inl (Errorf ''nil NSEC3 record'')
      | Some r \<Rightarrow>
          let endOffset = start + unat rdlength in
          if endOffset > length buf then Inl ErrBufferTooSmall
          else if start + 6 > endOffset then Inl ErrBufferTooSmall
          else
            let off = start + 1 + 1 + 2; saltLen = unat (buf ! off); off = off + 1 in
            if off + saltLen > endOffset then Inl ErrBufferTooSmall
            else
              let salt = subslice buf off saltLen; off = off + saltLen in
              if off \<ge> endOffset then Inl ErrBufferTooSmall
              else
                let hashLen = unat (buf ! off); off = off + 1 in
                if off + hashLen > endOffset then Inl ErrBufferTooSmall
                else
                  let nextHashed = subslice buf off hashLen in
                  and_then (unpack_bitmap buf (off + hashLen) endOffset []) (\<lambda>(off, types).
                  Inr (off - start,
                    \<lparr>nsec3_HashAlgorithm = buf ! start, nsec3_Flags = buf ! (start + 1),
                     nsec3_Iterations = Uint16 (drop (start + 1 + 1) buf), nsec3_Salt = salt,
                     nsec3_HashLength = bytes_of hashLen, nsec3_NextHashed = nextHashed,
                     nsec3_TypeBitMap = types\<rparr>)))"

definition RDataNSEC3_Len :: "RDataNSEC3 option \<Rightarrow> nat" where
  "RDataNSEC3_Len ro =
     (case ro of None \<Rightarrow> 0
      | Some r \<Rightarrow>
          1 + 1 + 2 + 1 + length (nsec3_Salt r) + 1 + length (nsec3_NextHashed r) +
          bitmap_length (nsec3_TypeBitMap r))"

definition RDataNSEC3_zero :: RDataNSEC3 where
  "RDataNSEC3_zero =
     \<lparr>nsec3_HashAlgorithm = 0, nsec3_Flags = 0, nsec3_Iterations = 0, nsec3_Salt = [],
      nsec3_HashLength = 0, nsec3_NextHashed = [], nsec3_TypeBitMap = []\<rparr>"

definition RDataNSEC3_wf :: "RDataNSEC3 \<Rightarrow> bool" where
  "RDataNSEC3_wf r \<longleftrightarrow> length (nsec3_Salt r) \<le> 255 \<and> length (nsec3_NextHashed r) \<le> 255"

definition RDataNSEC3_enc :: "RDataNSEC3 \<Rightarrow> bytes" where
  "RDataNSEC3_enc r =
     [nsec3_HashAlgorithm r] @ [nsec3_Flags r] @ be16 (nsec3_Iterations r) @
     enc_string (nsec3_Salt r) @ enc_string (nsec3_NextHashed r) @ enc_bitmap (nsec3_TypeBitMap r)"

text \<open>\<^verbatim>\<open>Unpack\<close> sets \<^verbatim>\<open>HashLength\<close> from the wire; \<^verbatim>\<open>Pack\<close> ignores it.\<close>

definition RDataNSEC3_canon :: "RDataNSEC3 \<Rightarrow> RDataNSEC3" where
  "RDataNSEC3_canon r =
     r\<lparr>nsec3_HashLength := bytes_of (length (nsec3_NextHashed r)),
       nsec3_TypeBitMap := canon_types (nsec3_TypeBitMap r)\<rparr>"

lemmas RDataNSEC3_defs = RDataNSEC3_Pack_def RDataNSEC3_Unpack_def RDataNSEC3_Len_def RDataNSEC3_zero_def
  RDataNSEC3_wf_def RDataNSEC3_enc_def RDataNSEC3_canon_def enc_string_def Let_def

interpretation NSEC3: rdata_closed "\<lambda>r. RDataNSEC3_Pack (Some r)" "\<lambda>r. RDataNSEC3_Unpack (Some r)"
  "\<lambda>r. RDataNSEC3_Len (Some r)" RDataNSEC3_zero RDataNSEC3_wf RDataNSEC3_enc RDataNSEC3_canon
proof unfold_locales
  fix r :: RDataNSEC3 and buf buf' :: bytes and off n :: nat
  assume "RDataNSEC3_wf r" "off \<le> length buf"
  then show "RDataNSEC3_Pack (Some r) buf off = Inr (n, buf') \<longleftrightarrow>
      n = length (RDataNSEC3_enc r) \<and> off + n \<le> length buf \<and> buf' = put_at buf off (RDataNSEC3_enc r)"
    by (auto simp: RDataNSEC3_defs and_then_Inr pack_name_iff codec_simps pack_bitmap_iff)
next
  fix r :: RDataNSEC3 and buf :: bytes and off :: nat and rdlength :: uint16
  assume "RDataNSEC3_wf r" "holds buf off (RDataNSEC3_enc r)" "unat rdlength = length (RDataNSEC3_enc r)"
  then show "RDataNSEC3_Unpack (Some RDataNSEC3_zero) buf off rdlength =
      Inr (length (RDataNSEC3_enc r), RDataNSEC3_canon r)"
    using holds_fits [of buf off "RDataNSEC3_enc r"]
    by (auto simp: RDataNSEC3_defs unpack_name_enc holds_be16 holds_be32 holds_subslice_eq unpack_bitmap_to_end)
qed (auto simp: RDataNSEC3_defs and_then_Inr split: if_splits option.splits dest: unpack_bitmap_ok simp: bitmap_length_enc enc_bitmap_canon length_subslice_le)

subsection \<open>NSEC3PARAM\<close>

record RDataNSEC3PARAM =
  param_HashAlgorithm :: byte
  param_Flags :: byte
  param_Iterations :: uint16
  param_Salt :: bytes

definition RDataNSEC3PARAM_Pack :: "RDataNSEC3PARAM option \<Rightarrow> bytes \<Rightarrow> nat \<Rightarrow> (nat \<times> bytes) result" where
  "RDataNSEC3PARAM_Pack ro buf start =
     (case ro of None \<Rightarrow> Inl (Errorf ''nil NSEC3PARAM record'')
      | Some r \<Rightarrow>
          if start + 1 > length buf then Inl ErrBufferTooSmall else
          let buf = put_at buf start [param_HashAlgorithm r]; off = start + 1 in
          if off + 1 > length buf then Inl ErrBufferTooSmall else
          let buf = put_at buf off [param_Flags r]; off = off + 1 in
          if off + 2 > length buf then Inl ErrBufferTooSmall else
          let buf = PutUint16_at buf off (param_Iterations r); off = off + 2 in
          if length (param_Salt r) > 255 then Inl ErrLabelTooLong else
          if off + 1 > length buf then Inl ErrBufferTooSmall else
          let buf = put_at buf off [bytes_of (length (param_Salt r))]; off = off + 1 in
          if off + length (param_Salt r) > length buf then Inl ErrBufferTooSmall
          else Inr (off + length (param_Salt r) - start, put_at buf off (param_Salt r)))"

definition RDataNSEC3PARAM_Unpack ::
  "RDataNSEC3PARAM option \<Rightarrow> bytes \<Rightarrow> nat \<Rightarrow> uint16 \<Rightarrow> (nat \<times> RDataNSEC3PARAM) result"
where
  "RDataNSEC3PARAM_Unpack ro buf start rdlength =
     (case ro of None \<Rightarrow> Inl (Errorf ''nil NSEC3PARAM record'')
      | Some r \<Rightarrow>
          let endOffset = start + unat rdlength in
          if endOffset > length buf then Inl ErrBufferTooSmall
          else if start + 5 > endOffset then Inl ErrBufferTooSmall
          else
            let off = start + 1 + 1 + 2; saltLen = unat (buf ! off); off = off + 1 in
            if off + saltLen > endOffset then Inl ErrBufferTooSmall
            else
              Inr (off + saltLen - start,
                \<lparr>param_HashAlgorithm = buf ! start, param_Flags = buf ! (start + 1),
                 param_Iterations = Uint16 (drop (start + 1 + 1) buf),
                 param_Salt = subslice buf off saltLen\<rparr>))"

definition RDataNSEC3PARAM_Len :: "RDataNSEC3PARAM option \<Rightarrow> nat" where
  "RDataNSEC3PARAM_Len ro = (case ro of None \<Rightarrow> 0 | Some r \<Rightarrow> 1 + 1 + 2 + 1 + length (param_Salt r))"

definition RDataNSEC3PARAM_zero :: RDataNSEC3PARAM where
  "RDataNSEC3PARAM_zero =
     \<lparr>param_HashAlgorithm = 0, param_Flags = 0, param_Iterations = 0, param_Salt = []\<rparr>"

definition RDataNSEC3PARAM_wf :: "RDataNSEC3PARAM \<Rightarrow> bool" where
  "RDataNSEC3PARAM_wf r \<longleftrightarrow> length (param_Salt r) \<le> 255"

definition RDataNSEC3PARAM_enc :: "RDataNSEC3PARAM \<Rightarrow> bytes" where
  "RDataNSEC3PARAM_enc r =
     [param_HashAlgorithm r] @ [param_Flags r] @ be16 (param_Iterations r) @ enc_string (param_Salt r)"

lemmas RDataNSEC3PARAM_defs = RDataNSEC3PARAM_Pack_def RDataNSEC3PARAM_Unpack_def RDataNSEC3PARAM_Len_def RDataNSEC3PARAM_zero_def
  RDataNSEC3PARAM_wf_def RDataNSEC3PARAM_enc_def enc_string_def Let_def

interpretation NSEC3PARAM: rdata_closed "\<lambda>r. RDataNSEC3PARAM_Pack (Some r)" "\<lambda>r. RDataNSEC3PARAM_Unpack (Some r)"
  "\<lambda>r. RDataNSEC3PARAM_Len (Some r)" RDataNSEC3PARAM_zero RDataNSEC3PARAM_wf RDataNSEC3PARAM_enc "\<lambda>r. r"
proof unfold_locales
  fix r :: RDataNSEC3PARAM and buf buf' :: bytes and off n :: nat
  assume "RDataNSEC3PARAM_wf r" "off \<le> length buf"
  then show "RDataNSEC3PARAM_Pack (Some r) buf off = Inr (n, buf') \<longleftrightarrow>
      n = length (RDataNSEC3PARAM_enc r) \<and> off + n \<le> length buf \<and> buf' = put_at buf off (RDataNSEC3PARAM_enc r)"
    by (auto simp: RDataNSEC3PARAM_defs and_then_Inr pack_name_iff codec_simps)
next
  fix r :: RDataNSEC3PARAM and buf :: bytes and off :: nat and rdlength :: uint16
  assume "RDataNSEC3PARAM_wf r" "holds buf off (RDataNSEC3PARAM_enc r)" "unat rdlength = length (RDataNSEC3PARAM_enc r)"
  then show "RDataNSEC3PARAM_Unpack (Some RDataNSEC3PARAM_zero) buf off rdlength =
      Inr (length (RDataNSEC3PARAM_enc r), r)"
    using holds_fits [of buf off "RDataNSEC3PARAM_enc r"]
    by (auto simp: RDataNSEC3PARAM_defs unpack_name_enc holds_be16 holds_be32 holds_subslice_eq)
qed (auto simp: RDataNSEC3PARAM_defs and_then_Inr split: if_splits option.splits simp: length_subslice_le)

end
