(* ===== verification/Svcb.thy ===== *)
theory Svcb
  imports RDataMail
begin

text \<open>
  SVCB and HTTPS record data, \<^verbatim>\<open>internal/protocol/types_svcb.go\<close>: the service parameters with the
  checks \<^verbatim>\<open>Pack\<close> makes of them, and the codecs.  \<^verbatim>\<open>Unpack\<close> reads parameters \<^verbatim>\<open>Pack\<close> would refuse, so the
  two types interpret \<open>rdata_codec\<close> and not \<open>rdata_closed\<close>.
\<close>

subsection \<open>Service parameters\<close>

definition SvcParamKeyMandatory :: uint16 where "SvcParamKeyMandatory = 0"
definition SvcParamKeyALPN :: uint16 where "SvcParamKeyALPN = 1"
definition SvcParamKeyNoDefaultALPN :: uint16 where "SvcParamKeyNoDefaultALPN = 2"
definition SvcParamKeyPort :: uint16 where "SvcParamKeyPort = 3"
definition SvcParamKeyIPv4Hint :: uint16 where "SvcParamKeyIPv4Hint = 4"
definition SvcParamKeyECH :: uint16 where "SvcParamKeyECH = 5"
definition SvcParamKeyIPv6Hint :: uint16 where "SvcParamKeyIPv6Hint = 6"
definition SvcParamKeyDOHPath :: uint16 where "SvcParamKeyDOHPath = 7"
definition maxSvcParamValueLen :: nat where "maxSvcParamValueLen = 0xffff"

lemmas svc_keys = SvcParamKeyMandatory_def SvcParamKeyALPN_def SvcParamKeyNoDefaultALPN_def
  SvcParamKeyPort_def SvcParamKeyIPv4Hint_def SvcParamKeyECH_def SvcParamKeyIPv6Hint_def
  SvcParamKeyDOHPath_def

record SvcParam =
  svc_Key :: uint16
  svc_Value :: bytes

text \<open>\<open>previous\<close> is \<^verbatim>\<open>previousKey\<close> when \<^verbatim>\<open>havePrevious\<close> is set.\<close>

definition validateSvcParamOrder :: "uint16 \<Rightarrow> uint16 option \<Rightarrow> error option" where
  "validateSvcParamOrder key previous =
     (case previous of None \<Rightarrow> None
      | Some p \<Rightarrow> if key \<le> p then Some (Errorf ''SvcParam keys must be strictly increasing'') else None)"

fun mandatoryKeys :: "bytes \<Rightarrow> uint16 list" where
  "mandatoryKeys (a # b # rest) = Uint16 [a, b] # mandatoryKeys rest"
| "mandatoryKeys _ = []"

fun validateMandatoryValue_loop :: "uint16 list \<Rightarrow> uint16 option \<Rightarrow> error option" where
  "validateMandatoryValue_loop [] previous = None"
| "validateMandatoryValue_loop (k # ks) previous =
     (if k = SvcParamKeyMandatory then Some (Errorf ''must not include mandatory'')
      else case validateSvcParamOrder k previous of
             Some e \<Rightarrow> Some e
           | None \<Rightarrow> validateMandatoryValue_loop ks (Some k))"

definition validateMandatoryValue :: "bytes \<Rightarrow> error option" where
  "validateMandatoryValue v = validateMandatoryValue_loop (mandatoryKeys v) None"

fun validateALPNValue_loop :: "bytes \<Rightarrow> error option" where
  "validateALPNValue_loop [] = None"
| "validateALPNValue_loop (b # rest) =
     (let protoLen = unat b
      in if protoLen = 0 then Some (Errorf ''empty protocol identifier'')
         else if protoLen > length rest then Some (Errorf ''truncated protocol identifier'')
         else validateALPNValue_loop (drop protoLen rest))"

definition validateALPNValue :: "bytes \<Rightarrow> error option" where
  "validateALPNValue v =
     (if v = [] then Some (Errorf ''empty protocol list'') else validateALPNValue_loop v)"

definition validateSvcParamValue :: "SvcParam \<Rightarrow> error option" where
  "validateSvcParamValue p =
     (let key = svc_Key p; len = length (svc_Value p);
          badLength = Some (Errorf ''invalid SvcParam length'')
      in if key = SvcParamKeyMandatory then
           if len = 0 \<or> len mod 2 \<noteq> 0 then badLength
           else map_option (Wrapf ''invalid SvcParam'') (validateMandatoryValue (svc_Value p))
         else if key = SvcParamKeyALPN then
           map_option (Wrapf ''invalid SvcParam'') (validateALPNValue (svc_Value p))
         else if key = SvcParamKeyNoDefaultALPN then if len \<noteq> 0 then badLength else None
         else if key = SvcParamKeyPort then if len \<noteq> 2 then badLength else None
         else if key = SvcParamKeyIPv4Hint then if len = 0 \<or> len mod 4 \<noteq> 0 then badLength else None
         else if key = SvcParamKeyIPv6Hint then if len = 0 \<or> len mod 16 \<noteq> 0 then badLength else None
         else None)"

text \<open>The state of the loop of \<^verbatim>\<open>validateSvcParams\<close>.\<close>

record svc_scan =
  scan_keys :: "uint16 list"
  scan_mandatory :: "uint16 list"
  scan_previous :: "uint16 option"
  scan_hasALPN :: bool
  scan_hasNoDefaultALPN :: bool

definition scan_param :: "SvcParam \<Rightarrow> svc_scan \<Rightarrow> svc_scan" where
  "scan_param p st =
     \<lparr>scan_keys = svc_Key p # scan_keys st,
      scan_mandatory =
        (if svc_Key p = SvcParamKeyMandatory then mandatoryKeys (svc_Value p) else scan_mandatory st),
      scan_previous = Some (svc_Key p),
      scan_hasALPN = (scan_hasALPN st \<or> svc_Key p = SvcParamKeyALPN),
      scan_hasNoDefaultALPN = (scan_hasNoDefaultALPN st \<or> svc_Key p = SvcParamKeyNoDefaultALPN)\<rparr>"

fun validateSvcParams_loop :: "SvcParam list \<Rightarrow> svc_scan \<Rightarrow> svc_scan result" where
  "validateSvcParams_loop [] st = Inr st"
| "validateSvcParams_loop (p # ps) st =
     (case validateSvcParamOrder (svc_Key p) (scan_previous st) of
        Some e \<Rightarrow> Inl e
      | None \<Rightarrow>
          if length (svc_Value p) > maxSvcParamValueLen then Inl (Errorf ''SvcParam value too long'')
          else case validateSvcParamValue p of
                 Some e \<Rightarrow> Inl e
               | None \<Rightarrow> validateSvcParams_loop ps (scan_param p st))"

definition validateSvcParams :: "SvcParam list \<Rightarrow> error option" where
  "validateSvcParams params =
     (case validateSvcParams_loop params
             \<lparr>scan_keys = [], scan_mandatory = [], scan_previous = None, scan_hasALPN = False,
              scan_hasNoDefaultALPN = False\<rparr> of
        Inl e \<Rightarrow> Some e
      | Inr st \<Rightarrow>
          if scan_hasNoDefaultALPN st \<and> \<not> scan_hasALPN st then
            Some (Errorf ''invalid SvcParams: no-default-alpn requires alpn'')
          else if \<exists>k \<in> set (scan_mandatory st). k \<notin> set (scan_keys st) then
            Some (Errorf ''invalid SvcParams: mandatory key is missing'')
          else None)"

definition svcParamsForMode :: "uint16 \<Rightarrow> SvcParam list \<Rightarrow> SvcParam list" where
  "svcParamsForMode priority params = (if priority = 0 then [] else params)"

subsection \<open>Names without compression\<close>

fun packNameUncompressed_loop :: "bytes list \<Rightarrow> bytes \<Rightarrow> nat \<Rightarrow> (nat \<times> bytes) result" where
  "packNameUncompressed_loop [] buf off = Inr (off, buf)"
| "packNameUncompressed_loop (l # ls) buf off =
     (if length l > MaxLabelLength then Inl ErrLabelTooLong
      else if off + 1 + length l > length buf then Inl ErrBufferTooSmall
      else
        let buf = put_at buf off [of_nat (length l)];
            off = off + 1;
            buf = put_at buf off (map toLower l)
        in packNameUncompressed_loop ls buf (off + length l))"

definition packNameUncompressed :: "name option \<Rightarrow> bytes \<Rightarrow> nat \<Rightarrow> (nat \<times> bytes) result" where
  "packNameUncompressed nm buf start =
     (if IsRoot nm then
        if start \<ge> length buf then Inl ErrBufferTooSmall else Inr (1, put_at buf start [0])
      else
        and_then (packNameUncompressed_loop (LabelsSlice nm) buf start) (\<lambda>(off, buf).
        if off \<ge> length buf then Inl ErrBufferTooSmall
        else
          let buf = put_at buf off [0]; off = off + 1
          in if off - start > MaxNameLength then Inl ErrNameTooLong else Inr (off - start, buf)))"

subsection \<open>SVCB\<close>

record RDataSVCB =
  svcb_Priority :: uint16
  svcb_Target :: "name option"
  svcb_Params :: "SvcParam list"

fun RDataSVCB_Pack_loop :: "SvcParam list \<Rightarrow> bytes \<Rightarrow> nat \<Rightarrow> (nat \<times> bytes) result" where
  "RDataSVCB_Pack_loop [] buf off = Inr (off, buf)"
| "RDataSVCB_Pack_loop (p # ps) buf off =
     (if off + 4 + length (svc_Value p) > length buf then Inl ErrBufferTooSmall
      else
        let buf = PutUint16_at buf off (svc_Key p);
            off = off + 2;
            buf = PutUint16_at buf off (of_nat (length (svc_Value p)));
            off = off + 2;
            buf = put_at buf off (svc_Value p)
        in RDataSVCB_Pack_loop ps buf (off + length (svc_Value p)))"

definition RDataSVCB_Pack :: "RDataSVCB option \<Rightarrow> bytes \<Rightarrow> nat \<Rightarrow> (nat \<times> bytes) result" where
  "RDataSVCB_Pack ro buf start =
     (case ro of None \<Rightarrow> Inl (Errorf ''nil SVCB record'')
      | Some r \<Rightarrow>
          if start + 2 > length buf then Inl ErrBufferTooSmall else
          let buf = PutUint16_at buf start (svcb_Priority r); off = start + 2 in
          and_then (packNameUncompressed (svcb_Target r) buf off) (\<lambda>(n, buf).
          let params = svcParamsForMode (svcb_Priority r) (svcb_Params r) in
          case validateSvcParams params of
            Some e \<Rightarrow> Inl e
          | None \<Rightarrow>
              and_then (RDataSVCB_Pack_loop params buf (off + n)) (\<lambda>(off, buf). Inr (off - start, buf))))"

function RDataSVCB_Unpack_loop ::
  "bytes \<Rightarrow> nat \<Rightarrow> nat \<Rightarrow> SvcParam list \<Rightarrow> (nat \<times> SvcParam list) result"
where
  "RDataSVCB_Unpack_loop buf off endOffset params =
     (if off < endOffset then
        if off + 4 > endOffset then Inl ErrBufferTooSmall
        else
          let key = Uint16 (drop off buf); valueLen = unat (Uint16 (drop (off + 2) buf)); off = off + 2 + 2
          in if off + valueLen > endOffset then Inl ErrBufferTooSmall
             else RDataSVCB_Unpack_loop buf (off + valueLen) endOffset
                    (params @ [\<lparr>svc_Key = key, svc_Value = subslice buf off valueLen\<rparr>])
      else Inr (off, params))"
  by pat_completeness auto
termination
  by (relation "measure (\<lambda>(buf, off, endOffset, params). endOffset - off)") (auto simp: Let_def)

declare RDataSVCB_Unpack_loop.simps [simp del]

definition RDataSVCB_Unpack ::
  "RDataSVCB option \<Rightarrow> bytes \<Rightarrow> nat \<Rightarrow> uint16 \<Rightarrow> (nat \<times> RDataSVCB) result"
where
  "RDataSVCB_Unpack ro buf start rdlength =
     (case ro of None \<Rightarrow> Inl (Errorf ''nil SVCB record'')
      | Some r \<Rightarrow>
          let endOffset = start + unat rdlength in
          if endOffset > length buf then Inl ErrBufferTooSmall
          else if start + 2 > endOffset then Inl ErrBufferTooSmall
          else
            let priority = Uint16 (drop start buf); off = start + 2 in
            and_then (unpack_name buf off) (\<lambda>(target, n).
            if off + n > endOffset then Inl ErrBufferTooSmall
            else
              and_then (RDataSVCB_Unpack_loop buf (off + n) endOffset []) (\<lambda>(off, params).
              if priority = 0 then
                Inr (off - start, \<lparr>svcb_Priority = priority, svcb_Target = Some target, svcb_Params = []\<rparr>)
              else
                Inr (off - start,
                  \<lparr>svcb_Priority = priority, svcb_Target = Some target, svcb_Params = params\<rparr>))))"

definition RDataSVCB_Len :: "RDataSVCB option \<Rightarrow> nat" where
  "RDataSVCB_Len ro =
     (case ro of None \<Rightarrow> 0
      | Some r \<Rightarrow>
          2 + (case svcb_Target r of None \<Rightarrow> 1 | Some n \<Rightarrow> WireLength (Some n)) +
          sum_list (map (\<lambda>p. 4 + length (svc_Value p)) (svcParamsForMode (svcb_Priority r) (svcb_Params r))))"

definition RDataSVCB_zero :: RDataSVCB where
  "RDataSVCB_zero = \<lparr>svcb_Priority = 0, svcb_Target = None, svcb_Params = []\<rparr>"

definition RDataSVCB_wf :: "RDataSVCB \<Rightarrow> bool" where
  "RDataSVCB_wf r \<longleftrightarrow> wf_oname (svcb_Target r) \<and>
     validateSvcParams (svcParamsForMode (svcb_Priority r) (svcb_Params r)) = None"

definition enc_param :: "SvcParam \<Rightarrow> bytes" where
  "enc_param p = be16 (svc_Key p) @ be16 (of_nat (length (svc_Value p))) @ svc_Value p"

definition enc_params :: "SvcParam list \<Rightarrow> bytes" where
  "enc_params ps = concat (map enc_param ps)"

definition RDataSVCB_enc :: "RDataSVCB \<Rightarrow> bytes" where
  "RDataSVCB_enc r =
     be16 (svcb_Priority r) @ enc_name (svcb_Target r) @
     enc_params (svcParamsForMode (svcb_Priority r) (svcb_Params r))"

definition RDataSVCB_canon :: "RDataSVCB \<Rightarrow> RDataSVCB" where
  "RDataSVCB_canon r =
     \<lparr>svcb_Priority = svcb_Priority r, svcb_Target = canon_name (svcb_Target r),
      svcb_Params = svcParamsForMode (svcb_Priority r) (svcb_Params r)\<rparr>"

lemma enc_params_simps [simp]:
  "enc_params [] = []" "enc_params (p # ps) = enc_param p @ enc_params ps"
  by (simp_all add: enc_params_def)

lemma length_enc_params: "length (enc_params ps) = sum_list (map (\<lambda>p. 4 + length (svc_Value p)) ps)"
  by (induction ps) (simp_all add: enc_param_def)

lemma RDataSVCB_Pack_loop_iff:
  "off \<le> length buf \<Longrightarrow>
   RDataSVCB_Pack_loop ps buf off = Inr (off', buf') \<longleftrightarrow>
     off' = off + length (enc_params ps) \<and> off' \<le> length buf \<and> buf' = put_at buf off (enc_params ps)"
proof (induction ps arbitrary: buf off)
  case (Cons p ps)
  then show ?case
    by (auto simp: Let_def enc_param_def codec_simps)
qed auto

lemma RDataSVCB_Unpack_loop_enc:
  assumes "holds buf off (enc_params ps)" "\<forall>p \<in> set ps. length (svc_Value p) < 65536"
    "endOffset = off + length (enc_params ps)"
  shows "RDataSVCB_Unpack_loop buf off endOffset acc = Inr (endOffset, acc @ ps)"
  using assms
proof (induction ps arbitrary: off acc)
  case Nil
  then show ?case
    by (subst RDataSVCB_Unpack_loop.simps) simp
next
  case (Cons p ps)
  have "RDataSVCB_Unpack_loop buf (off + length (enc_param p)) endOffset (acc @ [p]) =
      Inr (endOffset, (acc @ [p]) @ ps)"
    using Cons.prems by (intro Cons.IH) (simp_all add: add.assoc)
  moreover have "holds buf off (enc_param p)"
    using Cons.prems(1) by simp
  moreover obtain k v where "p = \<lparr>svc_Key = k, svc_Value = v\<rparr>"
    by (cases p)
  ultimately show ?case
    using Cons.prems(2,3)
    by (subst RDataSVCB_Unpack_loop.simps)
      (auto simp: enc_param_def Let_def holds_be16 holds_subslice_eq)
qed

lemma RDataSVCB_Unpack_loop_end: "RDataSVCB_Unpack_loop buf off off acc = Inr (off, acc)"
  by (subst RDataSVCB_Unpack_loop.simps) simp

lemma RDataSVCB_Unpack_loop_ok:
  "RDataSVCB_Unpack_loop buf off endOffset acc = Inr (off', ps) \<Longrightarrow> off \<le> endOffset \<Longrightarrow> off' = endOffset"
proof (induction buf off endOffset acc rule: RDataSVCB_Unpack_loop.induct)
  case (1 buf off endOffset acc)
  then show ?case
    by (subst (asm) (2) RDataSVCB_Unpack_loop.simps) (auto simp: Let_def split: if_splits)
qed

lemma packNameUncompressed_loop_iff:
  "\<forall>l \<in> set ls. valid_label l \<Longrightarrow> off \<le> length buf \<Longrightarrow>
   packNameUncompressed_loop ls buf off = Inr (off', buf') \<longleftrightarrow>
     off' = off + length (enc_labels ls) \<and> off' \<le> length buf \<and>
     buf' = put_at buf off (enc_labels (lower_labels ls))"
proof (induction ls arbitrary: buf off)
  case (Cons l ls)
  then have "length l \<le> MaxLabelLength"
    by (simp add: valid_label_def name_limits)
  with Cons show ?case
    by (auto simp: Let_def codec_simps)
qed auto

lemma packNameUncompressed_iff:
  assumes "wf_oname nm" "off \<le> length buf"
  shows "packNameUncompressed nm buf off = Inr (n, buf') \<longleftrightarrow>
    n = length (enc_name nm) \<and> off + n \<le> length buf \<and> buf' = put_at buf off (enc_name nm)"
proof (cases nm)
  case None
  then show ?thesis
    by (auto simp: packNameUncompressed_def IsRoot_def enc_name_def)
next
  case (Some nm')
  then obtain ls where ls: "nm = Some (NewName ls)" "wf_labels ls"
    using assms(1) by (auto elim: wf_nameE)
  then have valid: "\<forall>l \<in> set ls. valid_label l" and len: "length (enc_labels ls) < MaxNameLength"
    by (simp_all add: wf_labels_def name_limits)
  have "IsRoot nm \<longleftrightarrow> ls = []"
    using valid by (cases ls) (auto simp: ls IsRoot_def NewName_def canonicalWire_enc valid_label_def)
  moreover have "LabelsSlice nm = ls"
    using labelsFromWire_canonical [OF valid, of "[]"] by (simp add: ls LabelsSlice_def NewName_def canonicalWire_enc)
  ultimately show ?thesis
    using valid len assms(2) enc_name_NewName [OF ls(2)]
    by (auto simp: packNameUncompressed_def ls and_then_Inr packNameUncompressed_loop_iff codec_simps
        simp del: length_enc_name)
qed

lemma validateSvcParams_loop_lengths:
  "validateSvcParams_loop ps st = Inr st' \<Longrightarrow> \<forall>p \<in> set ps. length (svc_Value p) \<le> maxSvcParamValueLen"
  by (induction ps arbitrary: st) (auto split: option.splits if_splits)

lemma validateSvcParams_lengths:
  "validateSvcParams ps = None \<Longrightarrow> \<forall>p \<in> set ps. length (svc_Value p) < 65536"
  by (auto simp: validateSvcParams_def maxSvcParamValueLen_def split: sum.splits if_splits
      dest!: validateSvcParams_loop_lengths)

lemmas RDataSVCB_defs = RDataSVCB_Pack_def RDataSVCB_Unpack_def RDataSVCB_Len_def RDataSVCB_zero_def
  RDataSVCB_wf_def RDataSVCB_enc_def RDataSVCB_canon_def Let_def

interpretation SVCB: rdata_codec "\<lambda>r. RDataSVCB_Pack (Some r)" "\<lambda>r. RDataSVCB_Unpack (Some r)"
  "\<lambda>r. RDataSVCB_Len (Some r)" RDataSVCB_zero RDataSVCB_wf RDataSVCB_enc RDataSVCB_canon
proof unfold_locales
  fix r :: RDataSVCB and buf buf' :: bytes and off n :: nat
  assume "RDataSVCB_wf r" "off \<le> length buf"
  then show "RDataSVCB_Pack (Some r) buf off = Inr (n, buf') \<longleftrightarrow>
      n = length (RDataSVCB_enc r) \<and> off + n \<le> length buf \<and> buf' = put_at buf off (RDataSVCB_enc r)"
    by (auto simp: RDataSVCB_defs and_then_Inr pack_name_iff codec_simps packNameUncompressed_iff RDataSVCB_Pack_loop_iff)
next
  fix r :: RDataSVCB and buf :: bytes and off :: nat and rdlength :: uint16
  assume "RDataSVCB_wf r" "holds buf off (RDataSVCB_enc r)" "unat rdlength = length (RDataSVCB_enc r)"
  then show "RDataSVCB_Unpack (Some RDataSVCB_zero) buf off rdlength =
      Inr (length (RDataSVCB_enc r), RDataSVCB_canon r)"
    using holds_fits [of buf off "RDataSVCB_enc r"]
    by (auto simp: RDataSVCB_defs unpack_name_enc holds_be16 holds_be32 RDataSVCB_Unpack_loop_enc RDataSVCB_Unpack_loop_end validateSvcParams_lengths svcParamsForMode_def)
qed (auto simp: RDataSVCB_defs and_then_Inr split: if_splits option.splits dest: unpack_name_ok RDataSVCB_Unpack_loop_ok simp: length_enc_params svcParamsForMode_def)

subsection \<open>HTTPS\<close>

record RDataHTTPS =
  https_Priority :: uint16
  https_Target :: "name option"
  https_Params :: "SvcParam list"

definition https_inner :: "RDataHTTPS \<Rightarrow> RDataSVCB" where
  "https_inner r =
     \<lparr>svcb_Priority = https_Priority r, svcb_Target = https_Target r, svcb_Params = https_Params r\<rparr>"

definition https_of :: "RDataSVCB \<Rightarrow> RDataHTTPS" where
  "https_of r =
     \<lparr>https_Priority = svcb_Priority r, https_Target = svcb_Target r, https_Params = svcb_Params r\<rparr>"

definition RDataHTTPS_Pack :: "RDataHTTPS option \<Rightarrow> bytes \<Rightarrow> nat \<Rightarrow> (nat \<times> bytes) result" where
  "RDataHTTPS_Pack ro buf off =
     (case ro of None \<Rightarrow> Inl (Errorf ''nil HTTPS record'')
      | Some r \<Rightarrow> RDataSVCB_Pack (Some (https_inner r)) buf off)"

definition RDataHTTPS_Unpack ::
  "RDataHTTPS option \<Rightarrow> bytes \<Rightarrow> nat \<Rightarrow> uint16 \<Rightarrow> (nat \<times> RDataHTTPS) result"
where
  "RDataHTTPS_Unpack ro buf off rdlength =
     (case ro of None \<Rightarrow> Inl (Errorf ''nil HTTPS record'')
      | Some r \<Rightarrow>
          and_then (RDataSVCB_Unpack (Some RDataSVCB_zero) buf off rdlength) (\<lambda>(n, inner).
          Inr (n, https_of inner)))"

definition RDataHTTPS_Len :: "RDataHTTPS option \<Rightarrow> nat" where
  "RDataHTTPS_Len ro = (case ro of None \<Rightarrow> 0 | Some r \<Rightarrow> RDataSVCB_Len (Some (https_inner r)))"

definition RDataHTTPS_zero :: RDataHTTPS where
  "RDataHTTPS_zero = \<lparr>https_Priority = 0, https_Target = None, https_Params = []\<rparr>"

definition RDataHTTPS_wf :: "RDataHTTPS \<Rightarrow> bool" where "RDataHTTPS_wf r \<longleftrightarrow> RDataSVCB_wf (https_inner r)"

definition RDataHTTPS_enc :: "RDataHTTPS \<Rightarrow> bytes" where "RDataHTTPS_enc r = RDataSVCB_enc (https_inner r)"

definition RDataHTTPS_canon :: "RDataHTTPS \<Rightarrow> RDataHTTPS" where
  "RDataHTTPS_canon r = https_of (RDataSVCB_canon (https_inner r))"

lemma https_inner_of [simp]: "https_inner (https_of r) = r"
  by (simp add: https_inner_def https_of_def)

lemmas RDataHTTPS_defs = RDataHTTPS_Pack_def RDataHTTPS_Unpack_def RDataHTTPS_Len_def
  RDataHTTPS_wf_def RDataHTTPS_enc_def RDataHTTPS_canon_def

interpretation HTTPS: rdata_codec "\<lambda>r. RDataHTTPS_Pack (Some r)" "\<lambda>r. RDataHTTPS_Unpack (Some r)"
  "\<lambda>r. RDataHTTPS_Len (Some r)" RDataHTTPS_zero RDataHTTPS_wf RDataHTTPS_enc RDataHTTPS_canon
  by unfold_locales
    (auto simp: RDataHTTPS_defs and_then_Inr SVCB.pack_iff SVCB.len_enc SVCB.unpack_enc SVCB.canon_wf
      SVCB.canon_enc dest: SVCB.unpack_bound)

subsection \<open>What the checks accept\<close>

lemma validateSvcParamOrder_None:
  "validateSvcParamOrder k previous = None \<longleftrightarrow> (\<forall>p. previous = Some p \<longrightarrow> p < k)"
  by (auto simp: validateSvcParamOrder_def split: option.splits)

definition increasing_from :: "uint16 option \<Rightarrow> uint16 list \<Rightarrow> bool" where
  "increasing_from previous ks \<longleftrightarrow>
     sorted_wrt (<) ks \<and> (\<forall>p k. previous = Some p \<and> k \<in> set ks \<longrightarrow> p < k)"

lemma increasing_from_simps [simp]:
  "increasing_from previous []"
  "increasing_from previous (k # ks) \<longleftrightarrow> validateSvcParamOrder k previous = None \<and> increasing_from (Some k) ks"
  by (auto simp: increasing_from_def validateSvcParamOrder_None)

lemma validateSvcParams_loop_iff:
  "validateSvcParams_loop ps st = Inr st' \<longleftrightarrow>
     increasing_from (scan_previous st) (map svc_Key ps) \<and>
     (\<forall>p \<in> set ps. length (svc_Value p) \<le> maxSvcParamValueLen \<and> validateSvcParamValue p = None) \<and>
     st' = fold scan_param ps st"
  by (induction ps arbitrary: st) (auto simp: scan_param_def split: option.splits)

lemma fold_scan_param:
  "scan_keys (fold scan_param ps st) = rev (map svc_Key ps) @ scan_keys st"
  "scan_hasALPN (fold scan_param ps st) \<longleftrightarrow> scan_hasALPN st \<or> SvcParamKeyALPN \<in> svc_Key ` set ps"
  "scan_hasNoDefaultALPN (fold scan_param ps st) \<longleftrightarrow>
     scan_hasNoDefaultALPN st \<or> SvcParamKeyNoDefaultALPN \<in> svc_Key ` set ps"
  by (induction ps arbitrary: st) (auto simp: scan_param_def)

lemma fold_scan_mandatory:
  "distinct (map svc_Key ps) \<Longrightarrow>
   scan_mandatory (fold scan_param ps st) =
     (case find (\<lambda>p. svc_Key p = SvcParamKeyMandatory) ps of
        None \<Rightarrow> scan_mandatory st | Some p \<Rightarrow> mandatoryKeys (svc_Value p))"
proof (induction ps arbitrary: st)
  case (Cons p ps)
  have "find (\<lambda>p. svc_Key p = SvcParamKeyMandatory) ps = None" if "svc_Key p = SvcParamKeyMandatory"
    using Cons.prems that by (force simp: find_None_iff)
  with Cons show ?case
    by (auto simp: scan_param_def split: option.splits)
qed simp

lemma find_mandatory:
  "(\<forall>p. find (\<lambda>p. svc_Key p = SvcParamKeyMandatory) ps = Some p \<longrightarrow> Q p) \<longleftrightarrow>
     (\<forall>p \<in> set ps. svc_Key p = SvcParamKeyMandatory \<longrightarrow> Q p)" if "distinct (map svc_Key ps)"
  using that by (induction ps) (auto simp: image_iff)

lemma strictly_increasing_distinct: "sorted_wrt (<) (ks :: uint16 list) \<Longrightarrow> distinct ks"
  by (simp add: strict_sorted_iff)

definition scan_start :: svc_scan where
  "scan_start =
     \<lparr>scan_keys = [], scan_mandatory = [], scan_previous = None, scan_hasALPN = False,
      scan_hasNoDefaultALPN = False\<rparr>"

lemma validateSvcParams_None:
  "validateSvcParams ps = None \<longleftrightarrow>
     (\<exists>st. validateSvcParams_loop ps scan_start = Inr st \<and> (scan_hasNoDefaultALPN st \<longrightarrow> scan_hasALPN st) \<and>
       set (scan_mandatory st) \<subseteq> set (scan_keys st))"
  unfolding validateSvcParams_def scan_start_def [symmetric]
  by (auto split: sum.splits)

definition mandatory_met :: "SvcParam list \<Rightarrow> SvcParam \<Rightarrow> bool" where
  "mandatory_met ps p \<longleftrightarrow> set (mandatoryKeys (svc_Value p)) \<subseteq> svc_Key ` set ps"

lemma scan_mandatory_met:
  assumes "distinct (map svc_Key ps)"
  shows "set (scan_mandatory (fold scan_param ps scan_start)) \<subseteq> set (scan_keys (fold scan_param ps scan_start))
    \<longleftrightarrow> (\<forall>p \<in> set ps. svc_Key p = SvcParamKeyMandatory \<longrightarrow> mandatory_met ps p)"
  using find_mandatory [OF assms, of "mandatory_met ps"] fold_scan_mandatory [OF assms, of scan_start]
  by (simp add: fold_scan_param mandatory_met_def scan_start_def split: option.splits)

lemma validateSvcParams_iff:
  "validateSvcParams ps = None \<longleftrightarrow>
     sorted_wrt (<) (map svc_Key ps) \<and>
     (\<forall>p \<in> set ps. length (svc_Value p) \<le> 65535 \<and> validateSvcParamValue p = None) \<and>
     (SvcParamKeyNoDefaultALPN \<in> svc_Key ` set ps \<longrightarrow> SvcParamKeyALPN \<in> svc_Key ` set ps) \<and>
     (\<forall>p \<in> set ps. svc_Key p = SvcParamKeyMandatory \<longrightarrow> mandatory_met ps p)"
proof (cases "sorted_wrt (<) (map svc_Key ps)")
  case True
  have "increasing_from None (map svc_Key ps)"
    using True by (simp add: increasing_from_def)
  then show ?thesis
    using True unfolding validateSvcParams_None validateSvcParams_loop_iff
    by (simp add: fold_scan_param scan_mandatory_met [OF strictly_increasing_distinct [OF True], symmetric])
      (simp add: fold_scan_param scan_start_def maxSvcParamValueLen_def conj_assoc)
next
  case False
  then show ?thesis
    by (simp add: validateSvcParams_None validateSvcParams_loop_iff increasing_from_def)
qed



text \<open>C36: An SVCB record with no-default-alpn and no alpn is read from the wire, and no buffer takes
  it back: the record is accepted from an upstream and cannot be passed on.\<close>

theorem SVCB_not_forwarded:
  "\<exists>r. RDataSVCB_Unpack (Some RDataSVCB_zero) [0, 1, 0, 0, 2, 0, 0] 0 7 = Inr (7, r) \<and>
     (\<forall>buf off. \<exists>e. RDataSVCB_Pack (Some r) buf off = Inl e)"
proof (rule exI, intro conjI allI)
  let ?r = "\<lparr>svcb_Priority = 1, svcb_Target = Some (Name [0]),
             svcb_Params = [\<lparr>svc_Key = 2, svc_Value = []\<rparr>]\<rparr>"
  let ?b = "[0, 1, 0, 0, 2, 0, 0] :: bytes"
  have "unpack_name ?b 2 = Inr (Name [0], 1)"
    unfolding unpack_name_def by code_simp
  moreover have "RDataSVCB_Unpack_loop ?b 3 7 [] = Inr (7, svcb_Params ?r)"
    by (simp add: RDataSVCB_Unpack_loop.simps Let_def Uint16_def BigEndian_Uint16_def of_be16_def subslice_def)
  ultimately show "RDataSVCB_Unpack (Some RDataSVCB_zero) ?b 0 7 = Inr (7, ?r)"
    by (simp add: RDataSVCB_Unpack_def Uint16_def BigEndian_Uint16_def of_be16_def Let_def flip: numeral_2_eq_2)
  fix buf off
  have "validateSvcParams [\<lparr>svc_Key = 2, svc_Value = []\<rparr>] =
      Some (Errorf ''invalid SvcParams: no-default-alpn requires alpn'')"
    by (simp add: validateSvcParams_def validateSvcParamOrder_def validateSvcParamValue_def svc_keys
        scan_param_def)
  then have "\<forall>x. RDataSVCB_Pack (Some ?r) buf off \<noteq> Inr x"
    by (auto simp: RDataSVCB_Pack_def svcParamsForMode_def and_then_Inr Let_def)
  then show "\<exists>e. RDataSVCB_Pack (Some ?r) buf off = Inl e"
    by (cases "RDataSVCB_Pack (Some ?r) buf off") auto
qed

end
