(* ===== verification/RDataAddress.thy ===== *)
theory RDataAddress
  imports RDataBase
begin

text \<open>
  Address record data, \<^verbatim>\<open>internal/protocol/types_address.go\<close>: A, AAAA, LOC, APL and the types that
  hold one name, CNAME, DNAME, NS and PTR.  A Go array of octets is a list whose length is part of
  well-formedness.  Every type interprets the contract of record data.
\<close>

unbundle bit_operations_syntax

subsection \<open>A\<close>

record RDataA =
  a_Address :: bytes

definition To4 :: "bytes \<Rightarrow> bytes option" where
  "To4 ip =
     (if length ip = 4 then Some ip
      else if length ip = 16 \<and> take 10 ip = replicate 10 0 \<and> ip ! 10 = 0xFF \<and> ip ! 11 = 0xFF
      then Some (drop 12 ip)
      else None)"

definition To16 :: "bytes \<Rightarrow> bytes option" where
  "To16 ip =
     (if length ip = 4 then Some (replicate 10 0 @ [0xFF, 0xFF] @ ip)
      else if length ip = 16 then Some ip
      else None)"

definition RDataA_Pack :: "RDataA option \<Rightarrow> bytes \<Rightarrow> nat \<Rightarrow> (nat \<times> bytes) result" where
  "RDataA_Pack ro buf off =
     (case ro of None \<Rightarrow> Inl (Errorf ''nil A record'')
      | Some r \<Rightarrow>
          if off + 4 > length buf then Inl ErrBufferTooSmall
          else Inr (4, put_at buf off (a_Address r)))"

definition RDataA_Unpack :: "RDataA option \<Rightarrow> bytes \<Rightarrow> nat \<Rightarrow> uint16 \<Rightarrow> (nat \<times> RDataA) result" where
  "RDataA_Unpack ro buf off rdlength =
     (case ro of None \<Rightarrow> Inl (Errorf ''nil A record'')
      | Some r \<Rightarrow>
          if rdlength \<noteq> 4 then Inl (Errorf ''invalid A record length'')
          else if off + 4 > length buf then Inl ErrBufferTooSmall
          else Inr (4, r\<lparr>a_Address := subslice buf off 4\<rparr>))"

definition RDataA_Len :: "RDataA option \<Rightarrow> nat" where
  "RDataA_Len ro = (case ro of None \<Rightarrow> 0 | Some r \<Rightarrow> 4)"

definition RDataA_SetIP :: "RDataA option \<Rightarrow> bytes \<Rightarrow> RDataA option" where
  "RDataA_SetIP ro ip =
     map_option (\<lambda>r. case To4 ip of Some v4 \<Rightarrow> r\<lparr>a_Address := v4\<rparr> | None \<Rightarrow> r) ro"

definition RDataA_zero :: RDataA where "RDataA_zero = \<lparr>a_Address = replicate 4 0\<rparr>"

definition RDataA_wf :: "RDataA \<Rightarrow> bool" where "RDataA_wf r \<longleftrightarrow> length (a_Address r) = 4"

lemmas RDataA_defs = RDataA_Pack_def RDataA_Unpack_def RDataA_Len_def RDataA_wf_def RDataA_zero_def

interpretation A: rdata_closed "\<lambda>r. RDataA_Pack (Some r)" "\<lambda>r. RDataA_Unpack (Some r)"
  "\<lambda>r. RDataA_Len (Some r)" RDataA_zero RDataA_wf a_Address "\<lambda>r. r"
  by unfold_locales (auto simp: RDataA_defs rdlength_eq holds_subslice_eq split: if_splits dest: holds_fits)

subsection \<open>AAAA\<close>

record RDataAAAA =
  aaaa_Address :: bytes

definition RDataAAAA_Pack :: "RDataAAAA option \<Rightarrow> bytes \<Rightarrow> nat \<Rightarrow> (nat \<times> bytes) result" where
  "RDataAAAA_Pack ro buf off =
     (case ro of None \<Rightarrow> Inl (Errorf ''nil AAAA record'')
      | Some r \<Rightarrow>
          if off + 16 > length buf then Inl ErrBufferTooSmall
          else Inr (16, put_at buf off (aaaa_Address r)))"

definition RDataAAAA_Unpack ::
  "RDataAAAA option \<Rightarrow> bytes \<Rightarrow> nat \<Rightarrow> uint16 \<Rightarrow> (nat \<times> RDataAAAA) result"
where
  "RDataAAAA_Unpack ro buf off rdlength =
     (case ro of None \<Rightarrow> Inl (Errorf ''nil AAAA record'')
      | Some r \<Rightarrow>
          if rdlength \<noteq> 16 then Inl (Errorf ''invalid AAAA record length'')
          else if off + 16 > length buf then Inl ErrBufferTooSmall
          else Inr (16, r\<lparr>aaaa_Address := subslice buf off 16\<rparr>))"

definition RDataAAAA_Len :: "RDataAAAA option \<Rightarrow> nat" where
  "RDataAAAA_Len ro = (case ro of None \<Rightarrow> 0 | Some r \<Rightarrow> 16)"

definition RDataAAAA_SetIP :: "RDataAAAA option \<Rightarrow> bytes \<Rightarrow> RDataAAAA option" where
  "RDataAAAA_SetIP ro ip =
     map_option (\<lambda>r. case To16 ip of Some v6 \<Rightarrow> r\<lparr>aaaa_Address := v6\<rparr> | None \<Rightarrow> r) ro"

definition RDataAAAA_zero :: RDataAAAA where "RDataAAAA_zero = \<lparr>aaaa_Address = replicate 16 0\<rparr>"

definition RDataAAAA_wf :: "RDataAAAA \<Rightarrow> bool" where
  "RDataAAAA_wf r \<longleftrightarrow> length (aaaa_Address r) = 16"

lemmas RDataAAAA_defs = RDataAAAA_Pack_def RDataAAAA_Unpack_def RDataAAAA_Len_def RDataAAAA_wf_def
  RDataAAAA_zero_def

interpretation AAAA: rdata_closed "\<lambda>r. RDataAAAA_Pack (Some r)" "\<lambda>r. RDataAAAA_Unpack (Some r)"
  "\<lambda>r. RDataAAAA_Len (Some r)" RDataAAAA_zero RDataAAAA_wf aaaa_Address "\<lambda>r. r"
  by unfold_locales (auto simp: RDataAAAA_defs rdlength_eq holds_subslice_eq split: if_splits dest: holds_fits)

lemma SetIP_wf:
  "RDataA_wf r \<Longrightarrow> RDataA_SetIP (Some r) ip = Some r' \<Longrightarrow> RDataA_wf r'"
  "RDataAAAA_wf s \<Longrightarrow> RDataAAAA_SetIP (Some s) ip = Some s' \<Longrightarrow> RDataAAAA_wf s'"
  by (auto simp: RDataA_SetIP_def RDataAAAA_SetIP_def RDataA_wf_def RDataAAAA_wf_def To4_def To16_def
      split: if_splits)

subsection \<open>LOC\<close>

record RDataLOC =
  loc_Version :: byte
  loc_Size :: byte
  loc_HorizPrecision :: byte
  loc_VertPrecision :: byte
  loc_Latitude :: uint32
  loc_Longitude :: uint32
  loc_Altitude :: uint32

definition RDataLOC_Pack :: "RDataLOC option \<Rightarrow> bytes \<Rightarrow> nat \<Rightarrow> (nat \<times> bytes) result" where
  "RDataLOC_Pack ro buf off =
     (case ro of None \<Rightarrow> Inl (Errorf ''nil LOC record'')
      | Some r \<Rightarrow>
          if loc_Version r \<noteq> 0 then Inl (Errorf ''unsupported LOC version'')
          else if off + 16 > length buf then Inl ErrBufferTooSmall
          else
            let buf = put_at buf off [loc_Version r];
                buf = put_at buf (off + 1) [loc_Size r];
                buf = put_at buf (off + 2) [loc_HorizPrecision r];
                buf = put_at buf (off + 3) [loc_VertPrecision r];
                buf = PutUint32_at buf (off + 4) (loc_Latitude r);
                buf = PutUint32_at buf (off + 8) (loc_Longitude r);
                buf = PutUint32_at buf (off + 12) (loc_Altitude r)
            in Inr (16, buf))"

definition RDataLOC_Unpack ::
  "RDataLOC option \<Rightarrow> bytes \<Rightarrow> nat \<Rightarrow> uint16 \<Rightarrow> (nat \<times> RDataLOC) result"
where
  "RDataLOC_Unpack ro buf off rdlength =
     (case ro of None \<Rightarrow> Inl (Errorf ''nil LOC record'')
      | Some r \<Rightarrow>
          if rdlength \<noteq> 16 then Inl (Errorf ''invalid LOC record length'')
          else if off + 16 > length buf then Inl ErrBufferTooSmall
          else if buf ! off \<noteq> 0 then Inl (Errorf ''unsupported LOC version'')
          else Inr (16, r\<lparr>loc_Version := buf ! off, loc_Size := buf ! (off + 1),
                         loc_HorizPrecision := buf ! (off + 2), loc_VertPrecision := buf ! (off + 3),
                         loc_Latitude := Uint32 (drop (off + 4) buf),
                         loc_Longitude := Uint32 (drop (off + 8) buf),
                         loc_Altitude := Uint32 (drop (off + 12) buf)\<rparr>))"

definition RDataLOC_Len :: "RDataLOC option \<Rightarrow> nat" where
  "RDataLOC_Len ro = (case ro of None \<Rightarrow> 0 | Some r \<Rightarrow> 16)"

definition RDataLOC_zero :: RDataLOC where
  "RDataLOC_zero =
     \<lparr>loc_Version = 0, loc_Size = 0, loc_HorizPrecision = 0, loc_VertPrecision = 0, loc_Latitude = 0,
      loc_Longitude = 0, loc_Altitude = 0\<rparr>"

definition RDataLOC_wf :: "RDataLOC \<Rightarrow> bool" where "RDataLOC_wf r \<longleftrightarrow> loc_Version r = 0"

definition RDataLOC_enc :: "RDataLOC \<Rightarrow> bytes" where
  "RDataLOC_enc r =
     [loc_Version r, loc_Size r, loc_HorizPrecision r, loc_VertPrecision r] @
     be32 (loc_Latitude r) @ be32 (loc_Longitude r) @ be32 (loc_Altitude r)"

lemmas RDataLOC_defs = RDataLOC_Pack_def RDataLOC_Unpack_def RDataLOC_Len_def RDataLOC_wf_def
  RDataLOC_zero_def RDataLOC_enc_def

interpretation LOC: rdata_closed "\<lambda>r. RDataLOC_Pack (Some r)" "\<lambda>r. RDataLOC_Unpack (Some r)"
  "\<lambda>r. RDataLOC_Len (Some r)" RDataLOC_zero RDataLOC_wf RDataLOC_enc "\<lambda>r. r"
proof unfold_locales
  fix r :: RDataLOC and buf off n buf'
  assume "RDataLOC_wf r"
  then show "RDataLOC_Pack (Some r) buf off = Inr (n, buf') \<longleftrightarrow>
      n = length (RDataLOC_enc r) \<and> off + n \<le> length buf \<and> buf' = put_at buf off (RDataLOC_enc r)"
    by (auto simp: RDataLOC_defs codec_simps Let_def)
next
  fix r :: RDataLOC and buf off and rdlength :: uint16
  assume "RDataLOC_wf r" "unat rdlength = length (RDataLOC_enc r)" and h: "holds buf off (RDataLOC_enc r)"
  moreover from h have "buf ! off = loc_Version r" "buf ! (off + 1) = loc_Size r"
    "buf ! (off + 2) = loc_HorizPrecision r" "buf ! (off + 3) = loc_VertPrecision r"
    "holds buf (off + 4) (be32 (loc_Latitude r))" "holds buf (off + 8) (be32 (loc_Longitude r))"
    "holds buf (off + 12) (be32 (loc_Altitude r))"
    by (simp_all add: RDataLOC_enc_def eval_nat_numeral)
  moreover have "off + 16 \<le> length buf"
    using holds_fits [OF h] by (simp add: RDataLOC_enc_def)
  ultimately show "RDataLOC_Unpack (Some RDataLOC_zero) buf off rdlength =
      Inr (length (RDataLOC_enc r), r)"
    by (simp add: RDataLOC_defs rdlength_eq holds_be32)
qed (auto simp: RDataLOC_defs rdlength_eq split: if_splits)

subsection \<open>APL\<close>

record APLItem =
  apl_Negation :: bool
  apl_AddressFamily :: uint16
  apl_Prefix :: byte
  apl_Address :: bytes

record RDataAPL =
  apl_Items :: "APLItem list"

definition apl_length :: "APLItem \<Rightarrow> byte" where
  "apl_length item =
     (let l = bytes_of (length (apl_Address item)) in if apl_Negation item then l OR 0x80 else l)"

fun RDataAPL_Pack_loop :: "APLItem list \<Rightarrow> bytes \<Rightarrow> nat \<Rightarrow> (nat \<times> bytes) result" where
  "RDataAPL_Pack_loop [] buf off = Inr (off, buf)"
| "RDataAPL_Pack_loop (item # items) buf off =
     (if length (apl_Address item) > 127 then Inl (Errorf ''APL address length exceeds 127'')
      else if off + 4 + length (apl_Address item) > length buf then Inl ErrBufferTooSmall
      else
        let buf = PutUint16_at buf off (apl_AddressFamily item);
            off = off + 2;
            buf = put_at buf off [apl_Prefix item];
            off = off + 1;
            buf = put_at buf off [apl_length item];
            off = off + 1;
            buf = put_at buf off (apl_Address item)
        in RDataAPL_Pack_loop items buf (off + length (apl_Address item)))"

definition RDataAPL_Pack :: "RDataAPL option \<Rightarrow> bytes \<Rightarrow> nat \<Rightarrow> (nat \<times> bytes) result" where
  "RDataAPL_Pack ro buf off =
     (case ro of None \<Rightarrow> Inl (Errorf ''nil APL record'')
      | Some r \<Rightarrow>
          and_then (RDataAPL_Pack_loop (apl_Items r) buf off) (\<lambda>(off', buf). Inr (off' - off, buf)))"

function RDataAPL_Unpack_loop :: "bytes \<Rightarrow> nat \<Rightarrow> nat \<Rightarrow> (nat \<times> APLItem list) result" where
  "RDataAPL_Unpack_loop buf off end =
     (if off < end then
        if off + 4 > end then Inl ErrBufferTooSmall
        else
          let addrLen = unat (buf ! (off + 3) AND 0x7F);
              item = \<lparr>apl_Negation = (buf ! (off + 3) AND 0x80 \<noteq> 0),
                      apl_AddressFamily = Uint16 (drop off buf), apl_Prefix = buf ! (off + 2),
                      apl_Address = subslice buf (off + 4) addrLen\<rparr>
          in if off + 4 + addrLen > end then Inl ErrBufferTooSmall
             else and_then (RDataAPL_Unpack_loop buf (off + 4 + addrLen) end)
                    (\<lambda>(off', items). Inr (off', item # items))
      else Inr (off, []))"
  by pat_completeness auto
termination
  by (relation "measure (\<lambda>(buf, off, end). end - off)") (auto simp: Let_def)

declare RDataAPL_Unpack_loop.simps [simp del]

definition RDataAPL_Unpack ::
  "RDataAPL option \<Rightarrow> bytes \<Rightarrow> nat \<Rightarrow> uint16 \<Rightarrow> (nat \<times> RDataAPL) result"
where
  "RDataAPL_Unpack ro buf off rdlength =
     (case ro of None \<Rightarrow> Inl (Errorf ''nil APL record'')
      | Some r \<Rightarrow>
          let end = off + unat rdlength
          in if end > length buf then Inl ErrBufferTooSmall
             else and_then (RDataAPL_Unpack_loop buf off end)
                    (\<lambda>(off', items). Inr (off' - off, r\<lparr>apl_Items := items\<rparr>)))"

definition RDataAPL_Len :: "RDataAPL option \<Rightarrow> nat" where
  "RDataAPL_Len ro =
     (case ro of None \<Rightarrow> 0
      | Some r \<Rightarrow> foldl (\<lambda>l item. l + (4 + length (apl_Address item))) 0 (apl_Items r))"

definition RDataAPL_zero :: RDataAPL where "RDataAPL_zero = \<lparr>apl_Items = []\<rparr>"

definition RDataAPL_wf :: "RDataAPL \<Rightarrow> bool" where
  "RDataAPL_wf r \<longleftrightarrow> (\<forall>item \<in> set (apl_Items r). length (apl_Address item) \<le> 127)"

definition enc_apl :: "APLItem \<Rightarrow> bytes" where
  "enc_apl item = be16 (apl_AddressFamily item) @ [apl_Prefix item] @ [apl_length item] @ apl_Address item"

definition RDataAPL_enc :: "RDataAPL \<Rightarrow> bytes" where
  "RDataAPL_enc r = concat (map enc_apl (apl_Items r))"

lemmas RDataAPL_defs = RDataAPL_Pack_def RDataAPL_Unpack_def RDataAPL_Len_def RDataAPL_wf_def
  RDataAPL_zero_def RDataAPL_enc_def

lemma length_enc_apl [simp]: "length (enc_apl item) = 4 + length (apl_Address item)"
  by (simp add: enc_apl_def)

lemma and_0x7F: "(w :: byte) AND 0x7F = take_bit 7 w"
  using take_bit_eq_mask [of 7 w] by (simp add: mask_eq_exp_minus_1)

lemma and_0x80: "(w :: byte) AND 0x80 \<noteq> 0 \<longleftrightarrow> bit w 7"
  using and_bit_nonzero [of w 7] by simp

lemma apl_length_bits:
  assumes "length (apl_Address item) \<le> 127"
  shows "unat (apl_length item AND 0x7F) = length (apl_Address item)"
    "apl_length item AND 0x80 \<noteq> 0 \<longleftrightarrow> apl_Negation item"
proof -
  let ?l = "bytes_of (length (apl_Address item))"
  have l: "unat ?l = length (apl_Address item)"
    using assms by simp
  have "take_bit 7 (0x80 :: byte) = 0" and high: "bit (0x80 :: byte) 7"
    by simp_all
  then have "take_bit 7 (apl_length item) = take_bit 7 ?l"
    by (simp add: apl_length_def Let_def take_bit_or)
  moreover have "unat (take_bit 7 ?l) = length (apl_Address item)"
    using assms by (simp add: unsigned_take_bit_eq l take_bit_nat_eq_self)
  ultimately show "unat (apl_length item AND 0x7F) = length (apl_Address item)"
    unfolding and_0x7F by simp
  have "\<not> bit (unat ?l) 7"
    using assms by (simp add: l bit_iff_odd)
  then have "\<not> bit ?l 7"
    by (simp add: bit_unsigned_iff)
  with high show "apl_length item AND 0x80 \<noteq> 0 \<longleftrightarrow> apl_Negation item"
    unfolding and_0x80 by (simp add: apl_length_def Let_def bit_or_iff)
qed

lemma RDataAPL_Pack_loop_iff:
  "\<forall>item \<in> set items. length (apl_Address item) \<le> 127 \<Longrightarrow> off \<le> length buf \<Longrightarrow>
   RDataAPL_Pack_loop items buf off = Inr (off', buf') \<longleftrightarrow>
     off' = off + length (concat (map enc_apl items)) \<and> off' \<le> length buf \<and>
     buf' = put_at buf off (concat (map enc_apl items))"
proof (induction items arbitrary: buf off)
  case Nil
  then show ?case by auto
next
  case (Cons item items)
  show ?case
  proof (cases "off + 4 + length (apl_Address item) \<le> length buf")
    case True
    then have "RDataAPL_Pack_loop (item # items) buf off =
        RDataAPL_Pack_loop items (put_at buf off (enc_apl item)) (off + length (enc_apl item))"
      using Cons.prems by (simp add: Let_def codec_simps enc_apl_def add.assoc)
    then show ?thesis
      using Cons True by (auto simp: put_at_put_at add.assoc)
  next
    case False
    then show ?thesis
      using Cons.prems by simp
  qed
qed

lemma RDataAPL_Unpack_loop_enc:
  "\<forall>item \<in> set items. length (apl_Address item) \<le> 127 \<Longrightarrow>
   holds buf off (concat (map enc_apl items)) \<Longrightarrow>
   RDataAPL_Unpack_loop buf off (off + length (concat (map enc_apl items))) =
     Inr (off + length (concat (map enc_apl items)), items)"
proof (induction items arbitrary: off)
  case Nil
  then show ?case by (simp add: RDataAPL_Unpack_loop.simps)
next
  case (Cons item items)
  have h: "holds buf off (enc_apl item)"
    using Cons.prems(2) by simp
  then have "Uint16 (drop off buf) = apl_AddressFamily item" "buf ! (off + 2) = apl_Prefix item"
    "buf ! (off + 3) = apl_length item" "subslice buf (off + 4) (length (apl_Address item)) = apl_Address item"
    by (auto simp: enc_apl_def holds_be16 holds_subslice_eq eval_nat_numeral)
  moreover have "RDataAPL_Unpack_loop buf (off + length (enc_apl item))
      (off + length (enc_apl item) + length (concat (map enc_apl items))) =
      Inr (off + length (enc_apl item) + length (concat (map enc_apl items)), items)"
    using Cons by simp
  ultimately show ?case
    using Cons.prems(1)
    by (subst RDataAPL_Unpack_loop.simps) (simp add: Let_def apl_length_bits add.assoc)
qed

lemma RDataAPL_Unpack_loop_ok:
  "RDataAPL_Unpack_loop buf off end = Inr (off', items) \<Longrightarrow> off \<le> end \<Longrightarrow>
   off' = end \<and> (\<forall>item \<in> set items. length (apl_Address item) \<le> 127)"
proof (induction buf off "end" arbitrary: off' items rule: RDataAPL_Unpack_loop.induct)
  case (1 buf off "end")
  have "unat (b AND 0x7F) \<le> 127" for b :: byte
    using word_and_le1 [of b "0x7F"] by (simp add: word_le_nat_alt)
  with 1 show ?case
    by (subst (asm) (2) RDataAPL_Unpack_loop.simps) (auto simp: and_then_Inr Let_def subslice_def min_le_iff_disj split: if_splits)
qed

interpretation APL: rdata_closed "\<lambda>r. RDataAPL_Pack (Some r)" "\<lambda>r. RDataAPL_Unpack (Some r)"
  "\<lambda>r. RDataAPL_Len (Some r)" RDataAPL_zero RDataAPL_wf RDataAPL_enc "\<lambda>r. r"
proof unfold_locales
  fix r :: RDataAPL and buf buf' :: bytes and off n :: nat
  assume "RDataAPL_wf r" "off \<le> length buf"
  then show "RDataAPL_Pack (Some r) buf off = Inr (n, buf') \<longleftrightarrow>
      n = length (RDataAPL_enc r) \<and> off + n \<le> length buf \<and> buf' = put_at buf off (RDataAPL_enc r)"
    by (auto simp: RDataAPL_defs and_then_Inr RDataAPL_Pack_loop_iff)
next
  fix r :: RDataAPL
  have "foldl (\<lambda>l item. l + (4 + length (apl_Address item))) k xs = k + length (concat (map enc_apl xs))"
    for k and xs
    by (induction xs arbitrary: k) simp_all
  then show "RDataAPL_Len (Some r) = length (RDataAPL_enc r)"
    by (simp add: RDataAPL_defs)
next
  fix r :: RDataAPL and buf :: bytes and off :: nat and rdlength :: uint16
  assume "RDataAPL_wf r" "holds buf off (RDataAPL_enc r)" "unat rdlength = length (RDataAPL_enc r)"
  then show "RDataAPL_Unpack (Some RDataAPL_zero) buf off rdlength =
      Inr (length (RDataAPL_enc r), r)"
    using RDataAPL_Unpack_loop_enc [of "apl_Items r" buf off] holds_fits [of buf off "RDataAPL_enc r"]
    by (simp add: RDataAPL_defs)
qed (auto simp: RDataAPL_defs and_then_Inr Let_def split: if_splits dest: RDataAPL_Unpack_loop_ok)

subsection \<open>Types that hold one name\<close>

subsection \<open>CNAME\<close>

record RDataCNAME =
  cname_CName :: "name option"

definition RDataCNAME_Pack :: "RDataCNAME option \<Rightarrow> bytes \<Rightarrow> nat \<Rightarrow> (nat \<times> bytes) result" where
  "RDataCNAME_Pack ro buf off =
     (case ro of None \<Rightarrow> Inl (Errorf ''nil CNAME record'')
      | Some r \<Rightarrow> pack_name (cname_CName r) buf off)"

definition RDataCNAME_Unpack ::
  "RDataCNAME option \<Rightarrow> bytes \<Rightarrow> nat \<Rightarrow> uint16 \<Rightarrow> (nat \<times> RDataCNAME) result"
where
  "RDataCNAME_Unpack ro buf off rdlength =
     (case ro of None \<Rightarrow> Inl (Errorf ''nil CNAME record'')
      | Some r \<Rightarrow>
          and_then (unpack_name buf off) (\<lambda>(name, n).
            if n > unat rdlength then Inl (Errorf ''CNAME overflows rdlength'')
            else Inr (n, r\<lparr>cname_CName := Some name\<rparr>)))"

definition RDataCNAME_Len :: "RDataCNAME option \<Rightarrow> nat" where
  "RDataCNAME_Len ro =
     (case ro of None \<Rightarrow> 0
      | Some r \<Rightarrow> (case cname_CName r of None \<Rightarrow> 1 | Some n \<Rightarrow> WireLength (Some n)))"

definition RDataCNAME_zero :: RDataCNAME where "RDataCNAME_zero = \<lparr>cname_CName = None\<rparr>"

definition RDataCNAME_wf :: "RDataCNAME \<Rightarrow> bool" where "RDataCNAME_wf r \<longleftrightarrow> wf_oname (cname_CName r)"

definition RDataCNAME_enc :: "RDataCNAME \<Rightarrow> bytes" where "RDataCNAME_enc r = enc_name (cname_CName r)"

definition RDataCNAME_canon :: "RDataCNAME \<Rightarrow> RDataCNAME" where
  "RDataCNAME_canon r = \<lparr>cname_CName = canon_name (cname_CName r)\<rparr>"

lemmas RDataCNAME_defs = RDataCNAME_Pack_def RDataCNAME_Unpack_def RDataCNAME_Len_def RDataCNAME_zero_def
  RDataCNAME_wf_def RDataCNAME_enc_def RDataCNAME_canon_def

interpretation CNAME: rdata_closed "\<lambda>r. RDataCNAME_Pack (Some r)" "\<lambda>r. RDataCNAME_Unpack (Some r)"
  "\<lambda>r. RDataCNAME_Len (Some r)" RDataCNAME_zero RDataCNAME_wf RDataCNAME_enc RDataCNAME_canon
  by unfold_locales
    (auto simp: RDataCNAME_defs pack_name_iff unpack_name_enc and_then_Inr split: if_splits option.splits
      dest: unpack_name_ok)

subsection \<open>DNAME\<close>

record RDataDNAME =
  dname_DName :: "name option"

definition RDataDNAME_Pack :: "RDataDNAME option \<Rightarrow> bytes \<Rightarrow> nat \<Rightarrow> (nat \<times> bytes) result" where
  "RDataDNAME_Pack ro buf off =
     (case ro of None \<Rightarrow> Inl (Errorf ''nil DNAME record'')
      | Some r \<Rightarrow> pack_name (dname_DName r) buf off)"

definition RDataDNAME_Unpack ::
  "RDataDNAME option \<Rightarrow> bytes \<Rightarrow> nat \<Rightarrow> uint16 \<Rightarrow> (nat \<times> RDataDNAME) result"
where
  "RDataDNAME_Unpack ro buf off rdlength =
     (case ro of None \<Rightarrow> Inl (Errorf ''nil DNAME record'')
      | Some r \<Rightarrow>
          and_then (unpack_name buf off) (\<lambda>(name, n).
            if n > unat rdlength then Inl (Errorf ''DNAME overflows rdlength'')
            else Inr (n, r\<lparr>dname_DName := Some name\<rparr>)))"

definition RDataDNAME_Len :: "RDataDNAME option \<Rightarrow> nat" where
  "RDataDNAME_Len ro =
     (case ro of None \<Rightarrow> 0
      | Some r \<Rightarrow> (case dname_DName r of None \<Rightarrow> 1 | Some n \<Rightarrow> WireLength (Some n)))"

definition RDataDNAME_zero :: RDataDNAME where "RDataDNAME_zero = \<lparr>dname_DName = None\<rparr>"

definition RDataDNAME_wf :: "RDataDNAME \<Rightarrow> bool" where "RDataDNAME_wf r \<longleftrightarrow> wf_oname (dname_DName r)"

definition RDataDNAME_enc :: "RDataDNAME \<Rightarrow> bytes" where "RDataDNAME_enc r = enc_name (dname_DName r)"

definition RDataDNAME_canon :: "RDataDNAME \<Rightarrow> RDataDNAME" where
  "RDataDNAME_canon r = \<lparr>dname_DName = canon_name (dname_DName r)\<rparr>"

lemmas RDataDNAME_defs = RDataDNAME_Pack_def RDataDNAME_Unpack_def RDataDNAME_Len_def RDataDNAME_zero_def
  RDataDNAME_wf_def RDataDNAME_enc_def RDataDNAME_canon_def

interpretation DNAME: rdata_closed "\<lambda>r. RDataDNAME_Pack (Some r)" "\<lambda>r. RDataDNAME_Unpack (Some r)"
  "\<lambda>r. RDataDNAME_Len (Some r)" RDataDNAME_zero RDataDNAME_wf RDataDNAME_enc RDataDNAME_canon
  by unfold_locales
    (auto simp: RDataDNAME_defs pack_name_iff unpack_name_enc and_then_Inr split: if_splits option.splits
      dest: unpack_name_ok)

subsection \<open>NS\<close>

record RDataNS =
  ns_NSDName :: "name option"

definition RDataNS_Pack :: "RDataNS option \<Rightarrow> bytes \<Rightarrow> nat \<Rightarrow> (nat \<times> bytes) result" where
  "RDataNS_Pack ro buf off =
     (case ro of None \<Rightarrow> Inl (Errorf ''nil NS record'')
      | Some r \<Rightarrow> pack_name (ns_NSDName r) buf off)"

definition RDataNS_Unpack ::
  "RDataNS option \<Rightarrow> bytes \<Rightarrow> nat \<Rightarrow> uint16 \<Rightarrow> (nat \<times> RDataNS) result"
where
  "RDataNS_Unpack ro buf off rdlength =
     (case ro of None \<Rightarrow> Inl (Errorf ''nil NS record'')
      | Some r \<Rightarrow>
          and_then (unpack_name buf off) (\<lambda>(name, n).
            if n > unat rdlength then Inl (Errorf ''NS overflows rdlength'')
            else Inr (n, r\<lparr>ns_NSDName := Some name\<rparr>)))"

definition RDataNS_Len :: "RDataNS option \<Rightarrow> nat" where
  "RDataNS_Len ro =
     (case ro of None \<Rightarrow> 0
      | Some r \<Rightarrow> (case ns_NSDName r of None \<Rightarrow> 1 | Some n \<Rightarrow> WireLength (Some n)))"

definition RDataNS_zero :: RDataNS where "RDataNS_zero = \<lparr>ns_NSDName = None\<rparr>"

definition RDataNS_wf :: "RDataNS \<Rightarrow> bool" where "RDataNS_wf r \<longleftrightarrow> wf_oname (ns_NSDName r)"

definition RDataNS_enc :: "RDataNS \<Rightarrow> bytes" where "RDataNS_enc r = enc_name (ns_NSDName r)"

definition RDataNS_canon :: "RDataNS \<Rightarrow> RDataNS" where
  "RDataNS_canon r = \<lparr>ns_NSDName = canon_name (ns_NSDName r)\<rparr>"

lemmas RDataNS_defs = RDataNS_Pack_def RDataNS_Unpack_def RDataNS_Len_def RDataNS_zero_def
  RDataNS_wf_def RDataNS_enc_def RDataNS_canon_def

interpretation NS: rdata_closed "\<lambda>r. RDataNS_Pack (Some r)" "\<lambda>r. RDataNS_Unpack (Some r)"
  "\<lambda>r. RDataNS_Len (Some r)" RDataNS_zero RDataNS_wf RDataNS_enc RDataNS_canon
  by unfold_locales
    (auto simp: RDataNS_defs pack_name_iff unpack_name_enc and_then_Inr split: if_splits option.splits
      dest: unpack_name_ok)

subsection \<open>PTR\<close>

record RDataPTR =
  ptr_PtrDName :: "name option"

definition RDataPTR_Pack :: "RDataPTR option \<Rightarrow> bytes \<Rightarrow> nat \<Rightarrow> (nat \<times> bytes) result" where
  "RDataPTR_Pack ro buf off =
     (case ro of None \<Rightarrow> Inl (Errorf ''nil PTR record'')
      | Some r \<Rightarrow> pack_name (ptr_PtrDName r) buf off)"

definition RDataPTR_Unpack ::
  "RDataPTR option \<Rightarrow> bytes \<Rightarrow> nat \<Rightarrow> uint16 \<Rightarrow> (nat \<times> RDataPTR) result"
where
  "RDataPTR_Unpack ro buf off rdlength =
     (case ro of None \<Rightarrow> Inl (Errorf ''nil PTR record'')
      | Some r \<Rightarrow>
          and_then (unpack_name buf off) (\<lambda>(name, n).
            if n > unat rdlength then Inl (Errorf ''PTR overflows rdlength'')
            else Inr (n, r\<lparr>ptr_PtrDName := Some name\<rparr>)))"

definition RDataPTR_Len :: "RDataPTR option \<Rightarrow> nat" where
  "RDataPTR_Len ro =
     (case ro of None \<Rightarrow> 0
      | Some r \<Rightarrow> (case ptr_PtrDName r of None \<Rightarrow> 1 | Some n \<Rightarrow> WireLength (Some n)))"

definition RDataPTR_zero :: RDataPTR where "RDataPTR_zero = \<lparr>ptr_PtrDName = None\<rparr>"

definition RDataPTR_wf :: "RDataPTR \<Rightarrow> bool" where "RDataPTR_wf r \<longleftrightarrow> wf_oname (ptr_PtrDName r)"

definition RDataPTR_enc :: "RDataPTR \<Rightarrow> bytes" where "RDataPTR_enc r = enc_name (ptr_PtrDName r)"

definition RDataPTR_canon :: "RDataPTR \<Rightarrow> RDataPTR" where
  "RDataPTR_canon r = \<lparr>ptr_PtrDName = canon_name (ptr_PtrDName r)\<rparr>"

lemmas RDataPTR_defs = RDataPTR_Pack_def RDataPTR_Unpack_def RDataPTR_Len_def RDataPTR_zero_def
  RDataPTR_wf_def RDataPTR_enc_def RDataPTR_canon_def

interpretation PTR: rdata_closed "\<lambda>r. RDataPTR_Pack (Some r)" "\<lambda>r. RDataPTR_Unpack (Some r)"
  "\<lambda>r. RDataPTR_Len (Some r)" RDataPTR_zero RDataPTR_wf RDataPTR_enc RDataPTR_canon
  by unfold_locales
    (auto simp: RDataPTR_defs pack_name_iff unpack_name_enc and_then_Inr split: if_splits option.splits
      dest: unpack_name_ok)

end
