(* ===== verification/Edns.thy ===== *)
theory Edns
  imports RDataAddress
begin

text \<open>
  EDNS(0), \<^verbatim>\<open>internal/protocol/opt.go\<close>: the options of the OPT pseudo-record with their codec and the
  operations on them.  The single options are in theories \<open>ClientSubnet\<close> and \<open>EdnsOptions\<close>.
\<close>

unbundle bit_operations_syntax

subsection \<open>The OPT record\<close>

definition MaxEDNS0Options :: nat where "MaxEDNS0Options = 64"

definition OptionCodeNSID :: uint16 where "OptionCodeNSID = 3"
definition OptionCodeClientSubnet :: uint16 where "OptionCodeClientSubnet = 8"
definition OptionCodeExpire :: uint16 where "OptionCodeExpire = 9"
definition OptionCodeCookie :: uint16 where "OptionCodeCookie = 10"
definition OptionCodeTCPKeepalive :: uint16 where "OptionCodeTCPKeepalive = 11"
definition OptionCodePadding :: uint16 where "OptionCodePadding = 12"
definition OptionCodeChain :: uint16 where "OptionCodeChain = 13"
definition OptionCodeExtendedError :: uint16 where "OptionCodeExtendedError = 15"

lemmas option_codes = OptionCodeNSID_def OptionCodeClientSubnet_def OptionCodeExpire_def
  OptionCodeCookie_def OptionCodeTCPKeepalive_def OptionCodePadding_def OptionCodeChain_def
  OptionCodeExtendedError_def

definition OptionCodeString :: "uint16 \<Rightarrow> string" where
  "OptionCodeString code =
     (if code = OptionCodeNSID then ''NSID''
      else if code = OptionCodeClientSubnet then ''ECS''
      else if code = OptionCodeExpire then ''EXPIRE''
      else if code = OptionCodeCookie then ''COOKIE''
      else if code = OptionCodeTCPKeepalive then ''TCPKEEPALIVE''
      else if code = OptionCodePadding then ''PADDING''
      else if code = OptionCodeChain then ''CHAIN''
      else if code = OptionCodeExtendedError then ''EDE''
      else ''OPTION'' @ Itoa (unat code))"

record EDNS0Option =
  opt_Code :: uint16
  opt_Data :: bytes

record RDataOPT =
  opt_Options :: "EDNS0Option list"

fun RDataOPT_Pack_loop :: "EDNS0Option list \<Rightarrow> bytes \<Rightarrow> nat \<Rightarrow> (nat \<times> bytes) result" where
  "RDataOPT_Pack_loop [] buf off = Inr (off, buf)"
| "RDataOPT_Pack_loop (opt # opts) buf off =
     (if off + 2 > length buf then Inl ErrBufferTooSmall else
      let buf = PutUint16_at buf off (opt_Code opt); off = off + 2; optLen = length (opt_Data opt) in
      if optLen > 0xFFFF then Inl (Errorf ''EDNS0 option data too large'') else
      if off + 2 > length buf then Inl ErrBufferTooSmall else
      let buf = PutUint16_at buf off (of_nat optLen); off = off + 2 in
      if off + optLen > length buf then Inl ErrBufferTooSmall else
      let buf = put_at buf off (opt_Data opt)
      in RDataOPT_Pack_loop opts buf (off + optLen))"

definition RDataOPT_Pack :: "RDataOPT option \<Rightarrow> bytes \<Rightarrow> nat \<Rightarrow> (nat \<times> bytes) result" where
  "RDataOPT_Pack ro buf start =
     (case ro of None \<Rightarrow> Inl (Errorf ''nil OPT record'')
      | Some r \<Rightarrow>
          and_then (RDataOPT_Pack_loop (opt_Options r) buf start) (\<lambda>(off, buf). Inr (off - start, buf)))"

function RDataOPT_Unpack_loop ::
  "bytes \<Rightarrow> nat \<Rightarrow> nat \<Rightarrow> EDNS0Option list \<Rightarrow> (nat \<times> EDNS0Option list) result"
where
  "RDataOPT_Unpack_loop buf off endOffset opts =
     (if off < endOffset then
        if off + 4 > endOffset then Inl (Errorf ''truncated EDNS0 option'')
        else if length opts \<ge> MaxEDNS0Options then Inl (Errorf ''too many EDNS0 options'')
        else
          let code = Uint16 (drop off buf); optLen = unat (Uint16 (drop (off + 2) buf)); off = off + 2 + 2
          in if off + optLen > endOffset then Inl (Errorf ''truncated EDNS0 option data'')
             else RDataOPT_Unpack_loop buf (off + optLen) endOffset
                    (opts @ [\<lparr>opt_Code = code, opt_Data = subslice buf off optLen\<rparr>])
      else Inr (off, opts))"
  by pat_completeness auto
termination
  by (relation "measure (\<lambda>(buf, off, endOffset, opts). endOffset - off)") (auto simp: Let_def)

declare RDataOPT_Unpack_loop.simps [simp del]

definition RDataOPT_Unpack ::
  "RDataOPT option \<Rightarrow> bytes \<Rightarrow> nat \<Rightarrow> uint16 \<Rightarrow> (nat \<times> RDataOPT) result"
where
  "RDataOPT_Unpack ro buf start rdlength =
     (case ro of None \<Rightarrow> Inl (Errorf ''nil OPT record'')
      | Some r \<Rightarrow>
          let endOffset = start + unat rdlength in
          if endOffset > length buf then Inl ErrBufferTooSmall
          else
            and_then (RDataOPT_Unpack_loop buf start endOffset (opt_Options r)) (\<lambda>(off, opts).
            Inr (off - start, r\<lparr>opt_Options := opts\<rparr>)))"

definition RDataOPT_Len :: "RDataOPT option \<Rightarrow> nat" where
  "RDataOPT_Len ro =
     (case ro of None \<Rightarrow> 0 | Some r \<Rightarrow> sum_list (map (\<lambda>opt. 4 + length (opt_Data opt)) (opt_Options r)))"

definition AddOption :: "RDataOPT option \<Rightarrow> uint16 \<Rightarrow> bytes \<Rightarrow> RDataOPT option" where
  "AddOption ro code data =
     map_option (\<lambda>r. r\<lparr>opt_Options := opt_Options r @ [\<lparr>opt_Code = code, opt_Data = data\<rparr>]\<rparr>) ro"

definition GetOption :: "RDataOPT option \<Rightarrow> uint16 \<Rightarrow> EDNS0Option option" where
  "GetOption ro code =
     (case ro of None \<Rightarrow> None | Some r \<Rightarrow> find (\<lambda>opt. opt_Code opt = code) (opt_Options r))"

definition RemoveOption :: "RDataOPT option \<Rightarrow> uint16 \<Rightarrow> RDataOPT option" where
  "RemoveOption ro code =
     map_option (\<lambda>r. r\<lparr>opt_Options := filter (\<lambda>opt. opt_Code opt \<noteq> code) (opt_Options r)\<rparr>) ro"

definition RDataOPT_zero :: RDataOPT where "RDataOPT_zero = \<lparr>opt_Options = []\<rparr>"

text \<open>\<^verbatim>\<open>Unpack\<close> refuses more than \<^verbatim>\<open>MaxEDNS0Options\<close> options; \<^verbatim>\<open>Pack\<close> has no such limit.\<close>

definition RDataOPT_wf :: "RDataOPT \<Rightarrow> bool" where
  "RDataOPT_wf r \<longleftrightarrow> length (opt_Options r) \<le> MaxEDNS0Options \<and>
     (\<forall>opt \<in> set (opt_Options r). length (opt_Data opt) < 65536)"

definition enc_option :: "EDNS0Option \<Rightarrow> bytes" where
  "enc_option opt = be16 (opt_Code opt) @ be16 (of_nat (length (opt_Data opt))) @ opt_Data opt"

definition enc_options :: "EDNS0Option list \<Rightarrow> bytes" where
  "enc_options opts = concat (map enc_option opts)"

definition RDataOPT_enc :: "RDataOPT \<Rightarrow> bytes" where "RDataOPT_enc r = enc_options (opt_Options r)"

lemma enc_options_simps [simp]:
  "enc_options [] = []" "enc_options (opt # opts) = enc_option opt @ enc_options opts"
  by (simp_all add: enc_options_def)

lemma length_enc_options:
  "length (enc_options opts) = sum_list (map (\<lambda>opt. 4 + length (opt_Data opt)) opts)"
  by (induction opts) (simp_all add: enc_option_def)

lemma RDataOPT_Pack_loop_iff:
  "off \<le> length buf \<Longrightarrow> \<forall>opt \<in> set opts. length (opt_Data opt) < 65536 \<Longrightarrow>
   RDataOPT_Pack_loop opts buf off = Inr (off', buf') \<longleftrightarrow>
     off' = off + length (enc_options opts) \<and> off' \<le> length buf \<and> buf' = put_at buf off (enc_options opts)"
proof (induction opts arbitrary: buf off)
  case (Cons opt opts)
  then show ?case
    by (auto simp: Let_def enc_option_def codec_simps)
qed auto

lemma RDataOPT_Unpack_loop_enc:
  assumes "holds buf off (enc_options opts)" "\<forall>opt \<in> set opts. length (opt_Data opt) < 65536"
    "length acc + length opts \<le> MaxEDNS0Options" "endOffset = off + length (enc_options opts)"
  shows "RDataOPT_Unpack_loop buf off endOffset acc = Inr (endOffset, acc @ opts)"
  using assms
proof (induction opts arbitrary: off acc)
  case Nil
  then show ?case
    by (subst RDataOPT_Unpack_loop.simps) simp
next
  case (Cons opt opts)
  have "RDataOPT_Unpack_loop buf (off + length (enc_option opt)) endOffset (acc @ [opt]) =
      Inr (endOffset, (acc @ [opt]) @ opts)"
    using Cons.prems by (intro Cons.IH) (simp_all add: add.assoc)
  moreover have "holds buf off (enc_option opt)"
    using Cons.prems(1) by simp
  moreover obtain k v where "opt = \<lparr>opt_Code = k, opt_Data = v\<rparr>"
    by (cases opt)
  ultimately show ?case
    using Cons.prems(2,3,4)
    by (subst RDataOPT_Unpack_loop.simps)
      (auto simp: enc_option_def Let_def holds_be16 holds_subslice_eq)
qed

lemma RDataOPT_Unpack_loop_ok:
  assumes "RDataOPT_Unpack_loop buf off endOffset acc = Inr (off', opts)" "off \<le> endOffset"
    "length acc \<le> MaxEDNS0Options" "\<forall>opt \<in> set acc. length (opt_Data opt) < 65536"
  shows "off' = endOffset \<and> length opts \<le> MaxEDNS0Options \<and> (\<forall>opt \<in> set opts. length (opt_Data opt) < 65536)"
  using assms
proof (induction buf off endOffset acc rule: RDataOPT_Unpack_loop.induct)
  case (1 buf off endOffset acc)
  have "length (subslice buf i (unat (v :: uint16))) < 65536" for i v
    by (rule le_less_trans [OF _ unat_uint16_less [of v]]) (simp add: subslice_def)
  with 1 show ?case
    by (subst (asm) (2) RDataOPT_Unpack_loop.simps) (auto simp: Let_def split: if_splits)
qed

lemmas RDataOPT_defs = RDataOPT_Pack_def RDataOPT_Unpack_def RDataOPT_Len_def RDataOPT_zero_def
  RDataOPT_wf_def RDataOPT_enc_def Let_def

interpretation OPT: rdata_closed "\<lambda>r. RDataOPT_Pack (Some r)" "\<lambda>r. RDataOPT_Unpack (Some r)"
  "\<lambda>r. RDataOPT_Len (Some r)" RDataOPT_zero RDataOPT_wf RDataOPT_enc "\<lambda>r. r"
proof unfold_locales
  fix r :: RDataOPT and buf buf' :: bytes and off n :: nat
  assume "RDataOPT_wf r" "off \<le> length buf"
  then show "RDataOPT_Pack (Some r) buf off = Inr (n, buf') \<longleftrightarrow>
      n = length (RDataOPT_enc r) \<and> off + n \<le> length buf \<and> buf' = put_at buf off (RDataOPT_enc r)"
    by (auto simp: RDataOPT_defs and_then_Inr pack_name_iff codec_simps RDataOPT_Pack_loop_iff)
next
  fix r :: RDataOPT and buf :: bytes and off :: nat and rdlength :: uint16
  assume "RDataOPT_wf r" "holds buf off (RDataOPT_enc r)" "unat rdlength = length (RDataOPT_enc r)"
  then show "RDataOPT_Unpack (Some RDataOPT_zero) buf off rdlength =
      Inr (length (RDataOPT_enc r), r)"
    using holds_fits [of buf off "RDataOPT_enc r"]
    by (auto simp: RDataOPT_defs unpack_name_enc holds_be16 holds_be32 RDataOPT_Unpack_loop_enc)
qed (auto simp: RDataOPT_defs and_then_Inr split: if_splits option.splits simp: length_enc_options dest!: RDataOPT_Unpack_loop_ok)

lemma GetOption_Add:
  "GetOption (AddOption (Some r) code data) c =
     (case GetOption (Some r) c of Some opt \<Rightarrow> Some opt
      | None \<Rightarrow> if c = code then Some \<lparr>opt_Code = code, opt_Data = data\<rparr> else None)"
proof -
  have "find P (xs @ [x]) = (case find P xs of Some y \<Rightarrow> Some y | None \<Rightarrow> if P x then Some x else None)"
    for P xs and x :: EDNS0Option
    by (induction xs) auto
  then show ?thesis
    by (simp add: GetOption_def AddOption_def)
qed

lemma GetOption_Remove:
  "GetOption (RemoveOption (Some r) code) c = (if c = code then None else GetOption (Some r) c)"
proof -
  have "find (\<lambda>opt. opt_Code opt = c) (filter (\<lambda>opt. opt_Code opt \<noteq> code) xs) =
      (if c = code then None else find (\<lambda>opt. opt_Code opt = c) xs)" for xs :: "EDNS0Option list"
    by (induction xs) auto
  then show ?thesis
    by (simp add: GetOption_def RemoveOption_def)
qed

end
