(* ===== verification/RDataSum.thy ===== *)
theory RDataSum
  imports RDataAuth RDataNaming RDataSecurity RDataDnssec Svcb Edns
begin

text \<open>
  Record data of any type, \<^verbatim>\<open>internal/protocol/record.go\<close>: the values of the Go interface \<^verbatim>\<open>RData\<close> are a
  datatype with a constructor per implementing type, its methods dispatch on the constructor, and
  \<^verbatim>\<open>createRData\<close> picks the type for a record type number.  \<^verbatim>\<open>RDataRaw\<close> holds the data of types without a
  structure of their own.
\<close>

subsection \<open>Raw data\<close>

record RDataRaw =
  raw_TypeVal :: uint16
  raw_Data :: bytes

definition RDataRaw_Type :: "RDataRaw option \<Rightarrow> uint16" where
  "RDataRaw_Type ro = (case ro of None \<Rightarrow> 0 | Some r \<Rightarrow> raw_TypeVal r)"

definition RDataRaw_Pack :: "RDataRaw option \<Rightarrow> bytes \<Rightarrow> nat \<Rightarrow> (nat \<times> bytes) result" where
  "RDataRaw_Pack ro buf off =
     (case ro of None \<Rightarrow> Inl (Errorf ''nil raw record'')
      | Some r \<Rightarrow>
          if off + length (raw_Data r) > length buf then Inl ErrBufferTooSmall
          else Inr (length (raw_Data r), put_at buf off (raw_Data r)))"

definition RDataRaw_Unpack ::
  "RDataRaw option \<Rightarrow> bytes \<Rightarrow> nat \<Rightarrow> uint16 \<Rightarrow> (nat \<times> RDataRaw) result"
where
  "RDataRaw_Unpack ro buf off rdlength =
     (case ro of None \<Rightarrow> Inl (Errorf ''nil raw record'')
      | Some r \<Rightarrow>
          if off + unat rdlength > length buf then Inl ErrBufferTooSmall
          else Inr (unat rdlength, r\<lparr>raw_Data := subslice buf off (unat rdlength)\<rparr>))"

definition RDataRaw_Len :: "RDataRaw option \<Rightarrow> nat" where
  "RDataRaw_Len ro = (case ro of None \<Rightarrow> 0 | Some r \<Rightarrow> length (raw_Data r))"

subsection \<open>Data of any type\<close>

datatype rdata =
    DataA RDataA
  | DataAAAA RDataAAAA
  | DataCNAME RDataCNAME
  | DataDNAME RDataDNAME
  | DataNS RDataNS
  | DataPTR RDataPTR
  | DataMX RDataMX
  | DataTXT RDataTXT
  | DataHINFO RDataHINFO
  | DataRP RDataRP
  | DataAFSDB RDataAFSDB
  | DataLOC RDataLOC
  | DataSOA RDataSOA
  | DataSRV RDataSRV
  | DataKX RDataKX
  | DataCERT RDataCERT
  | DataCAA RDataCAA
  | DataURI RDataURI
  | DataNAPTR RDataNAPTR
  | DataAPL RDataAPL
  | DataSSHFP RDataSSHFP
  | DataHIP RDataHIP
  | DataIPSECKEY RDataIPSECKEY
  | DataTLSA RDataTLSA
  | DataDHCID RDataDHCID
  | DataDS RDataDS
  | DataDNSKEY RDataDNSKEY
  | DataOPENPGPKEY RDataOPENPGPKEY
  | DataRRSIG RDataRRSIG
  | DataNSEC RDataNSEC
  | DataNSEC3 RDataNSEC3
  | DataNSEC3PARAM RDataNSEC3PARAM
  | DataOPT RDataOPT
  | DataSVCB RDataSVCB
  | DataHTTPS RDataHTTPS
  | DataZONEMD RDataZONEMD
  | DataRaw RDataRaw

primrec rdata_Type :: "rdata \<Rightarrow> uint16" where
  "rdata_Type (DataA r) = TypeA"
| "rdata_Type (DataAAAA r) = TypeAAAA"
| "rdata_Type (DataCNAME r) = TypeCNAME"
| "rdata_Type (DataDNAME r) = TypeDNAME"
| "rdata_Type (DataNS r) = TypeNS"
| "rdata_Type (DataPTR r) = TypePTR"
| "rdata_Type (DataMX r) = TypeMX"
| "rdata_Type (DataTXT r) = TypeTXT"
| "rdata_Type (DataHINFO r) = TypeHINFO"
| "rdata_Type (DataRP r) = TypeRP"
| "rdata_Type (DataAFSDB r) = TypeAFSDB"
| "rdata_Type (DataLOC r) = TypeLOC"
| "rdata_Type (DataSOA r) = TypeSOA"
| "rdata_Type (DataSRV r) = TypeSRV"
| "rdata_Type (DataKX r) = TypeKX"
| "rdata_Type (DataCERT r) = TypeCERT"
| "rdata_Type (DataCAA r) = TypeCAA"
| "rdata_Type (DataURI r) = TypeURI"
| "rdata_Type (DataNAPTR r) = TypeNAPTR"
| "rdata_Type (DataAPL r) = TypeAPL"
| "rdata_Type (DataSSHFP r) = TypeSSHFP"
| "rdata_Type (DataHIP r) = TypeHIP"
| "rdata_Type (DataIPSECKEY r) = TypeIPSECKEY"
| "rdata_Type (DataTLSA r) = TypeTLSA"
| "rdata_Type (DataDHCID r) = TypeDHCID"
| "rdata_Type (DataDS r) = TypeDS"
| "rdata_Type (DataDNSKEY r) = TypeDNSKEY"
| "rdata_Type (DataOPENPGPKEY r) = TypeOPENPGPKEY"
| "rdata_Type (DataRRSIG r) = TypeRRSIG"
| "rdata_Type (DataNSEC r) = TypeNSEC"
| "rdata_Type (DataNSEC3 r) = TypeNSEC3"
| "rdata_Type (DataNSEC3PARAM r) = TypeNSEC3PARAM"
| "rdata_Type (DataOPT r) = TypeOPT"
| "rdata_Type (DataSVCB r) = TypeSVCB"
| "rdata_Type (DataHTTPS r) = TypeHTTPS"
| "rdata_Type (DataZONEMD r) = TypeZONEMD"
| "rdata_Type (DataRaw r) = RDataRaw_Type (Some r)"

primrec rdata_Pack :: "rdata \<Rightarrow> bytes \<Rightarrow> nat \<Rightarrow> (nat \<times> bytes) result" where
  "rdata_Pack (DataA r) = RDataA_Pack (Some r)"
| "rdata_Pack (DataAAAA r) = RDataAAAA_Pack (Some r)"
| "rdata_Pack (DataCNAME r) = RDataCNAME_Pack (Some r)"
| "rdata_Pack (DataDNAME r) = RDataDNAME_Pack (Some r)"
| "rdata_Pack (DataNS r) = RDataNS_Pack (Some r)"
| "rdata_Pack (DataPTR r) = RDataPTR_Pack (Some r)"
| "rdata_Pack (DataMX r) = RDataMX_Pack (Some r)"
| "rdata_Pack (DataTXT r) = RDataTXT_Pack (Some r)"
| "rdata_Pack (DataHINFO r) = RDataHINFO_Pack (Some r)"
| "rdata_Pack (DataRP r) = RDataRP_Pack (Some r)"
| "rdata_Pack (DataAFSDB r) = RDataAFSDB_Pack (Some r)"
| "rdata_Pack (DataLOC r) = RDataLOC_Pack (Some r)"
| "rdata_Pack (DataSOA r) = RDataSOA_Pack (Some r)"
| "rdata_Pack (DataSRV r) = RDataSRV_Pack (Some r)"
| "rdata_Pack (DataKX r) = RDataKX_Pack (Some r)"
| "rdata_Pack (DataCERT r) = RDataCERT_Pack (Some r)"
| "rdata_Pack (DataCAA r) = RDataCAA_Pack (Some r)"
| "rdata_Pack (DataURI r) = RDataURI_Pack (Some r)"
| "rdata_Pack (DataNAPTR r) = RDataNAPTR_Pack (Some r)"
| "rdata_Pack (DataAPL r) = RDataAPL_Pack (Some r)"
| "rdata_Pack (DataSSHFP r) = RDataSSHFP_Pack (Some r)"
| "rdata_Pack (DataHIP r) = RDataHIP_Pack (Some r)"
| "rdata_Pack (DataIPSECKEY r) = RDataIPSECKEY_Pack (Some r)"
| "rdata_Pack (DataTLSA r) = RDataTLSA_Pack (Some r)"
| "rdata_Pack (DataDHCID r) = RDataDHCID_Pack (Some r)"
| "rdata_Pack (DataDS r) = RDataDS_Pack (Some r)"
| "rdata_Pack (DataDNSKEY r) = RDataDNSKEY_Pack (Some r)"
| "rdata_Pack (DataOPENPGPKEY r) = RDataOPENPGPKEY_Pack (Some r)"
| "rdata_Pack (DataRRSIG r) = RDataRRSIG_Pack (Some r)"
| "rdata_Pack (DataNSEC r) = RDataNSEC_Pack (Some r)"
| "rdata_Pack (DataNSEC3 r) = RDataNSEC3_Pack (Some r)"
| "rdata_Pack (DataNSEC3PARAM r) = RDataNSEC3PARAM_Pack (Some r)"
| "rdata_Pack (DataOPT r) = RDataOPT_Pack (Some r)"
| "rdata_Pack (DataSVCB r) = RDataSVCB_Pack (Some r)"
| "rdata_Pack (DataHTTPS r) = RDataHTTPS_Pack (Some r)"
| "rdata_Pack (DataZONEMD r) = RDataZONEMD_Pack (Some r)"
| "rdata_Pack (DataRaw r) = RDataRaw_Pack (Some r)"

definition with_data :: "('a \<Rightarrow> rdata) \<Rightarrow> (nat \<times> 'a) result \<Rightarrow> (nat \<times> rdata) result" where
  "with_data c r = (case r of Inl e \<Rightarrow> Inl e | Inr (n, x) \<Rightarrow> Inr (n, c x))"

primrec rdata_Unpack :: "rdata \<Rightarrow> bytes \<Rightarrow> nat \<Rightarrow> uint16 \<Rightarrow> (nat \<times> rdata) result" where
  "rdata_Unpack (DataA r) = (\<lambda>buf off rdlength. with_data DataA (RDataA_Unpack (Some r) buf off rdlength))"
| "rdata_Unpack (DataAAAA r) = (\<lambda>buf off rdlength. with_data DataAAAA (RDataAAAA_Unpack (Some r) buf off rdlength))"
| "rdata_Unpack (DataCNAME r) = (\<lambda>buf off rdlength. with_data DataCNAME (RDataCNAME_Unpack (Some r) buf off rdlength))"
| "rdata_Unpack (DataDNAME r) = (\<lambda>buf off rdlength. with_data DataDNAME (RDataDNAME_Unpack (Some r) buf off rdlength))"
| "rdata_Unpack (DataNS r) = (\<lambda>buf off rdlength. with_data DataNS (RDataNS_Unpack (Some r) buf off rdlength))"
| "rdata_Unpack (DataPTR r) = (\<lambda>buf off rdlength. with_data DataPTR (RDataPTR_Unpack (Some r) buf off rdlength))"
| "rdata_Unpack (DataMX r) = (\<lambda>buf off rdlength. with_data DataMX (RDataMX_Unpack (Some r) buf off rdlength))"
| "rdata_Unpack (DataTXT r) = (\<lambda>buf off rdlength. with_data DataTXT (RDataTXT_Unpack (Some r) buf off rdlength))"
| "rdata_Unpack (DataHINFO r) = (\<lambda>buf off rdlength. with_data DataHINFO (RDataHINFO_Unpack (Some r) buf off rdlength))"
| "rdata_Unpack (DataRP r) = (\<lambda>buf off rdlength. with_data DataRP (RDataRP_Unpack (Some r) buf off rdlength))"
| "rdata_Unpack (DataAFSDB r) = (\<lambda>buf off rdlength. with_data DataAFSDB (RDataAFSDB_Unpack (Some r) buf off rdlength))"
| "rdata_Unpack (DataLOC r) = (\<lambda>buf off rdlength. with_data DataLOC (RDataLOC_Unpack (Some r) buf off rdlength))"
| "rdata_Unpack (DataSOA r) = (\<lambda>buf off rdlength. with_data DataSOA (RDataSOA_Unpack (Some r) buf off rdlength))"
| "rdata_Unpack (DataSRV r) = (\<lambda>buf off rdlength. with_data DataSRV (RDataSRV_Unpack (Some r) buf off rdlength))"
| "rdata_Unpack (DataKX r) = (\<lambda>buf off rdlength. with_data DataKX (RDataKX_Unpack (Some r) buf off rdlength))"
| "rdata_Unpack (DataCERT r) = (\<lambda>buf off rdlength. with_data DataCERT (RDataCERT_Unpack (Some r) buf off rdlength))"
| "rdata_Unpack (DataCAA r) = (\<lambda>buf off rdlength. with_data DataCAA (RDataCAA_Unpack (Some r) buf off rdlength))"
| "rdata_Unpack (DataURI r) = (\<lambda>buf off rdlength. with_data DataURI (RDataURI_Unpack (Some r) buf off rdlength))"
| "rdata_Unpack (DataNAPTR r) = (\<lambda>buf off rdlength. with_data DataNAPTR (RDataNAPTR_Unpack (Some r) buf off rdlength))"
| "rdata_Unpack (DataAPL r) = (\<lambda>buf off rdlength. with_data DataAPL (RDataAPL_Unpack (Some r) buf off rdlength))"
| "rdata_Unpack (DataSSHFP r) = (\<lambda>buf off rdlength. with_data DataSSHFP (RDataSSHFP_Unpack (Some r) buf off rdlength))"
| "rdata_Unpack (DataHIP r) = (\<lambda>buf off rdlength. with_data DataHIP (RDataHIP_Unpack (Some r) buf off rdlength))"
| "rdata_Unpack (DataIPSECKEY r) = (\<lambda>buf off rdlength. with_data DataIPSECKEY (RDataIPSECKEY_Unpack (Some r) buf off rdlength))"
| "rdata_Unpack (DataTLSA r) = (\<lambda>buf off rdlength. with_data DataTLSA (RDataTLSA_Unpack (Some r) buf off rdlength))"
| "rdata_Unpack (DataDHCID r) = (\<lambda>buf off rdlength. with_data DataDHCID (RDataDHCID_Unpack (Some r) buf off rdlength))"
| "rdata_Unpack (DataDS r) = (\<lambda>buf off rdlength. with_data DataDS (RDataDS_Unpack (Some r) buf off rdlength))"
| "rdata_Unpack (DataDNSKEY r) = (\<lambda>buf off rdlength. with_data DataDNSKEY (RDataDNSKEY_Unpack (Some r) buf off rdlength))"
| "rdata_Unpack (DataOPENPGPKEY r) = (\<lambda>buf off rdlength. with_data DataOPENPGPKEY (RDataOPENPGPKEY_Unpack (Some r) buf off rdlength))"
| "rdata_Unpack (DataRRSIG r) = (\<lambda>buf off rdlength. with_data DataRRSIG (RDataRRSIG_Unpack (Some r) buf off rdlength))"
| "rdata_Unpack (DataNSEC r) = (\<lambda>buf off rdlength. with_data DataNSEC (RDataNSEC_Unpack (Some r) buf off rdlength))"
| "rdata_Unpack (DataNSEC3 r) = (\<lambda>buf off rdlength. with_data DataNSEC3 (RDataNSEC3_Unpack (Some r) buf off rdlength))"
| "rdata_Unpack (DataNSEC3PARAM r) = (\<lambda>buf off rdlength. with_data DataNSEC3PARAM (RDataNSEC3PARAM_Unpack (Some r) buf off rdlength))"
| "rdata_Unpack (DataOPT r) = (\<lambda>buf off rdlength. with_data DataOPT (RDataOPT_Unpack (Some r) buf off rdlength))"
| "rdata_Unpack (DataSVCB r) = (\<lambda>buf off rdlength. with_data DataSVCB (RDataSVCB_Unpack (Some r) buf off rdlength))"
| "rdata_Unpack (DataHTTPS r) = (\<lambda>buf off rdlength. with_data DataHTTPS (RDataHTTPS_Unpack (Some r) buf off rdlength))"
| "rdata_Unpack (DataZONEMD r) = (\<lambda>buf off rdlength. with_data DataZONEMD (RDataZONEMD_Unpack (Some r) buf off rdlength))"
| "rdata_Unpack (DataRaw r) = (\<lambda>buf off rdlength. with_data DataRaw (RDataRaw_Unpack (Some r) buf off rdlength))"

primrec rdata_Len :: "rdata \<Rightarrow> nat" where
  "rdata_Len (DataA r) = RDataA_Len (Some r)"
| "rdata_Len (DataAAAA r) = RDataAAAA_Len (Some r)"
| "rdata_Len (DataCNAME r) = RDataCNAME_Len (Some r)"
| "rdata_Len (DataDNAME r) = RDataDNAME_Len (Some r)"
| "rdata_Len (DataNS r) = RDataNS_Len (Some r)"
| "rdata_Len (DataPTR r) = RDataPTR_Len (Some r)"
| "rdata_Len (DataMX r) = RDataMX_Len (Some r)"
| "rdata_Len (DataTXT r) = RDataTXT_Len (Some r)"
| "rdata_Len (DataHINFO r) = RDataHINFO_Len (Some r)"
| "rdata_Len (DataRP r) = RDataRP_Len (Some r)"
| "rdata_Len (DataAFSDB r) = RDataAFSDB_Len (Some r)"
| "rdata_Len (DataLOC r) = RDataLOC_Len (Some r)"
| "rdata_Len (DataSOA r) = RDataSOA_Len (Some r)"
| "rdata_Len (DataSRV r) = RDataSRV_Len (Some r)"
| "rdata_Len (DataKX r) = RDataKX_Len (Some r)"
| "rdata_Len (DataCERT r) = RDataCERT_Len (Some r)"
| "rdata_Len (DataCAA r) = RDataCAA_Len (Some r)"
| "rdata_Len (DataURI r) = RDataURI_Len (Some r)"
| "rdata_Len (DataNAPTR r) = RDataNAPTR_Len (Some r)"
| "rdata_Len (DataAPL r) = RDataAPL_Len (Some r)"
| "rdata_Len (DataSSHFP r) = RDataSSHFP_Len (Some r)"
| "rdata_Len (DataHIP r) = RDataHIP_Len (Some r)"
| "rdata_Len (DataIPSECKEY r) = RDataIPSECKEY_Len (Some r)"
| "rdata_Len (DataTLSA r) = RDataTLSA_Len (Some r)"
| "rdata_Len (DataDHCID r) = RDataDHCID_Len (Some r)"
| "rdata_Len (DataDS r) = RDataDS_Len (Some r)"
| "rdata_Len (DataDNSKEY r) = RDataDNSKEY_Len (Some r)"
| "rdata_Len (DataOPENPGPKEY r) = RDataOPENPGPKEY_Len (Some r)"
| "rdata_Len (DataRRSIG r) = RDataRRSIG_Len (Some r)"
| "rdata_Len (DataNSEC r) = RDataNSEC_Len (Some r)"
| "rdata_Len (DataNSEC3 r) = RDataNSEC3_Len (Some r)"
| "rdata_Len (DataNSEC3PARAM r) = RDataNSEC3PARAM_Len (Some r)"
| "rdata_Len (DataOPT r) = RDataOPT_Len (Some r)"
| "rdata_Len (DataSVCB r) = RDataSVCB_Len (Some r)"
| "rdata_Len (DataHTTPS r) = RDataHTTPS_Len (Some r)"
| "rdata_Len (DataZONEMD r) = RDataZONEMD_Len (Some r)"
| "rdata_Len (DataRaw r) = RDataRaw_Len (Some r)"

definition createRData :: "uint16 \<Rightarrow> rdata option" where
  "createRData rrtype =
     (if rrtype = TypeA then Some (DataA RDataA_zero)
      else if rrtype = TypeAAAA then Some (DataAAAA RDataAAAA_zero)
      else if rrtype = TypeCNAME then Some (DataCNAME RDataCNAME_zero)
      else if rrtype = TypeDNAME then Some (DataDNAME RDataDNAME_zero)
      else if rrtype = TypeNS then Some (DataNS RDataNS_zero)
      else if rrtype = TypePTR then Some (DataPTR RDataPTR_zero)
      else if rrtype = TypeMX then Some (DataMX RDataMX_zero)
      else if rrtype = TypeTXT then Some (DataTXT RDataTXT_zero)
      else if rrtype = TypeHINFO then Some (DataHINFO RDataHINFO_zero)
      else if rrtype = TypeRP then Some (DataRP RDataRP_zero)
      else if rrtype = TypeAFSDB then Some (DataAFSDB RDataAFSDB_zero)
      else if rrtype = TypeSIG then Some (DataRRSIG RDataRRSIG_zero)
      else if rrtype = TypeKEY then Some (DataDNSKEY RDataDNSKEY_zero)
      else if rrtype = TypeSPF then Some (DataTXT RDataTXT_zero)
      else if rrtype = TypeLOC then Some (DataLOC RDataLOC_zero)
      else if rrtype = TypeSOA then Some (DataSOA RDataSOA_zero)
      else if rrtype = TypeSRV then Some (DataSRV RDataSRV_zero)
      else if rrtype = TypeKX then Some (DataKX RDataKX_zero)
      else if rrtype = TypeCERT then Some (DataCERT RDataCERT_zero)
      else if rrtype = TypeCAA then Some (DataCAA RDataCAA_zero)
      else if rrtype = TypeURI then Some (DataURI RDataURI_zero)
      else if rrtype = TypeNAPTR then Some (DataNAPTR RDataNAPTR_zero)
      else if rrtype = TypeAPL then Some (DataAPL RDataAPL_zero)
      else if rrtype = TypeSSHFP then Some (DataSSHFP RDataSSHFP_zero)
      else if rrtype = TypeHIP then Some (DataHIP RDataHIP_zero)
      else if rrtype = TypeIPSECKEY then Some (DataIPSECKEY RDataIPSECKEY_zero)
      else if rrtype = TypeTLSA then Some (DataTLSA RDataTLSA_zero)
      else if rrtype = TypeDHCID then Some (DataDHCID RDataDHCID_zero)
      else if rrtype = TypeDS then Some (DataDS RDataDS_zero)
      else if rrtype = TypeCDS then Some (DataDS RDataDS_zero)
      else if rrtype = TypeDNSKEY then Some (DataDNSKEY RDataDNSKEY_zero)
      else if rrtype = TypeCDNSKEY then Some (DataDNSKEY RDataDNSKEY_zero)
      else if rrtype = TypeTA then Some (DataDS RDataDS_zero)
      else if rrtype = TypeOPENPGPKEY then Some (DataOPENPGPKEY RDataOPENPGPKEY_zero)
      else if rrtype = TypeRRSIG then Some (DataRRSIG RDataRRSIG_zero)
      else if rrtype = TypeNSEC then Some (DataNSEC RDataNSEC_zero)
      else if rrtype = TypeNSEC3 then Some (DataNSEC3 RDataNSEC3_zero)
      else if rrtype = TypeNSEC3PARAM then Some (DataNSEC3PARAM RDataNSEC3PARAM_zero)
      else if rrtype = TypeOPT then Some (DataOPT RDataOPT_zero)
      else if rrtype = TypeSVCB then Some (DataSVCB RDataSVCB_zero)
      else if rrtype = TypeHTTPS then Some (DataHTTPS RDataHTTPS_zero)
      else if rrtype = TypeZONEMD then Some (DataZONEMD RDataZONEMD_zero)
      else None)"

subsection \<open>The contract, for data of any type\<close>

primrec rdata_wf :: "rdata \<Rightarrow> bool" where
  "rdata_wf (DataA r) = RDataA_wf r"
| "rdata_wf (DataAAAA r) = RDataAAAA_wf r"
| "rdata_wf (DataCNAME r) = RDataCNAME_wf r"
| "rdata_wf (DataDNAME r) = RDataDNAME_wf r"
| "rdata_wf (DataNS r) = RDataNS_wf r"
| "rdata_wf (DataPTR r) = RDataPTR_wf r"
| "rdata_wf (DataMX r) = RDataMX_wf r"
| "rdata_wf (DataTXT r) = RDataTXT_wf r"
| "rdata_wf (DataHINFO r) = RDataHINFO_wf r"
| "rdata_wf (DataRP r) = RDataRP_wf r"
| "rdata_wf (DataAFSDB r) = RDataAFSDB_wf r"
| "rdata_wf (DataLOC r) = RDataLOC_wf r"
| "rdata_wf (DataSOA r) = RDataSOA_wf r"
| "rdata_wf (DataSRV r) = RDataSRV_wf r"
| "rdata_wf (DataKX r) = RDataKX_wf r"
| "rdata_wf (DataCERT r) = RDataCERT_wf r"
| "rdata_wf (DataCAA r) = RDataCAA_wf r"
| "rdata_wf (DataURI r) = RDataURI_wf r"
| "rdata_wf (DataNAPTR r) = RDataNAPTR_wf r"
| "rdata_wf (DataAPL r) = RDataAPL_wf r"
| "rdata_wf (DataSSHFP r) = RDataSSHFP_wf r"
| "rdata_wf (DataHIP r) = RDataHIP_wf r"
| "rdata_wf (DataIPSECKEY r) = RDataIPSECKEY_wf r"
| "rdata_wf (DataTLSA r) = RDataTLSA_wf r"
| "rdata_wf (DataDHCID r) = True"
| "rdata_wf (DataDS r) = RDataDS_wf r"
| "rdata_wf (DataDNSKEY r) = RDataDNSKEY_wf r"
| "rdata_wf (DataOPENPGPKEY r) = True"
| "rdata_wf (DataRRSIG r) = RDataRRSIG_wf r"
| "rdata_wf (DataNSEC r) = RDataNSEC_wf r"
| "rdata_wf (DataNSEC3 r) = RDataNSEC3_wf r"
| "rdata_wf (DataNSEC3PARAM r) = RDataNSEC3PARAM_wf r"
| "rdata_wf (DataOPT r) = RDataOPT_wf r"
| "rdata_wf (DataSVCB r) = RDataSVCB_wf r"
| "rdata_wf (DataHTTPS r) = RDataHTTPS_wf r"
| "rdata_wf (DataZONEMD r) = RDataZONEMD_wf r"
| "rdata_wf (DataRaw r) = True"

primrec rdata_enc :: "rdata \<Rightarrow> bytes" where
  "rdata_enc (DataA r) = a_Address r"
| "rdata_enc (DataAAAA r) = aaaa_Address r"
| "rdata_enc (DataCNAME r) = RDataCNAME_enc r"
| "rdata_enc (DataDNAME r) = RDataDNAME_enc r"
| "rdata_enc (DataNS r) = RDataNS_enc r"
| "rdata_enc (DataPTR r) = RDataPTR_enc r"
| "rdata_enc (DataMX r) = RDataMX_enc r"
| "rdata_enc (DataTXT r) = RDataTXT_enc r"
| "rdata_enc (DataHINFO r) = RDataHINFO_enc r"
| "rdata_enc (DataRP r) = RDataRP_enc r"
| "rdata_enc (DataAFSDB r) = RDataAFSDB_enc r"
| "rdata_enc (DataLOC r) = RDataLOC_enc r"
| "rdata_enc (DataSOA r) = RDataSOA_enc r"
| "rdata_enc (DataSRV r) = RDataSRV_enc r"
| "rdata_enc (DataKX r) = RDataKX_enc r"
| "rdata_enc (DataCERT r) = RDataCERT_enc r"
| "rdata_enc (DataCAA r) = RDataCAA_enc r"
| "rdata_enc (DataURI r) = RDataURI_enc r"
| "rdata_enc (DataNAPTR r) = RDataNAPTR_enc r"
| "rdata_enc (DataAPL r) = RDataAPL_enc r"
| "rdata_enc (DataSSHFP r) = RDataSSHFP_enc r"
| "rdata_enc (DataHIP r) = RDataHIP_enc r"
| "rdata_enc (DataIPSECKEY r) = RDataIPSECKEY_enc r"
| "rdata_enc (DataTLSA r) = RDataTLSA_enc r"
| "rdata_enc (DataDHCID r) = dhcid_Data r"
| "rdata_enc (DataDS r) = RDataDS_enc r"
| "rdata_enc (DataDNSKEY r) = RDataDNSKEY_enc r"
| "rdata_enc (DataOPENPGPKEY r) = pgp_PublicKey r"
| "rdata_enc (DataRRSIG r) = RDataRRSIG_enc r"
| "rdata_enc (DataNSEC r) = RDataNSEC_enc r"
| "rdata_enc (DataNSEC3 r) = RDataNSEC3_enc r"
| "rdata_enc (DataNSEC3PARAM r) = RDataNSEC3PARAM_enc r"
| "rdata_enc (DataOPT r) = RDataOPT_enc r"
| "rdata_enc (DataSVCB r) = RDataSVCB_enc r"
| "rdata_enc (DataHTTPS r) = RDataHTTPS_enc r"
| "rdata_enc (DataZONEMD r) = RDataZONEMD_enc r"
| "rdata_enc (DataRaw r) = raw_Data r"

primrec rdata_canon :: "rdata \<Rightarrow> rdata" where
  "rdata_canon (DataA r) = DataA r"
| "rdata_canon (DataAAAA r) = DataAAAA r"
| "rdata_canon (DataCNAME r) = DataCNAME (RDataCNAME_canon r)"
| "rdata_canon (DataDNAME r) = DataDNAME (RDataDNAME_canon r)"
| "rdata_canon (DataNS r) = DataNS (RDataNS_canon r)"
| "rdata_canon (DataPTR r) = DataPTR (RDataPTR_canon r)"
| "rdata_canon (DataMX r) = DataMX (RDataMX_canon r)"
| "rdata_canon (DataTXT r) = DataTXT r"
| "rdata_canon (DataHINFO r) = DataHINFO r"
| "rdata_canon (DataRP r) = DataRP (RDataRP_canon r)"
| "rdata_canon (DataAFSDB r) = DataAFSDB (RDataAFSDB_canon r)"
| "rdata_canon (DataLOC r) = DataLOC r"
| "rdata_canon (DataSOA r) = DataSOA (RDataSOA_canon r)"
| "rdata_canon (DataSRV r) = DataSRV (RDataSRV_canon r)"
| "rdata_canon (DataKX r) = DataKX (RDataKX_canon r)"
| "rdata_canon (DataCERT r) = DataCERT r"
| "rdata_canon (DataCAA r) = DataCAA r"
| "rdata_canon (DataURI r) = DataURI r"
| "rdata_canon (DataNAPTR r) = DataNAPTR (RDataNAPTR_canon r)"
| "rdata_canon (DataAPL r) = DataAPL r"
| "rdata_canon (DataSSHFP r) = DataSSHFP r"
| "rdata_canon (DataHIP r) = DataHIP (RDataHIP_canon r)"
| "rdata_canon (DataIPSECKEY r) = DataIPSECKEY (RDataIPSECKEY_canon r)"
| "rdata_canon (DataTLSA r) = DataTLSA r"
| "rdata_canon (DataDHCID r) = DataDHCID r"
| "rdata_canon (DataDS r) = DataDS r"
| "rdata_canon (DataDNSKEY r) = DataDNSKEY r"
| "rdata_canon (DataOPENPGPKEY r) = DataOPENPGPKEY r"
| "rdata_canon (DataRRSIG r) = DataRRSIG (RDataRRSIG_canon r)"
| "rdata_canon (DataNSEC r) = DataNSEC (RDataNSEC_canon r)"
| "rdata_canon (DataNSEC3 r) = DataNSEC3 (RDataNSEC3_canon r)"
| "rdata_canon (DataNSEC3PARAM r) = DataNSEC3PARAM r"
| "rdata_canon (DataOPT r) = DataOPT r"
| "rdata_canon (DataSVCB r) = DataSVCB (RDataSVCB_canon r)"
| "rdata_canon (DataHTTPS r) = DataHTTPS (RDataHTTPS_canon r)"
| "rdata_canon (DataZONEMD r) = DataZONEMD r"
| "rdata_canon (DataRaw r) = DataRaw r"

primrec rdata_zero :: "rdata \<Rightarrow> rdata" where
  "rdata_zero (DataA r) = DataA RDataA_zero"
| "rdata_zero (DataAAAA r) = DataAAAA RDataAAAA_zero"
| "rdata_zero (DataCNAME r) = DataCNAME RDataCNAME_zero"
| "rdata_zero (DataDNAME r) = DataDNAME RDataDNAME_zero"
| "rdata_zero (DataNS r) = DataNS RDataNS_zero"
| "rdata_zero (DataPTR r) = DataPTR RDataPTR_zero"
| "rdata_zero (DataMX r) = DataMX RDataMX_zero"
| "rdata_zero (DataTXT r) = DataTXT RDataTXT_zero"
| "rdata_zero (DataHINFO r) = DataHINFO RDataHINFO_zero"
| "rdata_zero (DataRP r) = DataRP RDataRP_zero"
| "rdata_zero (DataAFSDB r) = DataAFSDB RDataAFSDB_zero"
| "rdata_zero (DataLOC r) = DataLOC RDataLOC_zero"
| "rdata_zero (DataSOA r) = DataSOA RDataSOA_zero"
| "rdata_zero (DataSRV r) = DataSRV RDataSRV_zero"
| "rdata_zero (DataKX r) = DataKX RDataKX_zero"
| "rdata_zero (DataCERT r) = DataCERT RDataCERT_zero"
| "rdata_zero (DataCAA r) = DataCAA RDataCAA_zero"
| "rdata_zero (DataURI r) = DataURI RDataURI_zero"
| "rdata_zero (DataNAPTR r) = DataNAPTR RDataNAPTR_zero"
| "rdata_zero (DataAPL r) = DataAPL RDataAPL_zero"
| "rdata_zero (DataSSHFP r) = DataSSHFP RDataSSHFP_zero"
| "rdata_zero (DataHIP r) = DataHIP RDataHIP_zero"
| "rdata_zero (DataIPSECKEY r) = DataIPSECKEY RDataIPSECKEY_zero"
| "rdata_zero (DataTLSA r) = DataTLSA RDataTLSA_zero"
| "rdata_zero (DataDHCID r) = DataDHCID RDataDHCID_zero"
| "rdata_zero (DataDS r) = DataDS RDataDS_zero"
| "rdata_zero (DataDNSKEY r) = DataDNSKEY RDataDNSKEY_zero"
| "rdata_zero (DataOPENPGPKEY r) = DataOPENPGPKEY RDataOPENPGPKEY_zero"
| "rdata_zero (DataRRSIG r) = DataRRSIG RDataRRSIG_zero"
| "rdata_zero (DataNSEC r) = DataNSEC RDataNSEC_zero"
| "rdata_zero (DataNSEC3 r) = DataNSEC3 RDataNSEC3_zero"
| "rdata_zero (DataNSEC3PARAM r) = DataNSEC3PARAM RDataNSEC3PARAM_zero"
| "rdata_zero (DataOPT r) = DataOPT RDataOPT_zero"
| "rdata_zero (DataSVCB r) = DataSVCB RDataSVCB_zero"
| "rdata_zero (DataHTTPS r) = DataHTTPS RDataHTTPS_zero"
| "rdata_zero (DataZONEMD r) = DataZONEMD RDataZONEMD_zero"
| "rdata_zero (DataRaw r) = DataRaw (r\<lparr>raw_Data := []\<rparr>)"

lemma with_data_Inr: "with_data c r = Inr (n, d) \<longleftrightarrow> (\<exists>x. r = Inr (n, x) \<and> d = c x)"
  by (auto simp: with_data_def split: sum.splits)

lemma with_data_simps [simp]: "with_data c (Inr (n, x)) = Inr (n, c x)"
  by (simp add: with_data_def)

context rdata_codec
begin

lemma unpack_with:
  "wf r \<Longrightarrow> holds buf off (enc r) \<Longrightarrow> unat rdlength = length (enc r) \<Longrightarrow>
   with_data c (unpack zero buf off rdlength) = Inr (length (enc r), c (canon r))"
  by (simp add: unpack_enc)

lemma bound_with:
  "with_data c (unpack zero buf off rdlength) = Inr (n, d) \<Longrightarrow>
   n \<le> unat rdlength \<and> off + n \<le> length buf \<and> (\<exists>x. d = c x)"
  by (auto simp: with_data_Inr dest: unpack_bound)

end

context rdata_closed
begin

lemma wf_with:
  "with_data c (unpack zero buf off rdlength) = Inr (n, d) \<Longrightarrow> \<exists>x. d = c x \<and> wf x"
  by (auto simp: with_data_Inr dest: unpack_wf)

end

lemmas all_pack_iff =
  A.pack_iff AAAA.pack_iff CNAME.pack_iff DNAME.pack_iff NS.pack_iff PTR.pack_iff MX.pack_iff
  TXT.pack_iff HINFO.pack_iff RP.pack_iff AFSDB.pack_iff LOC.pack_iff SOA.pack_iff SRV.pack_iff
  KX.pack_iff CERT.pack_iff CAA.pack_iff URI.pack_iff NAPTR.pack_iff APL.pack_iff SSHFP.pack_iff
  HIP.pack_iff IPSECKEY.pack_iff TLSA.pack_iff DHCID.pack_iff DS.pack_iff DNSKEY.pack_iff
  OPENPGPKEY.pack_iff RRSIG.pack_iff NSEC.pack_iff NSEC3.pack_iff NSEC3PARAM.pack_iff
  OPT.pack_iff SVCB.pack_iff HTTPS.pack_iff ZONEMD.pack_iff

lemmas all_len_enc =
  A.len_enc AAAA.len_enc CNAME.len_enc DNAME.len_enc NS.len_enc PTR.len_enc MX.len_enc
  TXT.len_enc HINFO.len_enc RP.len_enc AFSDB.len_enc LOC.len_enc SOA.len_enc SRV.len_enc
  KX.len_enc CERT.len_enc CAA.len_enc URI.len_enc NAPTR.len_enc APL.len_enc SSHFP.len_enc
  HIP.len_enc IPSECKEY.len_enc TLSA.len_enc DHCID.len_enc DS.len_enc DNSKEY.len_enc
  OPENPGPKEY.len_enc RRSIG.len_enc NSEC.len_enc NSEC3.len_enc NSEC3PARAM.len_enc OPT.len_enc
  SVCB.len_enc HTTPS.len_enc ZONEMD.len_enc

lemmas all_unpack_with =
  A.unpack_with AAAA.unpack_with CNAME.unpack_with DNAME.unpack_with NS.unpack_with
  PTR.unpack_with MX.unpack_with TXT.unpack_with HINFO.unpack_with RP.unpack_with
  AFSDB.unpack_with LOC.unpack_with SOA.unpack_with SRV.unpack_with KX.unpack_with
  CERT.unpack_with CAA.unpack_with URI.unpack_with NAPTR.unpack_with APL.unpack_with
  SSHFP.unpack_with HIP.unpack_with IPSECKEY.unpack_with TLSA.unpack_with DHCID.unpack_with
  DS.unpack_with DNSKEY.unpack_with OPENPGPKEY.unpack_with RRSIG.unpack_with NSEC.unpack_with
  NSEC3.unpack_with NSEC3PARAM.unpack_with OPT.unpack_with SVCB.unpack_with HTTPS.unpack_with
  ZONEMD.unpack_with

lemmas all_canon_wf =
  CNAME.canon_wf DNAME.canon_wf NS.canon_wf PTR.canon_wf MX.canon_wf RP.canon_wf AFSDB.canon_wf
  SOA.canon_wf SRV.canon_wf KX.canon_wf NAPTR.canon_wf HIP.canon_wf IPSECKEY.canon_wf
  RRSIG.canon_wf NSEC.canon_wf NSEC3.canon_wf SVCB.canon_wf HTTPS.canon_wf

lemmas all_canon_enc =
  CNAME.canon_enc DNAME.canon_enc NS.canon_enc PTR.canon_enc MX.canon_enc RP.canon_enc
  AFSDB.canon_enc SOA.canon_enc SRV.canon_enc KX.canon_enc NAPTR.canon_enc HIP.canon_enc
  IPSECKEY.canon_enc RRSIG.canon_enc NSEC.canon_enc NSEC3.canon_enc SVCB.canon_enc
  HTTPS.canon_enc

lemmas all_bound_with =
  A.bound_with AAAA.bound_with CNAME.bound_with DNAME.bound_with NS.bound_with PTR.bound_with
  MX.bound_with TXT.bound_with HINFO.bound_with RP.bound_with AFSDB.bound_with LOC.bound_with
  SOA.bound_with SRV.bound_with KX.bound_with CERT.bound_with CAA.bound_with URI.bound_with
  NAPTR.bound_with APL.bound_with SSHFP.bound_with HIP.bound_with IPSECKEY.bound_with
  TLSA.bound_with DHCID.bound_with DS.bound_with DNSKEY.bound_with OPENPGPKEY.bound_with
  RRSIG.bound_with NSEC.bound_with NSEC3.bound_with NSEC3PARAM.bound_with OPT.bound_with
  SVCB.bound_with HTTPS.bound_with ZONEMD.bound_with

lemmas all_wf_with =
  A.wf_with AAAA.wf_with CNAME.wf_with DNAME.wf_with NS.wf_with PTR.wf_with MX.wf_with
  TXT.wf_with HINFO.wf_with RP.wf_with AFSDB.wf_with LOC.wf_with SOA.wf_with SRV.wf_with
  KX.wf_with CERT.wf_with CAA.wf_with URI.wf_with NAPTR.wf_with APL.wf_with SSHFP.wf_with
  HIP.wf_with IPSECKEY.wf_with TLSA.wf_with DHCID.wf_with DS.wf_with DNSKEY.wf_with
  OPENPGPKEY.wf_with RRSIG.wf_with NSEC.wf_with NSEC3.wf_with NSEC3PARAM.wf_with OPT.wf_with
  ZONEMD.wf_with

lemma rdata_pack_iff:
  "rdata_wf d \<Longrightarrow> off \<le> length buf \<Longrightarrow>
   rdata_Pack d buf off = Inr (n, buf') \<longleftrightarrow>
     n = length (rdata_enc d) \<and> off + n \<le> length buf \<and> buf' = put_at buf off (rdata_enc d)"
  by (cases d) (simp_all add: all_pack_iff, auto simp: RDataRaw_Pack_def)

lemma rdata_len_enc: "rdata_wf d \<Longrightarrow> rdata_Len d = length (rdata_enc d)"
  by (cases d) (simp_all add: all_len_enc RDataRaw_Len_def)

lemma rdata_unpack_enc:
  "rdata_wf d \<Longrightarrow> holds buf off (rdata_enc d) \<Longrightarrow> unat rdlength = length (rdata_enc d) \<Longrightarrow>
   rdata_Unpack (rdata_zero d) buf off rdlength = Inr (length (rdata_enc d), rdata_canon d)"
  by (cases d; simp only: rdata_wf.simps rdata_enc.simps rdata_canon.simps rdata_zero.simps rdata_Unpack.simps;
      (rule all_unpack_with; (assumption | rule TrueI))?)
    (simp add: RDataRaw_Unpack_def holds_def)

lemma rdata_canon_wf: "rdata_wf d \<Longrightarrow> rdata_wf (rdata_canon d)"
  by (cases d) (simp_all add: all_canon_wf)

lemma rdata_canon_enc: "rdata_wf d \<Longrightarrow> rdata_enc (rdata_canon d) = rdata_enc d"
  by (cases d) (simp_all add: all_canon_enc)

lemma rdata_unpack_bound:
  "rdata_Unpack (rdata_zero d) buf off rdlength = Inr (n, d') \<Longrightarrow>
   n \<le> unat rdlength \<and> off + n \<le> length buf \<and> rdata_zero d' = rdata_zero d"
  by (cases d; simp only: rdata_zero.simps rdata_Unpack.simps; (drule all_bound_with, auto)?)
    (auto simp: with_data_Inr RDataRaw_Unpack_def split: if_splits)

text \<open>The types that pack whatever they unpack.\<close>

definition forwardable :: "rdata \<Rightarrow> bool" where
  "forwardable d \<longleftrightarrow> (\<nexists>r. d = DataSVCB r) \<and> (\<nexists>r. d = DataHTTPS r)"

lemma rdata_unpack_wf:
  "rdata_Unpack (rdata_zero d) buf off rdlength = Inr (n, d') \<Longrightarrow> forwardable d \<Longrightarrow> rdata_wf d'"
  by (cases d; simp only: rdata_zero.simps rdata_Unpack.simps; (drule all_wf_with, auto)?)
    (auto simp: with_data_Inr RDataRaw_Unpack_def forwardable_def split: if_splits)

subsection \<open>The data created for a record type\<close>

text \<open>Record types whose data has the wire form of another type.\<close>

definition wire_twins :: "(uint16 \<times> uint16) list" where
  "wire_twins =
     [(TypeSIG, TypeRRSIG), (TypeKEY, TypeDNSKEY), (TypeSPF, TypeTXT), (TypeCDS, TypeDS),
      (TypeCDNSKEY, TypeDNSKEY), (TypeTA, TypeDS)]"

definition created :: "(uint16 \<times> rdata) list" where
  "created =
     [(TypeA, DataA RDataA_zero), (TypeAAAA, DataAAAA RDataAAAA_zero),
      (TypeCNAME, DataCNAME RDataCNAME_zero), (TypeDNAME, DataDNAME RDataDNAME_zero),
      (TypeNS, DataNS RDataNS_zero), (TypePTR, DataPTR RDataPTR_zero),
      (TypeMX, DataMX RDataMX_zero), (TypeTXT, DataTXT RDataTXT_zero),
      (TypeHINFO, DataHINFO RDataHINFO_zero), (TypeRP, DataRP RDataRP_zero),
      (TypeAFSDB, DataAFSDB RDataAFSDB_zero), (TypeSIG, DataRRSIG RDataRRSIG_zero),
      (TypeKEY, DataDNSKEY RDataDNSKEY_zero), (TypeSPF, DataTXT RDataTXT_zero),
      (TypeLOC, DataLOC RDataLOC_zero), (TypeSOA, DataSOA RDataSOA_zero),
      (TypeSRV, DataSRV RDataSRV_zero), (TypeKX, DataKX RDataKX_zero),
      (TypeCERT, DataCERT RDataCERT_zero), (TypeCAA, DataCAA RDataCAA_zero),
      (TypeURI, DataURI RDataURI_zero), (TypeNAPTR, DataNAPTR RDataNAPTR_zero),
      (TypeAPL, DataAPL RDataAPL_zero), (TypeSSHFP, DataSSHFP RDataSSHFP_zero),
      (TypeHIP, DataHIP RDataHIP_zero), (TypeIPSECKEY, DataIPSECKEY RDataIPSECKEY_zero),
      (TypeTLSA, DataTLSA RDataTLSA_zero), (TypeDHCID, DataDHCID RDataDHCID_zero),
      (TypeDS, DataDS RDataDS_zero), (TypeCDS, DataDS RDataDS_zero),
      (TypeDNSKEY, DataDNSKEY RDataDNSKEY_zero), (TypeCDNSKEY, DataDNSKEY RDataDNSKEY_zero),
      (TypeTA, DataDS RDataDS_zero), (TypeOPENPGPKEY, DataOPENPGPKEY RDataOPENPGPKEY_zero),
      (TypeRRSIG, DataRRSIG RDataRRSIG_zero), (TypeNSEC, DataNSEC RDataNSEC_zero),
      (TypeNSEC3, DataNSEC3 RDataNSEC3_zero),
      (TypeNSEC3PARAM, DataNSEC3PARAM RDataNSEC3PARAM_zero), (TypeOPT, DataOPT RDataOPT_zero),
      (TypeSVCB, DataSVCB RDataSVCB_zero), (TypeHTTPS, DataHTTPS RDataHTTPS_zero),
      (TypeZONEMD, DataZONEMD RDataZONEMD_zero)]"

lemma createRData_created: "createRData t = map_of created t"
  unfolding createRData_def created_def by (simp only: map_of.simps fun_upd_apply fst_conv snd_conv)

lemma createRData_in: "createRData t = Some z \<Longrightarrow> (t, z) \<in> set created"
  unfolding createRData_created by (rule map_of_SomeD)

lemma rdata_Type_zero [simp]: "rdata_Type (rdata_zero d) = rdata_Type d"
  by (cases d) (simp_all add: RDataRaw_Type_def)

lemma created_ok:
  "list_all (\<lambda>(t, z). rdata_zero z = z \<and> (rdata_Type z = t \<or> (t, rdata_Type z) \<in> set wire_twins)) created"
  by (simp add: created_def wire_twins_def)

lemma createRData_zero: "createRData t = Some z \<Longrightarrow> rdata_zero z = z"
  using created_ok createRData_in [of t z] unfolding list_all_iff by blast

lemma createRData_Type:
  "createRData t = Some z \<Longrightarrow> rdata_Type z = t \<or> (t, rdata_Type z) \<in> set wire_twins"
  using created_ok createRData_in [of t z] unfolding list_all_iff by blast

lemma rdata_Type_of_zero: "rdata_zero d' = rdata_zero d \<Longrightarrow> rdata_Type d' = rdata_Type d"
  by (metis rdata_Type_zero)

lemma forwardable_zero: "forwardable (rdata_zero d) = forwardable d"
  by (cases d) (simp_all add: forwardable_def)

text \<open>C24: What \<^verbatim>\<open>Unpack\<close> makes of the data \<^verbatim>\<open>createRData\<close> gives for a record type is data of that type, or of
  the type that shares its wire form.\<close>

theorem rdata_typed:
  assumes "createRData t = Some z" "rdata_Unpack z buf off rdlength = Inr (n, d)"
  shows "rdata_Type d = t \<or> (t, rdata_Type d) \<in> set wire_twins"
  using createRData_Type [OF assms(1)] createRData_zero [OF assms(1)] assms(2)
    rdata_unpack_bound [of z buf off rdlength n d] rdata_Type_of_zero [of d z]
  by simp

theorem rdata_typed_witness:
  "rdata_Type (DataDS \<lparr>ds_KeyTag = 1, ds_Algorithm = 8, ds_DigestType = 2, ds_Digest = [9]\<rparr>) = TypeCDS \<or>
   (TypeCDS, rdata_Type (DataDS \<lparr>ds_KeyTag = 1, ds_Algorithm = 8, ds_DigestType = 2, ds_Digest = [9]\<rparr>))
     \<in> set wire_twins"
proof (rule rdata_typed [of _ "DataDS RDataDS_zero" "[0, 1, 8, 2, 9]" 0 5 5])
  show "createRData TypeCDS = Some (DataDS RDataDS_zero)"
    by (simp add: createRData_def rr_types)
  show "rdata_Unpack (DataDS RDataDS_zero) [0, 1, 8, 2, 9] 0 5 =
      Inr (5, DataDS \<lparr>ds_KeyTag = 1, ds_Algorithm = 8, ds_DigestType = 2, ds_Digest = [9]\<rparr>)"
    by (simp add: RDataDS_Unpack_def Let_def subslice_def Uint16_def BigEndian_Uint16_def of_be16_def)
qed

text \<open>C25: Unpacking record data never reads or consumes octets beyond the announced length or the
  buffer, whatever the octets are.\<close>

theorem rdata_bounds:
  assumes "createRData t = Some z" "rdata_Unpack z buf off rdlength = Inr (n, d)"
  shows "n \<le> unat rdlength \<and> off + n \<le> length buf"
  using createRData_zero [OF assms(1)] assms(2) rdata_unpack_bound [of z buf off rdlength n d] by simp

theorem rdata_bounds_witness: "(4::nat) \<le> unat (4::uint16) \<and> 1 + 4 \<le> length [7, 192, 0, 2, 1 :: byte]"
proof (rule rdata_bounds [of TypeA "DataA RDataA_zero" "[7, 192, 0, 2, 1]" 1 4 4])
  show "createRData TypeA = Some (DataA RDataA_zero)"
    by (simp add: createRData_def)
  show "rdata_Unpack (DataA RDataA_zero) [7, 192, 0, 2, 1] 1 4 =
      Inr (4, DataA \<lparr>a_Address = [192, 0, 2, 1]\<rparr>)"
    by (simp add: RDataA_Unpack_def RDataA_zero_def subslice_def)
qed



text \<open>C26: What is received can be sent on: record data unpacked for any type but SVCB and HTTPS packs
  into every buffer with room for its computed length, and is read back in canonical form.\<close>

theorem rdata_forward:
  assumes "createRData t = Some z" "rdata_Unpack z buf off rdlength = Inr (n, d)" "forwardable z"
    "off' + rdata_Len d \<le> length buf'" "rdata_Len d < 65536"
  shows "\<exists>buf''. rdata_Pack d buf' off' = Inr (rdata_Len d, buf'') \<and>
    rdata_Unpack z buf'' off' (of_nat (rdata_Len d)) = Inr (rdata_Len d, rdata_canon d)"
proof -
  have z: "rdata_zero z = z" "rdata_zero d = z"
    using createRData_zero [OF assms(1)] assms(2) rdata_unpack_bound [of z buf off rdlength n d] by simp_all
  then have wf: "rdata_wf d"
    using rdata_unpack_wf [of z buf off rdlength n d] assms(2,3) by simp
  show ?thesis
    using z wf assms(4,5) rdata_pack_iff [OF wf, of off' buf' "rdata_Len d"] rdata_len_enc [OF wf]
      rdata_unpack_enc [OF wf holds_put_at, of off' buf' "of_nat (rdata_Len d)"]
    by simp
qed

theorem rdata_forward_witness:
  "\<exists>buf''. rdata_Pack (DataA \<lparr>a_Address = [192, 0, 2, 1]\<rparr>) [0, 0, 0, 0] 0 = Inr (4, buf'')"
proof -
  have "rdata_Unpack (DataA RDataA_zero) [7, 192, 0, 2, 1] 1 4 = Inr (4, DataA \<lparr>a_Address = [192, 0, 2, 1]\<rparr>)"
    by (simp add: RDataA_Unpack_def RDataA_zero_def subslice_def)
  from rdata_forward [OF _ this, of TypeA 0 "[0, 0, 0, 0]"] show ?thesis
    by (auto simp: createRData_def forwardable_def RDataA_Len_def)
qed

end
