(* ===== verification/RDataPool.thy ===== *)
theory RDataPool
  imports RDataSum
begin

text \<open>
  The recycling of record data, \<^verbatim>\<open>internal/protocol/pool.go\<close>.  \<^verbatim>\<open>releaseRData\<close> resets a value and puts it into
  the pool of its type, \<^verbatim>\<open>pooledRData\<close> takes one out or makes a new one.  A \<^verbatim>\<open>sync.Pool\<close> may hand out any
  value put into it, may drop values, and may fall back on its constructor at any time, so the pools
  are a transition system; the development's \<open>createRData\<close> leaves them out, and the theorem of this
  theory says that nothing is lost by that.
\<close>

definition releaseRData :: "rdata \<Rightarrow> rdata option" where
  "releaseRData data =
     (case data of
       DataA r \<Rightarrow> Some (DataA RDataA_zero)
      | DataAAAA r \<Rightarrow> Some (DataAAAA RDataAAAA_zero)
      | DataCNAME r \<Rightarrow> Some (DataCNAME (r\<lparr>cname_CName := None\<rparr>))
      | DataDNAME r \<Rightarrow> Some (DataDNAME (r\<lparr>dname_DName := None\<rparr>))
      | DataNS r \<Rightarrow> Some (DataNS (r\<lparr>ns_NSDName := None\<rparr>))
      | DataPTR r \<Rightarrow> Some (DataPTR (r\<lparr>ptr_PtrDName := None\<rparr>))
      | DataMX r \<Rightarrow> Some (DataMX (r\<lparr>mx_Exchange := None, mx_Preference := 0\<rparr>))
      | DataTXT r \<Rightarrow> Some (DataTXT (r\<lparr>txt_Strings := []\<rparr>))
      | DataSOA r \<Rightarrow> Some (DataSOA RDataSOA_zero)
      | DataSRV r \<Rightarrow> Some (DataSRV RDataSRV_zero)
      | DataHINFO r \<Rightarrow> Some (DataHINFO RDataHINFO_zero)
      | DataRP r \<Rightarrow> Some (DataRP RDataRP_zero)
      | DataAFSDB r \<Rightarrow> Some (DataAFSDB RDataAFSDB_zero)
      | DataKX r \<Rightarrow> Some (DataKX RDataKX_zero)
      | DataURI r \<Rightarrow> Some (DataURI RDataURI_zero)
      | DataNAPTR r \<Rightarrow> Some (DataNAPTR RDataNAPTR_zero)
      | DataCAA r \<Rightarrow> Some (DataCAA RDataCAA_zero)
      | DataCERT r \<Rightarrow> Some (DataCERT RDataCERT_zero)
      | DataOPENPGPKEY r \<Rightarrow> Some (DataOPENPGPKEY RDataOPENPGPKEY_zero)
      | DataDHCID r \<Rightarrow> Some (DataDHCID RDataDHCID_zero)
      | DataSSHFP r \<Rightarrow> Some (DataSSHFP RDataSSHFP_zero)
      | DataTLSA r \<Rightarrow> Some (DataTLSA RDataTLSA_zero)
      | DataOPT r \<Rightarrow> Some (DataOPT (r\<lparr>opt_Options := []\<rparr>))
      | DataSVCB r \<Rightarrow> Some (DataSVCB RDataSVCB_zero)
      | DataHTTPS r \<Rightarrow> Some (DataHTTPS RDataHTTPS_zero)
      | _ \<Rightarrow> None)"

definition pooled_types :: "uint16 list" where
  "pooled_types =
     [TypeA, TypeAAAA, TypeCNAME, TypeDNAME, TypeNS, TypePTR, TypeMX, TypeTXT, TypeSOA, TypeSRV,
      TypeHINFO, TypeRP, TypeAFSDB, TypeKX, TypeURI, TypeNAPTR, TypeCAA, TypeCERT, TypeOPENPGPKEY,
      TypeDHCID, TypeSSHFP, TypeTLSA, TypeOPT, TypeSVCB, TypeHTTPS]"

definition pool_New :: "uint16 \<Rightarrow> rdata" where
  "pool_New t =
     (if t = TypeA then DataA RDataA_zero
      else if t = TypeAAAA then DataAAAA RDataAAAA_zero
      else if t = TypeCNAME then DataCNAME RDataCNAME_zero
      else if t = TypeDNAME then DataDNAME RDataDNAME_zero
      else if t = TypeNS then DataNS RDataNS_zero
      else if t = TypePTR then DataPTR RDataPTR_zero
      else if t = TypeMX then DataMX RDataMX_zero
      else if t = TypeTXT then DataTXT RDataTXT_zero
      else if t = TypeSOA then DataSOA RDataSOA_zero
      else if t = TypeSRV then DataSRV RDataSRV_zero
      else if t = TypeHINFO then DataHINFO RDataHINFO_zero
      else if t = TypeRP then DataRP RDataRP_zero
      else if t = TypeAFSDB then DataAFSDB RDataAFSDB_zero
      else if t = TypeKX then DataKX RDataKX_zero
      else if t = TypeURI then DataURI RDataURI_zero
      else if t = TypeNAPTR then DataNAPTR RDataNAPTR_zero
      else if t = TypeCAA then DataCAA RDataCAA_zero
      else if t = TypeCERT then DataCERT RDataCERT_zero
      else if t = TypeOPENPGPKEY then DataOPENPGPKEY RDataOPENPGPKEY_zero
      else if t = TypeDHCID then DataDHCID RDataDHCID_zero
      else if t = TypeSSHFP then DataSSHFP RDataSSHFP_zero
      else if t = TypeTLSA then DataTLSA RDataTLSA_zero
      else if t = TypeOPT then DataOPT RDataOPT_zero
      else if t = TypeSVCB then DataSVCB RDataSVCB_zero
      else DataHTTPS RDataHTTPS_zero)"

type_synonym pools = "uint16 \<Rightarrow> rdata list"

text \<open>\<open>pooledRData p t z p'\<close>: \<^verbatim>\<open>pooledRData(t)\<close> may return \<open>z\<close> and leave the pools \<open>p'\<close>.\<close>

inductive pooledRData :: "pools \<Rightarrow> uint16 \<Rightarrow> rdata \<Rightarrow> pools \<Rightarrow> bool" where
  recycled: "t \<in> set pooled_types \<Longrightarrow> p t = xs @ z # ys \<Longrightarrow> pooledRData p t z (p(t := xs @ ys))"
| fresh: "t \<in> set pooled_types \<Longrightarrow> pooledRData p t (pool_New t) p"

inductive_cases pooledRDataE: "pooledRData p t z p'"

text \<open>\<^verbatim>\<open>createRData\<close> with its first two lines, which ask the pools.\<close>

inductive create_pooled :: "pools \<Rightarrow> uint16 \<Rightarrow> rdata option \<Rightarrow> pools \<Rightarrow> bool" where
  from_pool: "pooledRData p t z p' \<Longrightarrow> create_pooled p t (Some z) p'"
| from_switch: "t \<notin> set pooled_types \<Longrightarrow> create_pooled p t (createRData t) p"

inductive pool_step :: "pools \<Rightarrow> pools \<Rightarrow> bool" where
  put: "releaseRData d = Some z \<Longrightarrow> pool_step p (p(rdata_Type d := z # p (rdata_Type d)))"
| get: "pooledRData p t z p' \<Longrightarrow> pool_step p p'"
| drop: "p t = xs @ z # ys \<Longrightarrow> pool_step p (p(t := xs @ ys))"

inductive pools_reachable :: "pools \<Rightarrow> bool" where
  start: "pools_reachable (\<lambda>t. [])"
| step: "pools_reachable p \<Longrightarrow> pool_step p p' \<Longrightarrow> pools_reachable p'"

definition pools_clean :: "pools \<Rightarrow> bool" where
  "pools_clean p \<longleftrightarrow> (\<forall>t. \<forall>z \<in> set (p t). createRData t = Some z)"

lemma reset_zero:
  "(r1 :: RDataCNAME)\<lparr>cname_CName := None\<rparr> = RDataCNAME_zero"
  "(r2 :: RDataDNAME)\<lparr>dname_DName := None\<rparr> = RDataDNAME_zero"
  "(r3 :: RDataNS)\<lparr>ns_NSDName := None\<rparr> = RDataNS_zero"
  "(r4 :: RDataPTR)\<lparr>ptr_PtrDName := None\<rparr> = RDataPTR_zero"
  "(r5 :: RDataMX)\<lparr>mx_Exchange := None, mx_Preference := 0\<rparr> = RDataMX_zero"
  "(r6 :: RDataTXT)\<lparr>txt_Strings := []\<rparr> = RDataTXT_zero"
  "(r7 :: RDataOPT)\<lparr>opt_Options := []\<rparr> = RDataOPT_zero"
  by (cases r1, simp add: RDataCNAME_zero_def) (cases r2, simp add: RDataDNAME_zero_def,
    cases r3, simp add: RDataNS_zero_def, cases r4, simp add: RDataPTR_zero_def,
    cases r5, simp add: RDataMX_zero_def, cases r6, simp add: RDataTXT_zero_def,
    cases r7, simp add: RDataOPT_zero_def)

lemma release_zero: "releaseRData d = Some z \<Longrightarrow> z = rdata_zero d \<and> rdata_Type d \<in> set pooled_types"
  by (cases d) (auto simp: releaseRData_def pooled_types_def reset_zero)

lemma pool_New_created: "list_all (\<lambda>t. createRData t = Some (pool_New t)) pooled_types"
  by (simp add: pooled_types_def pool_New_def createRData_def rr_types)

lemma release_created:
  assumes "releaseRData d = Some z"
  shows "createRData (rdata_Type d) = Some z"
proof -
  have "list_all (\<lambda>t. rdata_Type (pool_New t) = t) pooled_types"
    by (simp add: pooled_types_def pool_New_def rr_types)
  then have "createRData (rdata_Type d) = Some (pool_New (rdata_Type d))"
    "rdata_Type (pool_New (rdata_Type d)) = rdata_Type d"
    using release_zero [OF assms] pool_New_created by (auto simp: list_all_iff)
  moreover have "z = rdata_zero d"
    using release_zero [OF assms] ..
  moreover have "pool_New (rdata_Type d) = rdata_zero d"
    using assms by (cases d) (simp_all add: releaseRData_def pool_New_def rr_types)
  ultimately show ?thesis
    by simp
qed

lemma pools_clean_step: "pool_step p p' \<Longrightarrow> pools_clean p \<Longrightarrow> pools_clean p'"
proof (induction rule: pool_step.induct)
  case (put d z p)
  then show ?case
    using release_created [of d z] by (auto simp: pools_clean_def)
next
  case (get p t z p')
  then show ?case
    by (auto elim!: pooledRDataE simp: pools_clean_def split: if_splits)
next
  case (drop p t xs z ys)
  then show ?case
    by (auto simp: pools_clean_def split: if_splits)
qed

lemma pools_reachable_clean: "pools_reachable p \<Longrightarrow> pools_clean p"
  by (induction rule: pools_reachable.induct) (auto simp: pools_clean_def [of "\<lambda>t. []"] intro: pools_clean_step)

text \<open>C14: Recycling is invisible: whatever was released before, \<^verbatim>\<open>createRData\<close> with its pools returns
  exactly the zero value the switch alone gives.\<close>

theorem pools_refine_create:
  assumes "pools_reachable p" "create_pooled p t r p'"
  shows "r = createRData t \<and> pools_reachable p'"
proof (cases rule: create_pooled.cases [OF assms(2)])
  case (1 p1 t1 z p1')
  then have "pools_reachable p'"
    using assms(1) by (blast intro: pools_reachable.step pool_step.get)
  moreover have "createRData t = Some z"
    using 1 pools_reachable_clean [OF assms(1)] pool_New_created
    by (auto elim!: pooledRDataE simp: pools_clean_def list_all_iff)
  ultimately show ?thesis
    using 1 by simp
next
  case 2
  then show ?thesis
    using assms(1) by simp
qed

theorem pools_refine_create_witness:
  "createRData TypeTXT = Some (DataTXT \<lparr>txt_Strings = []\<rparr>)"
proof -
  let ?d = "DataTXT \<lparr>txt_Strings = [[104, 105]]\<rparr>" and ?z = "DataTXT \<lparr>txt_Strings = []\<rparr>"
  have "releaseRData ?d = Some ?z"
    by (simp add: releaseRData_def)
  from pools_reachable.step [OF pools_reachable.start pool_step.put [OF this]]
  have "pools_reachable ((\<lambda>t. [])(TypeTXT := [?z]))"
    by simp
  moreover have "pooledRData ((\<lambda>t. [])(TypeTXT := [?z])) TypeTXT ?z (((\<lambda>t. [])(TypeTXT := [?z]))(TypeTXT := [] @ []))"
    by (rule pooledRData.recycled) (simp_all add: pooled_types_def)
  ultimately show ?thesis
    using pools_refine_create [OF _ create_pooled.from_pool] by metis
qed

end
