(* ===== verification/ClientSubnet.thy ===== *)
theory ClientSubnet
  imports Edns
begin

text \<open>
  The client subnet option of EDNS(0), \<^verbatim>\<open>EDNS0ClientSubnet\<close> of \<^verbatim>\<open>internal/protocol/opt.go\<close>.  A prefix of
  the client's address is sent, and the part of the address beyond the prefix is not.
\<close>

unbundle bit_operations_syntax

subsection \<open>Client subnet\<close>

record EDNS0ClientSubnet =
  ecs_Family :: uint16
  ecs_SourcePrefixLength :: byte
  ecs_ScopePrefixLength :: byte
  ecs_Address :: bytes

definition ecsFamilyMaxPrefix :: "uint16 \<Rightarrow> nat option" where
  "ecsFamilyMaxPrefix family = (if family = 1 then Some 32 else if family = 2 then Some 128 else None)"

text \<open>The second half of \<^verbatim>\<open>NewEDNS0ClientSubnet\<close>: the octets of the prefix, the last one masked.\<close>

definition ecs_prefix :: "bytes \<Rightarrow> byte \<Rightarrow> bytes" where
  "ecs_prefix addr sourceBits =
     (let numBytes = unat ((sourceBits + 7) div 8);
          numBytes = (if numBytes > length addr then length addr else numBytes);
          address = take numBytes addr
      in if sourceBits mod 8 \<noteq> 0 \<and> numBytes > 0
         then address[numBytes - 1 :=
                address ! (numBytes - 1) AND push_bit (8 - unat (sourceBits mod 8)) 0xFF]
         else address)"

definition NewEDNS0ClientSubnet :: "bytes \<Rightarrow> byte \<Rightarrow> EDNS0ClientSubnet" where
  "NewEDNS0ClientSubnet ip sourceBits =
     (let (family, addr) = (case To4 ip of Some a \<Rightarrow> (1, Some a) | None \<Rightarrow> (2, To16 ip));
          (family, sourceBits) =
            (case addr of
               None \<Rightarrow> (1, 0)
             | Some a \<Rightarrow>
                 (family,
                  case ecsFamilyMaxPrefix family of
                    Some maxPrefix \<Rightarrow> if unat sourceBits > maxPrefix then of_nat maxPrefix else sourceBits
                  | None \<Rightarrow> sourceBits))
      in \<lparr>ecs_Family = family, ecs_SourcePrefixLength = sourceBits, ecs_ScopePrefixLength = 0,
          ecs_Address = ecs_prefix (case addr of None \<Rightarrow> [] | Some a \<Rightarrow> a) sourceBits\<rparr>)"

definition EDNS0ClientSubnet_Pack :: "EDNS0ClientSubnet option \<Rightarrow> bytes" where
  "EDNS0ClientSubnet_Pack eo =
     (case eo of None \<Rightarrow> []
      | Some e \<Rightarrow>
          let data = replicate (4 + length (ecs_Address e)) 0;
              data = PutUint16_at data 0 (ecs_Family e);
              data = put_at data 2 [ecs_SourcePrefixLength e];
              data = put_at data 3 [ecs_ScopePrefixLength e]
          in put_at data 4 (ecs_Address e))"

definition UnpackEDNS0ClientSubnet :: "bytes \<Rightarrow> EDNS0ClientSubnet result" where
  "UnpackEDNS0ClientSubnet data =
     (if length data < 4 then Inl (Errorf ''truncated ECS option'') else
      let family = Uint16 data; source = data ! 2; scope = data ! 3 in
      case ecsFamilyMaxPrefix family of
        None \<Rightarrow> Inl (Errorf ''unsupported ECS address family'')
      | Some maxPrefix \<Rightarrow>
          if unat source > maxPrefix then Inl (Errorf ''invalid ECS source prefix length'') else
          if unat scope > maxPrefix then Inl (Errorf ''invalid ECS scope prefix length'') else
          let addressLen = length data - 4; expectedLen = unat (source + 7) div 8 in
          if addressLen < expectedLen then Inl (Errorf ''invalid ECS address length for source prefix'') else
          if addressLen > maxPrefix div 8 then Inl (Errorf ''invalid ECS address length for family'') else
          let address = (if expectedLen > 0 then subslice data 4 expectedLen else []);
              unusedBits = source mod 8 in
          if unusedBits \<noteq> 0 \<and> length address > 0 \<and>
             last address AND (push_bit (8 - unat unusedBits) 1 - 1) \<noteq> 0
          then Inl (Errorf ''invalid ECS address: host bits set beyond source prefix'') else
          if \<exists>b \<in> set (drop (4 + expectedLen) data). b \<noteq> 0
          then Inl (Errorf ''invalid ECS address: trailing host octets set beyond source prefix'')
          else Inr \<lparr>ecs_Family = family, ecs_SourcePrefixLength = source, ecs_ScopePrefixLength = scope,
                    ecs_Address = address\<rparr>)"

definition EDNS0ClientSubnet_IP :: "EDNS0ClientSubnet option \<Rightarrow> bytes option" where
  "EDNS0ClientSubnet_IP eo =
     (case eo of None \<Rightarrow> None
      | Some e \<Rightarrow>
          if ecs_Family e = 1 then Some (put_at (replicate 4 0) 0 (take 4 (ecs_Address e)))
          else if ecs_Family e = 2 then Some (put_at (replicate 16 0) 0 (take 16 (ecs_Address e)))
          else None)"

definition ecs_option :: "EDNS0ClientSubnet option \<Rightarrow> EDNS0Option" where
  "ecs_option eo = \<lparr>opt_Code = OptionCodeClientSubnet, opt_Data = EDNS0ClientSubnet_Pack eo\<rparr>"

text \<open>What \<^verbatim>\<open>UnpackEDNS0ClientSubnet\<close> accepts: an address of as many octets as the source prefix
  needs, with no bit set beyond the prefix.\<close>

definition host_mask :: "byte \<Rightarrow> byte" where
  "host_mask source = push_bit (8 - unat (source mod 8)) 1 - 1"

definition ecs_wf :: "EDNS0ClientSubnet \<Rightarrow> bool" where
  "ecs_wf e \<longleftrightarrow>
     (\<exists>m. ecsFamilyMaxPrefix (ecs_Family e) = Some m \<and> unat (ecs_SourcePrefixLength e) \<le> m \<and>
        unat (ecs_ScopePrefixLength e) \<le> m) \<and>
     length (ecs_Address e) = (unat (ecs_SourcePrefixLength e) + 7) div 8 \<and>
     (ecs_SourcePrefixLength e mod 8 \<noteq> 0 \<longrightarrow>
        last (ecs_Address e) AND host_mask (ecs_SourcePrefixLength e) = 0)"

lemma ecsFamilyMaxPrefix_Some:
  "ecsFamilyMaxPrefix f = Some m \<longleftrightarrow> f = 1 \<and> m = 32 \<or> f = 2 \<and> m = 128"
  by (auto simp: ecsFamilyMaxPrefix_def)

lemma unat_plus_7: "unat (b :: byte) \<le> 128 \<Longrightarrow> unat (b + 7) = unat b + 7"
  by (subst unat_add_lem [THEN iffD1]) simp_all

lemma unat_mod_8_eq: "unat ((b :: byte) mod 8) = unat b mod 8" and
  unat_div_8_eq: "unat (b div 8) = unat b div 8"
  by (simp_all add: unat_mod unat_div)

lemma mod_8_zero: "(b :: byte) mod 8 = 0 \<longleftrightarrow> unat b mod 8 = 0"
  by (simp add: word_unat_eq_iff unat_mod_8_eq)

lemma ECS_Pack_eq:
  "EDNS0ClientSubnet_Pack (Some e) =
     be16 (ecs_Family e) @ [ecs_SourcePrefixLength e, ecs_ScopePrefixLength e] @ ecs_Address e"
  by (simp add: EDNS0ClientSubnet_Pack_def Let_def codec_simps) (simp add: put_at_def)

lemma if_subslice: "(if 0 < n then subslice data off n else []) = subslice data off n"
  by (simp add: subslice_def)

lemmas Unpack_ECS_eq = UnpackEDNS0ClientSubnet_def [unfolded Let_def if_subslice host_mask_def [symmetric]]

lemma Unpack_Pack_ECS:
  assumes "ecs_wf e"
  shows "UnpackEDNS0ClientSubnet (EDNS0ClientSubnet_Pack (Some e)) = Inr e"
proof -
  obtain m where m: "ecsFamilyMaxPrefix (ecs_Family e) = Some m" "unat (ecs_SourcePrefixLength e) \<le> m"
    "unat (ecs_ScopePrefixLength e) \<le> m" "m \<in> {32, 128}"
    using assms by (auto simp: ecs_wf_def ecsFamilyMaxPrefix_Some)
  then have l: "unat (ecs_SourcePrefixLength e + 7) div 8 = length (ecs_Address e)"
    "length (ecs_Address e) \<le> m div 8"
    using assms unat_plus_7 [of "ecs_SourcePrefixLength e"] by (auto simp: ecs_wf_def)
  have d: "Uint16 (be16 (ecs_Family e) @ x) = ecs_Family e" for x
    by (simp add: Uint16_append) (simp add: Uint16_def)
  have "ecs_SourcePrefixLength e mod 8 \<noteq> 0 \<Longrightarrow>
      last (ecs_Address e) AND host_mask (ecs_SourcePrefixLength e) = 0"
    using assms by (simp add: ecs_wf_def)
  then show ?thesis
    using m l by (auto simp add: ECS_Pack_eq Unpack_ECS_eq d subslice_def nth_append)
qed

lemma Unpack_ECS_wf:
  assumes "UnpackEDNS0ClientSubnet data = Inr e"
  shows "ecs_wf e"
proof -
  let ?s = "data ! 2" and ?n = "unat (data ! 2 + 7) div 8"
  define z where "z \<longleftrightarrow> data ! 2 mod 8 = 0"
  obtain m where m: "ecsFamilyMaxPrefix (Uint16 data) = Some m" "unat ?s \<le> m" "unat (data ! 3) \<le> m"
    and n: "?n \<le> length data - 4"
    and h: "z \<or> subslice data 4 ?n = [] \<or> last (subslice data 4 ?n) AND host_mask ?s = 0"
    and e: "e = \<lparr>ecs_Family = Uint16 data, ecs_SourcePrefixLength = ?s, ecs_ScopePrefixLength = data ! 3,
        ecs_Address = subslice data 4 ?n\<rparr>"
    using assms unfolding Unpack_ECS_eq z_def [symmetric]
    by (auto split: if_splits option.splits)
  have n7: "unat (?s + 7) = unat ?s + 7"
    using m by (intro unat_plus_7) (auto simp: ecsFamilyMaxPrefix_Some)
  have "0 < (unat ?s + 7) div 8" if "\<not> z"
    using that by (cases "unat ?s = 0") (auto simp: z_def mod_8_zero)
  moreover have "length (subslice data 4 ?n) = (unat ?s + 7) div 8"
    using n by (simp add: subslice_def n7)
  ultimately show ?thesis
    using m h by (auto simp: e ecs_wf_def z_def [symmetric])
qed

lemma mask_high_low: "(x AND push_bit k m) AND (push_bit k 1 - 1) = (0 :: byte)"
proof (rule bit_eqI)
  fix n
  show "bit ((x AND push_bit k m) AND (push_bit k 1 - 1)) n = bit (0 :: byte) n"
    unfolding push_bit_of_1 mask_eq_exp_minus_1 [symmetric] bit_and_iff bit_push_bit_iff bit_mask_iff bit_0_eq bot_apply
    by auto
qed

lemma ceil_8: "(n + 7) div 8 = (if n mod 8 = 0 then n div 8 else Suc (n div 8))" for n :: nat
proof -
  have "(n mod 8 + 7) div 8 = 1" if "n mod 8 \<noteq> 0"
    using that mod_less_divisor [of 8 n] by (intro div_nat_eqI) simp_all
  then show ?thesis
    using div_add1_eq [of n 7 8] by simp
qed

lemma ecs_prefix_eq:
  assumes "unat s \<le> 128" "(unat s + 7) div 8 \<le> length a"
  shows "ecs_prefix a s =
    (if unat s mod 8 = 0 then take (unat s div 8) a
     else take (unat s div 8) a @ [a ! (unat s div 8) AND push_bit (8 - unat s mod 8) 0xFF])"
proof -
  have n: "unat ((s + 7) div 8) = (unat s + 7) div 8"
    by (simp only: unat_div_8_eq unat_plus_7 [OF assms(1)])
  show ?thesis
  proof (cases "unat s mod 8 = 0")
    case True
    then have "(unat s + 7) div 8 = unat s div 8"
      by (simp add: ceil_8)
    moreover have "s mod 8 = 0"
      using True by (simp only: mod_8_zero)
    ultimately show ?thesis
      using assms(2) True n by (simp add: ecs_prefix_def Let_def)
  next
    case False
    then have d: "(unat s + 7) div 8 = Suc (unat s div 8)"
      by (simp add: ceil_8)
    then have "take (Suc (unat s div 8)) a = take (unat s div 8) a @ [a ! (unat s div 8)]"
      using assms(2) by (intro take_Suc_conv_app_nth) simp
    moreover have "s mod 8 \<noteq> 0"
      using False by (simp only: mod_8_zero not_False_eq_True)
    moreover have "length (take (unat s div 8) a) = unat s div 8"
      using assms(2) d by simp
    ultimately show ?thesis
      using assms(2) False unfolding ecs_prefix_def Let_def n d
      by (simp add: unat_mod_8_eq list_update_append nth_append)
  qed
qed

lemma NewECS_cases:
  obtains (none) "NewEDNS0ClientSubnet ip bits = \<lparr>ecs_Family = 1, ecs_SourcePrefixLength = 0,
      ecs_ScopePrefixLength = 0, ecs_Address = []\<rparr>" "To4 ip = None" "To16 ip = None"
  | (addr) f m a s where "(To4 ip = Some a \<and> f = 1) \<or> (To4 ip = None \<and> To16 ip = Some a \<and> f = 2)"
      "ecsFamilyMaxPrefix f = Some m" "length a = m div 8" "unat s = min (unat bits) m" "m \<in> {32, 128}"
      "NewEDNS0ClientSubnet ip bits = \<lparr>ecs_Family = f, ecs_SourcePrefixLength = s,
         ecs_ScopePrefixLength = 0, ecs_Address = ecs_prefix a s\<rparr>"
proof -
  have u: "unat (if m < unat bits then of_nat m else bits) = min (unat bits) m" if "m \<in> {32, 128}" for m
    using that by auto
  consider a where "To4 ip = Some a" "length a = 4" | "To4 ip = None" "To16 ip = None"
    | a where "To4 ip = None" "To16 ip = Some a" "length a = 16"
    by (cases "To4 ip"; cases "To16 ip") (auto simp: To4_def To16_def split: if_splits)
  then show thesis
  proof cases
    case 1
    then show thesis
      by (intro addr [of a 1 32, OF _ _ _ u]) (simp_all add: NewEDNS0ClientSubnet_def ecsFamilyMaxPrefix_def)
  next
    case 2
    then show thesis
      by (intro none) (simp_all add: NewEDNS0ClientSubnet_def ecs_prefix_def)
  next
    case 3
    then show thesis
      by (intro addr [of a 2 128, OF _ _ _ u]) (simp_all add: NewEDNS0ClientSubnet_def ecsFamilyMaxPrefix_def)
  qed
qed

lemma NewECS_wf: "ecs_wf (NewEDNS0ClientSubnet ip bits)"
proof (cases rule: NewECS_cases [of ip bits])
  case none
  then show ?thesis
    by (simp add: ecs_wf_def ecsFamilyMaxPrefix_def)
next
  case (addr f m a s)
  have le: "unat s \<le> m" "unat s \<le> 128"
    using addr(4,5) by auto
  have len: "(unat s + 7) div 8 \<le> length a"
    using le(1) addr(3,5) by auto
  have eight: "(unat s + 7) div 8 = (if unat s mod 8 = 0 then unat s div 8 else Suc (unat s div 8))"
    by (rule ceil_8)
  have "length (ecs_prefix a s) = (unat s + 7) div 8"
    using len unfolding ecs_prefix_eq [OF le(2) len] eight by (simp split: if_splits)
  moreover have "last (ecs_prefix a s) AND host_mask s = 0" if "unat s mod 8 \<noteq> 0"
    using that mask_high_low
    unfolding ecs_prefix_eq [OF le(2) len] host_mask_def unat_mod_8_eq by (simp only: if_False last_snoc)
  ultimately show ?thesis
    using addr(2) le(1) unfolding addr(6) ecs_wf_def mod_8_zero by simp
qed

subsection \<open>Only the prefix is sent\<close>

definition bit_at :: "bytes \<Rightarrow> nat \<Rightarrow> bool" where
  "bit_at a i = bit (a ! (i div 8)) (7 - i mod 8)"

lemma nth_pad: "length p \<le> n \<Longrightarrow> j < n \<Longrightarrow>
    put_at (replicate n 0) 0 (take n p) ! j = (if j < length p then p ! j else (0 :: byte))"
  by (simp add: put_at_def nth_append)

lemma nth_ecs_prefix:
  assumes "unat s \<le> 128" "(unat s + 7) div 8 \<le> length a" "j < length a"
  shows "(if j < length (ecs_prefix a s) then ecs_prefix a s ! j else 0) =
    (if j < unat s div 8 then a ! j
     else if j = unat s div 8 \<and> unat s mod 8 \<noteq> 0 then a ! j AND push_bit (8 - unat s mod 8) 0xFF
     else 0)"
proof -
  have "unat s div 8 \<le> length a" "unat s mod 8 \<noteq> 0 \<Longrightarrow> unat s div 8 < length a"
    using assms(2) by (simp_all add: ceil_8 split: if_splits)
  then show ?thesis
    using assms(3) unfolding ecs_prefix_eq [OF assms(1,2)] by (auto simp: nth_append)
qed

lemma bit_255: "k < 8 \<Longrightarrow> bit (255 :: byte) k"
  using bit_mask_iff [of 8 k, where 'a = "8 word"] by (simp add: mask_eq_exp_minus_1)

lemma masked_bit:
  assumes "0 < m" "m < 8" "r < 8"
  shows "bit (b AND push_bit (8 - m) 0xFF) (7 - r) \<longleftrightarrow> r < m \<and> bit (b :: byte) (7 - r)"
proof -
  have "8 - m \<le> 7 - r \<longleftrightarrow> r < m" "7 - r - (8 - m) < 8"
    using assms by auto
  then show ?thesis
    using assms(3) bit_255 [of "7 - r - (8 - m)"] by (auto simp: bit_and_iff bit_push_bit_iff)
qed

lemma bit_ecs_prefix:
  assumes "unat s \<le> 128" "(unat s + 7) div 8 \<le> length a" "i < 8 * length a"
  shows "bit_at (put_at (replicate (length a) 0) 0 (take (length a) (ecs_prefix a s))) i \<longleftrightarrow>
    i < unat s \<and> bit_at a i"
proof -
  let ?j = "i div 8" and ?r = "i mod 8" and ?q = "unat s div 8" and ?m = "unat s mod 8"
  have j: "?j < length a" and r: "?r < 8" "?m < 8"
    using assms(3) by (simp_all add: less_mult_imp_div_less)
  have len: "length (ecs_prefix a s) \<le> length a"
    using assms(2) unfolding ecs_prefix_eq [OF assms(1,2)] by (simp add: ceil_8 split: if_splits)
  have ord: "?j < ?q \<Longrightarrow> i < unat s" "?q < ?j \<Longrightarrow> \<not> i < unat s" "?j = ?q \<Longrightarrow> i < unat s \<longleftrightarrow> ?r < ?m"
    using div_mult_mod_eq [of i 8] div_mult_mod_eq [of "unat s" 8] r by linarith+
  consider "?j < ?q" | "?j = ?q" "?m \<noteq> 0" | "?j = ?q" "?m = 0" | "?q < ?j"
    by linarith
  then show ?thesis
    using ord r
    unfolding bit_at_def nth_pad [OF len j] nth_ecs_prefix [OF assms(1,2) j]
    by cases (simp_all add: masked_bit)
qed

text \<open>C38: The client subnet option built from an address reaches the other side as built: packing and
  unpacking it gives the same family, prefix lengths and address.\<close>

theorem ECS_roundtrip:
  "UnpackEDNS0ClientSubnet (EDNS0ClientSubnet_Pack (Some (NewEDNS0ClientSubnet ip bits))) =
     Inr (NewEDNS0ClientSubnet ip bits)"
  by (rule Unpack_Pack_ECS [OF NewECS_wf])

text \<open>C37: No bit of the client's address beyond the source prefix is sent, and the bits of the prefix
  are: the address of the option agrees with the client's on the prefix and is zero after it.\<close>

theorem ECS_prefix_only:
  assumes "To4 ip = Some a \<or> To4 ip = None \<and> To16 ip = Some a" "i < 8 * length a"
  shows "\<exists>full. EDNS0ClientSubnet_IP (Some (NewEDNS0ClientSubnet ip bits)) = Some full \<and>
    length full = length a \<and> (bit_at full i \<longleftrightarrow> i < unat bits \<and> bit_at a i)"
proof (cases rule: NewECS_cases [of ip bits])
  case none
  with assms show ?thesis by simp
next
  case (addr f m a' s)
  have [simp]: "a' = a"
    using addr(1) assms(1) by auto
  have le: "unat s \<le> m" "unat s \<le> 128"
    using addr(4,5) by auto
  have "(unat s + 7) div 8 \<le> length a"
    using le(1) addr(3,5) by auto
  note bits = bit_ecs_prefix [OF le(2) this assms(2)]
  have "EDNS0ClientSubnet_IP (Some (NewEDNS0ClientSubnet ip bits)) =
      Some (put_at (replicate (length a) 0) 0 (take (length a) (ecs_prefix a s)))"
    using addr by (auto simp: EDNS0ClientSubnet_IP_def ecsFamilyMaxPrefix_Some)
  moreover have "i < unat s \<longleftrightarrow> i < unat bits"
    using addr(3,4,5) assms(2) by auto
  ultimately show ?thesis
    using bits by (simp add: length_put_at)
qed

theorem ECS_prefix_only_witness:
  "\<exists>full. EDNS0ClientSubnet_IP (Some (NewEDNS0ClientSubnet [192, 0, 2, 77] 25)) = Some full \<and>
     \<not> bit_at full 31"
  using ECS_prefix_only [of "[192, 0, 2, 77]" "[192, 0, 2, 77]" 31 25] by (auto simp: To4_def)

end
