(* ===== verification/EdnsOptions.thy ===== *)
theory EdnsOptions
  imports Edns
begin

text \<open>
  The name server identifier, extended error and chain options of EDNS(0),
  \<^verbatim>\<open>internal/protocol/opt.go\<close>.
\<close>

subsection \<open>Name server identifier\<close>

record EDNS0NSID =
  nsid_NSID :: bytes

definition NewEDNS0NSID :: "bytes \<Rightarrow> EDNS0NSID" where "NewEDNS0NSID identifier = \<lparr>nsid_NSID = identifier\<rparr>"

definition EDNS0NSID_Pack :: "EDNS0NSID option \<Rightarrow> bytes" where
  "EDNS0NSID_Pack eo = (case eo of None \<Rightarrow> [] | Some e \<Rightarrow> nsid_NSID e)"

definition UnpackEDNS0NSID :: "bytes \<Rightarrow> EDNS0NSID result" where
  "UnpackEDNS0NSID data = Inr \<lparr>nsid_NSID = data\<rparr>"

definition nsid_option :: "EDNS0NSID option \<Rightarrow> EDNS0Option" where
  "nsid_option eo = \<lparr>opt_Code = OptionCodeNSID, opt_Data = EDNS0NSID_Pack eo\<rparr>"

subsection \<open>Extended errors\<close>

record EDNS0ExtendedError =
  ede_InfoCode :: uint16
  ede_ExtraText :: bytes

definition NewEDNS0ExtendedError :: "uint16 \<Rightarrow> bytes \<Rightarrow> EDNS0ExtendedError" where
  "NewEDNS0ExtendedError infoCode extraText = \<lparr>ede_InfoCode = infoCode, ede_ExtraText = extraText\<rparr>"

definition EDNS0ExtendedError_Pack :: "EDNS0ExtendedError option \<Rightarrow> bytes" where
  "EDNS0ExtendedError_Pack eo =
     (case eo of None \<Rightarrow> []
      | Some e \<Rightarrow>
          let data = PutUint16_at (replicate (2 + length (ede_ExtraText e)) 0) 0 (ede_InfoCode e)
          in if length (ede_ExtraText e) > 0 then put_at data 2 (ede_ExtraText e) else data)"

definition UnpackEDNS0ExtendedError :: "bytes \<Rightarrow> EDNS0ExtendedError result" where
  "UnpackEDNS0ExtendedError data =
     (if length data < 2 then Inl (Errorf ''truncated EDE option'')
      else Inr \<lparr>ede_InfoCode = Uint16 data, ede_ExtraText = (if length data > 2 then drop 2 data else [])\<rparr>)"

definition ede_option :: "EDNS0ExtendedError option \<Rightarrow> EDNS0Option" where
  "ede_option eo = \<lparr>opt_Code = OptionCodeExtendedError, opt_Data = EDNS0ExtendedError_Pack eo\<rparr>"

definition EDEInfoCodes :: "(nat \<times> string) list" where
  "EDEInfoCodes =
     [(0, ''Other Error''), (1, ''Unsupported DNSKEY Algorithm''),
      (2, ''Unsupported DS Digest Type''), (3, ''Stale Answer''), (4, ''Forged Answer''),
      (5, ''DNSSEC Indeterminate''), (6, ''DNSSEC Bogus''), (7, ''Signature Expired''),
      (8, ''Signature Not Yet Valid''), (9, ''DNSKEY Missing''), (10, ''RRSIGs Missing''),
      (11, ''No Zone Key Bit Set''), (12, ''NSEC Missing''), (13, ''Cached Error''),
      (14, ''Not Ready''), (15, ''Blocked''), (16, ''Censored''), (17, ''Filtered''),
      (18, ''Prohibited''), (19, ''Stale NXDOMAIN Answer''), (20, ''Not Authoritative''),
      (21, ''Not Supported''), (22, ''No Reachable Authority''), (23, ''Network Error''),
      (24, ''Invalid Data''), (25, ''Signature Expired before Valid''), (26, ''Too Early''),
      (27, ''Unsupported NSEC3 Iterations Value''), (28, ''Unable to conform to policy''),
      (29, ''Synthesized''), (30, ''Invalid Query Type'')]"

definition EDEInfoCodeString :: "uint16 \<Rightarrow> string" where
  "EDEInfoCodeString code =
     (case map_of EDEInfoCodes (unat code) of Some s \<Rightarrow> s | None \<Rightarrow> ''EDE'' @ Itoa (unat code))"

definition EDNS0ExtendedError_String :: "EDNS0ExtendedError option \<Rightarrow> bytes" where
  "EDNS0ExtendedError_String eo =
     (case eo of None \<Rightarrow> []
      | Some e \<Rightarrow>
          let head = map (\<lambda>c. of_nat (of_char c))
                (EDEInfoCodeString (ede_InfoCode e) @ '' ('' @ Itoa (unat (ede_InfoCode e)) @ '')'')
          in if ede_ExtraText e \<noteq> [] then head @ [58, 32] @ ede_ExtraText e else head)"

lemma EDE_Pack_eq: "EDNS0ExtendedError_Pack (Some e) = be16 (ede_InfoCode e) @ ede_ExtraText e"
  by (simp add: EDNS0ExtendedError_Pack_def Let_def codec_simps) (simp add: put_at_def)

lemma EDE_roundtrip: "UnpackEDNS0ExtendedError (EDNS0ExtendedError_Pack (Some e)) = Inr e"
  by (simp add: EDE_Pack_eq UnpackEDNS0ExtendedError_def Uint16_append) (simp add: Uint16_def)

subsection \<open>Chains\<close>

record EDNS0Chain =
  chain_ChainNS :: "bytes list"

fun chain_wires :: "bytes list \<Rightarrow> bytes" where
  "chain_wires [] = []"
| "chain_wires (ns # nss) = CanonicalWireName ns @ (if nss \<noteq> [] then [0] else []) @ chain_wires nss"

definition EDNS0Chain_Pack :: "EDNS0Chain option \<Rightarrow> bytes" where
  "EDNS0Chain_Pack eo = (case eo of None \<Rightarrow> [] | Some e \<Rightarrow> chain_wires (chain_ChainNS e) @ [0])"

definition wireNameToString :: "bytes \<Rightarrow> bytes" where
  "wireNameToString w =
     (if w = [] then []
      else
        let labels = labelsFromWire w
        in if labels = [] then [46] else join_dot labels @ [46])"

text \<open>The loop of \<^verbatim>\<open>UnpackEDNS0Chain\<close>; the first argument is \<^verbatim>\<open>data[offset:]\<close>.\<close>

fun UnpackEDNS0Chain_loop :: "bytes \<Rightarrow> bytes \<Rightarrow> bytes list \<Rightarrow> bytes list result" where
  "UnpackEDNS0Chain_loop [] currentName chain = Inr chain"
| "UnpackEDNS0Chain_loop (b # rest) currentName chain =
     (let len = unat b
      in if len = 0 then
           let chain = (if currentName \<noteq> [] then chain @ [wireNameToString currentName] else chain)
           in if rest = [] \<or> rest = [0] then Inr chain else UnpackEDNS0Chain_loop rest [] chain
         else if len > length rest then Inl (Errorf ''truncated CHAIN option'')
         else UnpackEDNS0Chain_loop (drop len rest) (currentName @ b # take len rest) chain)"

definition UnpackEDNS0Chain :: "bytes \<Rightarrow> EDNS0Chain result" where
  "UnpackEDNS0Chain data =
     (if data = [] then Inl (Errorf ''truncated CHAIN option'')
      else case UnpackEDNS0Chain_loop data [] [] of
             Inl e \<Rightarrow> Inl e
           | Inr chain \<Rightarrow> Inr \<lparr>chain_ChainNS = chain\<rparr>)"

definition chain_option :: "EDNS0Chain option \<Rightarrow> EDNS0Option" where
  "chain_option eo = \<lparr>opt_Code = OptionCodeChain, opt_Data = EDNS0Chain_Pack eo\<rparr>"

lemma chain_loop_labels:
  "\<forall>l \<in> set ls. valid_label l \<Longrightarrow>
   UnpackEDNS0Chain_loop (enc_labels ls @ rest) cur chain = UnpackEDNS0Chain_loop rest (cur @ enc_labels ls) chain"
proof (induction ls arbitrary: cur)
  case (Cons l ls)
  then have "0 < length l" "unat (of_nat (length l) :: byte) = length l"
    by (simp_all add: valid_label_def [of l])
  with Cons show ?case
    by (simp add: Let_def)
qed simp

lemma wireNameToString_enc:
  assumes "\<forall>l \<in> set ls. valid_label l" "ls \<noteq> []"
  shows "wireNameToString (enc_labels ls) = join_dot ls @ [46]"
proof -
  have "labelsFromWire (enc_labels ls) = ls"
    using assms(1)
  proof (induction ls)
    case (Cons l ls)
    then have "0 < length l" "unat (of_nat (length l) :: byte) = length l"
      by (simp_all add: valid_label_def [of l])
    with Cons show ?case
      by (simp add: Let_def)
  qed simp
  moreover have "enc_labels ls \<noteq> []"
    using assms(2) by (cases ls) simp_all
  ultimately show ?thesis
    using assms(2) by (simp add: wireNameToString_def)
qed

definition chain_name :: "bytes \<Rightarrow> bytes list \<Rightarrow> bool" where
  "chain_name ns ls \<longleftrightarrow> ls \<noteq> [] \<and> (\<forall>l \<in> set ls. valid_label l) \<and> CanonicalWireName ns = enc_labels ls @ [0]"

lemma chain_loop_pack:
  assumes "list_all2 chain_name nss lss" "nss \<noteq> []"
  shows "UnpackEDNS0Chain_loop (chain_wires nss @ [0]) [] chain =
    Inr (chain @ map (\<lambda>ls. join_dot ls @ [46]) lss)"
  using assms
proof (induction nss lss arbitrary: chain rule: list_all2_induct)
  case (Cons ns nss ls lss)
  then have ls: "ls \<noteq> []" "\<forall>l \<in> set ls. valid_label l" "CanonicalWireName ns = enc_labels ls @ [0]"
    by (simp_all add: chain_name_def)
  have "enc_labels ls \<noteq> []"
    using ls(1) by (cases ls) simp_all
  moreover have "chain_wires nss \<noteq> []" if "nss \<noteq> []"
    using that Cons(2) by (cases nss) (auto simp: chain_name_def list_all2_Cons1)
  ultimately show ?case
    using Cons ls by (auto simp: chain_loop_labels wireNameToString_enc Let_def)
qed simp

text \<open>A chain of names comes back from the wire in order, each name in lower case with its trailing
  dot.\<close>

lemma EDNS0Chain_roundtrip:
  assumes "list_all2 chain_name (chain_ChainNS e) lss"
  shows "UnpackEDNS0Chain (EDNS0Chain_Pack (Some e)) =
    Inr \<lparr>chain_ChainNS = map (\<lambda>ls. join_dot ls @ [46]) lss\<rparr>"
proof (cases "chain_ChainNS e = []")
  case True
  with assms show ?thesis
    by (simp add: EDNS0Chain_Pack_def UnpackEDNS0Chain_def Let_def)
next
  case False
  then show ?thesis
    using chain_loop_pack [OF assms False, of "[]"] by (simp add: EDNS0Chain_Pack_def UnpackEDNS0Chain_def)
qed

end
