(* ===== verification/Sections.thy ===== *)
theory Sections
  imports RDataBase
begin

text \<open>
  The sections of a message.  The loops of \<^verbatim>\<open>Message.Pack\<close> and \<^verbatim>\<open>UnpackMessage\<close> (\<^verbatim>\<open>internal/protocol/message.go\<close>)
  over questions and over resource records are the same loop over different items, so they are
  written once, over the item's operations, and the locale \<open>message_item\<close> says what an item owes the
  loops: questions (theory \<open>Question\<close>) and resource records (theory \<open>Records\<close>) interpret it.
\<close>

subsection \<open>The loops\<close>

fun pack_section ::
  "string \<Rightarrow> ('a \<Rightarrow> bytes \<Rightarrow> nat \<Rightarrow> compression option \<Rightarrow> (nat \<times> bytes \<times> compression option) result) \<Rightarrow>
   'a list \<Rightarrow> bytes \<Rightarrow> nat \<Rightarrow> compression option \<Rightarrow> (nat \<times> bytes \<times> compression option) result"
where
  "pack_section context pack [] buf off compression = Inr (off, buf, compression)"
| "pack_section context pack (x # xs) buf off compression =
     (case wrap_err context (pack x buf off compression) of
        Inl e \<Rightarrow> Inl e
      | Inr (n, buf, compression) \<Rightarrow> pack_section context pack xs buf (off + n) compression)"

fun unpack_section ::
  "string \<Rightarrow> (bytes \<Rightarrow> nat \<Rightarrow> ('a \<times> nat) result) \<Rightarrow> nat \<Rightarrow> bytes \<Rightarrow> nat \<Rightarrow> ('a list \<times> nat) result"
where
  "unpack_section context unpack 0 buf off = Inr ([], off)"
| "unpack_section context unpack (Suc k) buf off =
     (if off \<ge> length buf then Inl ErrBufferTooSmall
      else
        case wrap_err context (unpack buf off) of
          Inl e \<Rightarrow> Inl e
        | Inr (x, n) \<Rightarrow>
            (case unpack_section context unpack k buf (off + n) of
               Inl e \<Rightarrow> Inl e
             | Inr (xs, off) \<Rightarrow> Inr (x # xs, off)))"

definition section_len :: "('a \<Rightarrow> nat) \<Rightarrow> 'a list \<Rightarrow> nat" where
  "section_len len xs = sum_list (map len xs)"

subsection \<open>What an item owes the loops\<close>

locale message_item =
  fixes pack :: "'a option \<Rightarrow> bytes \<Rightarrow> nat \<Rightarrow> compression option \<Rightarrow> (nat \<times> bytes \<times> compression option) result"
    and unpack :: "bytes \<Rightarrow> nat \<Rightarrow> ('a \<times> nat) result"
    and len :: "'a option \<Rightarrow> nat"
    and wf :: "'a \<Rightarrow> bool"
    and read :: "'a \<Rightarrow> 'a \<Rightarrow> bool"
  assumes pack_ok: "wf x \<Longrightarrow> comp_ok c (take off buf) \<Longrightarrow> pack (Some x) buf off (Some c) = Inr (n, buf', c1) \<Longrightarrow>
      \<exists>c'. c1 = Some c' \<and> n \<le> len (Some x) \<and> off + n \<le> length buf \<and> length buf' = length buf \<and>
        take off buf' = take off buf \<and> comp_ok c' (take (off + n) buf')"
    and pack_read: "wf x \<Longrightarrow> comp_ok c (take off buf) \<Longrightarrow> pack (Some x) buf off (Some c) = Inr (n, buf', c1) \<Longrightarrow>
      take (off + n) buf'' = take (off + n) buf' \<Longrightarrow> \<exists>y. unpack buf'' off = Inr (y, n) \<and> read x y"
    and pack_total: "wf x \<Longrightarrow> comp_ok c (take off buf) \<Longrightarrow> off + len (Some x) \<le> length buf \<Longrightarrow>
      \<exists>r. pack (Some x) buf off (Some c) = Inr r"
    and unpack_bound: "unpack buf off = Inr (y, n) \<Longrightarrow> 0 < n \<and> off + n \<le> length buf"
begin

lemma section_ok:
  assumes "list_all wf xs" "comp_ok c (take off buf)" "off \<le> length buf"
    "pack_section ctx pack (map Some xs) buf off (Some c) = Inr (off', buf', c1)"
  shows "\<exists>c'. c1 = Some c' \<and> off \<le> off' \<and> off' \<le> off + section_len len (map Some xs) \<and> off' \<le> length buf \<and>
    length buf' = length buf \<and> take off buf' = take off buf \<and> comp_ok c' (take off' buf')"
  using assms
proof (induction xs arbitrary: c buf off)
  case Nil
  then show ?case by (auto simp: section_len_def)
next
  case (Cons x xs)
  obtain n buf1 c2 where p: "pack (Some x) buf off (Some c) = Inr (n, buf1, c2)"
    and rest: "pack_section ctx pack (map Some xs) buf1 (off + n) c2 = Inr (off', buf', c1)"
    using Cons.prems(4) by (auto split: sum.splits)
  obtain c' where c': "c2 = Some c'" "n \<le> len (Some x)" "off + n \<le> length buf" "length buf1 = length buf"
    "take off buf1 = take off buf" "comp_ok c' (take (off + n) buf1)"
    using pack_ok [OF _ Cons.prems(2) p] Cons.prems(1) by auto
  obtain c'' where c'': "c1 = Some c''" "off + n \<le> off'" "off' \<le> off + n + section_len len (map Some xs)" "off' \<le> length buf1"
    "length buf' = length buf1" "take (off + n) buf' = take (off + n) buf1" "comp_ok c'' (take off' buf')"
    using Cons.IH [OF _ c'(6), of] Cons.prems(1) rest c' by auto
  have "take off buf' = take off buf"
    using c''(6) c'(5) by (metis take_take min.absorb1 le_add1)
  with c' c'' show ?case
    by (auto simp: section_len_def)
qed

lemma section_read:
  assumes "list_all wf xs" "comp_ok c (take off buf)" "off \<le> length buf"
    "pack_section ctx pack (map Some xs) buf off (Some c) = Inr (off', buf', c1)"
    "take off' buf'' = take off' buf'"
  shows "\<exists>ys. unpack_section ctx' unpack (length xs) buf'' off = Inr (ys, off') \<and> list_all2 read xs ys"
  using assms
proof (induction xs arbitrary: c buf off)
  case Nil
  then show ?case by simp
next
  case (Cons x xs)
  obtain n buf1 c2 where p: "pack (Some x) buf off (Some c) = Inr (n, buf1, c2)"
    and rest: "pack_section ctx pack (map Some xs) buf1 (off + n) c2 = Inr (off', buf', c1)"
    using Cons.prems(4) by (auto split: sum.splits)
  obtain c' where c': "c2 = Some c'" "off + n \<le> length buf1" "comp_ok c' (take (off + n) buf1)"
    using pack_ok [OF _ Cons.prems(2) p] Cons.prems(1) by auto
  have le: "off + n \<le> off'" "take (off + n) buf' = take (off + n) buf1"
    using section_ok [OF _ c'(3,2) rest [unfolded c'(1)]] Cons.prems(1) by auto
  then have "take (off + n) buf'' = take (off + n) buf1"
    using Cons.prems(5) by (metis take_take min.absorb1)
  from pack_read [OF _ Cons.prems(2) p this] obtain y where y: "unpack buf'' off = Inr (y, n)" "read x y"
    using Cons.prems(1) by auto
  from Cons.IH [OF _ c'(3,2) rest [unfolded c'(1)] Cons.prems(5)] obtain ys where
    "unpack_section ctx' unpack (length xs) buf'' (off + n) = Inr (ys, off')" "list_all2 read xs ys"
    using Cons.prems(1) by auto
  with y unpack_bound [OF y(1)] show ?case
    by simp
qed

lemma section_total:
  assumes "list_all wf xs" "comp_ok c (take off buf)" "off + section_len len (map Some xs) \<le> length buf"
  shows "\<exists>r. pack_section ctx pack (map Some xs) buf off (Some c) = Inr r"
  using assms
proof (induction xs arbitrary: c buf off)
  case (Cons x xs)
  have "off + len (Some x) \<le> length buf"
    using Cons.prems(3) by (simp add: section_len_def)
  then obtain n buf1 c2 where p: "pack (Some x) buf off (Some c) = Inr (n, buf1, c2)"
    using pack_total [OF _ Cons.prems(2)] Cons.prems(1) by fastforce
  obtain c' where "c2 = Some c'" "n \<le> len (Some x)" "length buf1 = length buf" "comp_ok c' (take (off + n) buf1)"
    using pack_ok [OF _ Cons.prems(2) p] Cons.prems(1) by auto
  with Cons p show ?case
    by (simp add: section_len_def)
qed simp

end

subsection \<open>Items that are a name and a body\<close>

text \<open>What is read for a name: the same labels up to letter case.\<close>

definition name_read :: "name option \<Rightarrow> name option \<Rightarrow> bool" where
  "name_read a b \<longleftrightarrow>
     (\<exists>ls ms. a = Some (NewName ls) \<and> b = Some (NewName ms) \<and> lower_labels ms = lower_labels ls)"

lemma take_put_at_body:
  "off + length b \<le> length buf \<Longrightarrow> take (off + length b) (put_at buf off b) = take off buf @ b"
  by (simp add: put_at_def)

lemma holds_after_take:
  assumes "take (k + length b) buf = a @ b" "length a = k"
  shows "holds buf k b"
proof -
  have "length (take (k + length b) buf) = k + length b" "drop k (take (k + length b) buf) = b"
    using assms by simp_all
  then show ?thesis
    by (simp add: holds_def subslice_def drop_take)
qed

locale named_item =
  fixes pack :: "'a option \<Rightarrow> bytes \<Rightarrow> nat \<Rightarrow> compression option \<Rightarrow> (nat \<times> bytes \<times> compression option) result"
    and unpack :: "bytes \<Rightarrow> nat \<Rightarrow> ('a \<times> nat) result"
    and len :: "'a option \<Rightarrow> nat"
    and wf :: "'a \<Rightarrow> bool"
    and read :: "'a \<Rightarrow> 'a \<Rightarrow> bool"
    and name :: "'a \<Rightarrow> name option"
    and body :: "'a \<Rightarrow> bytes"
  assumes wf_item: "wf x \<Longrightarrow> \<exists>ls. name x = Some (NewName ls) \<and> wf_labels ls \<and> length ls \<le> MaxPointerDepth \<and>
      len (Some x) = length (enc_labels ls) + 1 + length (body x)"
    and item_pack_iff: "wf x \<Longrightarrow> pack (Some x) buf off c = Inr (n, buf', c') \<longleftrightarrow>
      (\<exists>n0 buf0. PackName (name x) buf (int off) c = Inr (n0, buf0, c') \<and> n = n0 + length (body x) \<and>
         off + n \<le> length buf0 \<and> buf' = put_at buf0 (off + n0) (body x))"
    and item_unpack: "wf x \<Longrightarrow> UnpackName buf (int off) = Inr (nm, n0) \<Longrightarrow> name_read (name x) (Some nm) \<Longrightarrow>
      holds buf (off + n0) (body x) \<Longrightarrow> \<exists>y. unpack buf off = Inr (y, n0 + length (body x)) \<and> read x y"
    and item_bound: "unpack buf off = Inr (y, n) \<Longrightarrow> 0 < n \<and> off + n \<le> length buf"
begin

lemma pack_parts:
  assumes "wf x" "comp_ok c (take off buf)" "pack (Some x) buf off (Some c) = Inr (n, buf', c1)"
  obtains c' ms d n0 buf0 where "c1 = Some c'" "n = n0 + length (body x)" "off + n \<le> length buf"
    "length buf0 = length buf" "take off buf0 = take off buf" "buf' = put_at buf0 (off + n0) (body x)"
    "n \<le> len (Some x)" "name_at (take (off + n0) buf0) off ms d n0" "d \<le> MaxPointerDepth" "wf_labels ms"
    "name_read (name x) (Some (NewName ms))" "comp_ok c' (take (off + n0) buf0)"
proof -
  obtain ls where ls: "name x = Some (NewName ls)" "wf_labels ls" "length ls \<le> MaxPointerDepth"
    "len (Some x) = length (enc_labels ls) + 1 + length (body x)"
    using wf_item [OF assms(1)] by blast
  obtain n0 buf0 where p: "PackName (Some (NewName ls)) buf (int off) (Some c) = Inr (n0, buf0, c1)"
    and n: "n = n0 + length (body x)" "off + n \<le> length buf0" "buf' = put_at buf0 (off + n0) (body x)"
    using assms(3) unfolding item_pack_iff [OF assms(1)] ls(1) by blast
  obtain c' ms d e where q: "c1 = Some c'" "buf0 = put_at buf off e" "n0 = length e" "off + n0 \<le> length buf"
    "n0 \<le> length (enc_labels ls) + 1" "name_at (take (off + n0) buf0) off ms d n0"
    "lower_labels ms = lower_labels ls" "d \<le> length ls" "comp_ok c' (take (off + n0) buf0)"
    using PackName_correct [OF ls(2) assms(2) p] by metis
  show thesis
  proof (rule that [OF q(1) n(1) _ _ _ n(3) _ q(6) _ _ _ q(9)])
    show "off + n \<le> length buf" "length buf0 = length buf" "take off buf0 = take off buf"
      using n q by simp_all
    show "n \<le> len (Some x)" "d \<le> MaxPointerDepth"
      using n q(5,8) ls(3,4) by simp_all
    show "wf_labels ms" "name_read (name x) (Some (NewName ms))"
      using q(7) ls(1,2) by (metis wf_lower, auto simp: name_read_def)
  qed
qed

lemma written:
  assumes "off + n0 + length (body x) \<le> length buf0" "take (off + (n0 + length (body x))) buf'' =
      take (off + (n0 + length (body x))) (put_at buf0 (off + n0) (body x))"
  shows "take (off + (n0 + length (body x))) buf'' = take (off + n0) buf0 @ body x"
    "take (off + n0) buf'' = take (off + n0) buf0" "holds buf'' (off + n0) (body x)"
proof -
  show t: "take (off + (n0 + length (body x))) buf'' = take (off + n0) buf0 @ body x"
    using assms take_put_at_body [of "off + n0" "body x" buf0] by (simp add: add.assoc)
  have l: "length (take (off + n0) buf0) = off + n0"
    using assms(1) by simp
  have "take (off + n0) (take (off + (n0 + length (body x))) buf'') = take (off + n0) buf0"
    unfolding t using l by simp
  then show "take (off + n0) buf'' = take (off + n0) buf0"
    by simp
  show "holds buf'' (off + n0) (body x)"
    using t l by (intro holds_after_take [where a = "take (off + n0) buf0"]) (simp_all add: add.assoc)
qed

end

sublocale named_item \<subseteq> message_item
proof unfold_locales
  fix x c off buf n buf' c1
  assume a: "wf x" "comp_ok c (take off buf)" "pack (Some x) buf off (Some c) = Inr (n, buf', c1)"
  from pack_parts [OF this] show "\<exists>c'. c1 = Some c' \<and> n \<le> len (Some x) \<and> off + n \<le> length buf \<and>
      length buf' = length buf \<and> take off buf' = take off buf \<and> comp_ok c' (take (off + n) buf')"
  proof cases
    case (1 c' ms d n0 buf0)
    then have "take (off + n) buf' = take (off + n0) buf0 @ body x"
      using written(1) [of off n0 x buf0 buf'] by (simp add: add.assoc)
    then have "comp_ok c' (take (off + n) buf')"
      using 1(12) by (simp add: comp_ok_append)
    with 1 show ?thesis
      by (simp add: add.assoc)
  qed
next
  fix x c off buf n buf' c1 buf''
  assume a: "wf x" "comp_ok c (take off buf)" "pack (Some x) buf off (Some c) = Inr (n, buf', c1)"
    and eq: "take (off + n) buf'' = take (off + n) buf'"
  from pack_parts [OF a] show "\<exists>y. unpack buf'' off = Inr (y, n) \<and> read x y"
  proof cases
    case (1 c' ms d n0 buf0)
    have w: "take (off + n0) buf'' = take (off + n0) buf0" "holds buf'' (off + n0) (body x)"
      using written(2,3) [of off n0 x buf0 buf''] 1(2-6) eq by (simp_all add: add.assoc)
    have "UnpackName buf'' (int off) = Inr (NewName ms, n0)"
      using 1(8-10) name_at_take [OF _ w(1)] unfolding UnpackName_iff by blast
    from item_unpack [OF a(1) this 1(11) w(2)] 1(2) show ?thesis
      by simp
  qed
next
  fix x c off buf
  assume a: "wf x" "comp_ok c (take off buf)" "off + len (Some x) \<le> length buf"
  obtain ls where ls: "name x = Some (NewName ls)" "wf_labels ls"
    "len (Some x) = length (enc_labels ls) + 1 + length (body x)"
    using wf_item [OF a(1)] by blast
  obtain n0 buf0 c' where p: "PackName (Some (NewName ls)) buf (int off) (Some c) = Inr (n0, buf0, Some c')"
    "n0 \<le> length (enc_labels ls) + 1"
    using PackName_fits [OF ls(2), of off buf c] a(3) ls(3) by auto
  then have "length buf0 = length buf"
    using PackName_correct [OF ls(2) a(2) p(1)] by (metis length_put_at)
  then show "\<exists>r. pack (Some x) buf off (Some c) = Inr r"
    using item_pack_iff [OF a(1), of buf off "Some c"] p ls a(3) by force
qed (rule item_bound)

end
