(* ===== verification/Question.thy ===== *)
theory Question
  imports Sections
begin

text \<open>
  Questions, \<^verbatim>\<open>internal/protocol/question.go\<close>.
\<close>

subsection \<open>Operations\<close>

record Question =
  q_Name :: "name option"
  q_QType :: uint16
  q_QClass :: uint16

definition NewQuestion :: "bytes \<Rightarrow> uint16 \<Rightarrow> uint16 \<Rightarrow> Question result" where
  "NewQuestion name qtype qclass =
     and_then (ParseName name) (\<lambda>n. Inr \<lparr>q_Name = Some n, q_QType = qtype, q_QClass = qclass\<rparr>)"

definition NewAQuestion :: "bytes \<Rightarrow> Question result" where
  "NewAQuestion name = NewQuestion name TypeA ClassIN"

definition NewAAAAQuestion :: "bytes \<Rightarrow> Question result" where
  "NewAAAAQuestion name = NewQuestion name TypeAAAA ClassIN"

definition NewMXQuestion :: "bytes \<Rightarrow> Question result" where
  "NewMXQuestion name = NewQuestion name TypeMX ClassIN"

definition NewNSQuestion :: "bytes \<Rightarrow> Question result" where
  "NewNSQuestion name = NewQuestion name TypeNS ClassIN"

definition NewSOAQuestion :: "bytes \<Rightarrow> Question result" where
  "NewSOAQuestion name = NewQuestion name TypeSOA ClassIN"

definition NewTXTQuestion :: "bytes \<Rightarrow> Question result" where
  "NewTXTQuestion name = NewQuestion name TypeTXT ClassIN"

definition NewCNAMEQuestion :: "bytes \<Rightarrow> Question result" where
  "NewCNAMEQuestion name = NewQuestion name TypeCNAME ClassIN"

definition NewPTRQuestion :: "bytes \<Rightarrow> Question result" where
  "NewPTRQuestion name = NewQuestion name TypePTR ClassIN"

definition NewSRVQuestion :: "bytes \<Rightarrow> Question result" where
  "NewSRVQuestion name = NewQuestion name TypeSRV ClassIN"

definition Question_WireLength :: "Question option \<Rightarrow> nat" where
  "Question_WireLength qo =
     (case qo of None \<Rightarrow> 0 | Some q \<Rightarrow> if q_Name q = None then 0 else WireLength (q_Name q) + 4)"

definition Question_Pack ::
  "Question option \<Rightarrow> bytes \<Rightarrow> nat \<Rightarrow> compression option \<Rightarrow> (nat \<times> bytes \<times> compression option) result"
where
  "Question_Pack qo buf start compression =
     (case qo of None \<Rightarrow> Inl (Errorf ''nil question'')
      | Some q \<Rightarrow>
          if q_Name q = None then Inl (Errorf ''nil question name'') else
          and_then (PackName (q_Name q) buf (int start) compression) (\<lambda>(n, buf, compression).
          let off = start + n in
          if off + 2 > length buf then Inl ErrBufferTooSmall else
          let buf = PutUint16_at buf off (q_QType q); off = off + 2 in
          if off + 2 > length buf then Inl ErrBufferTooSmall else
          let buf = PutUint16_at buf off (q_QClass q); off = off + 2
          in Inr (off - (off - n - 4), buf, compression)))"

definition UnpackQuestion :: "bytes \<Rightarrow> nat \<Rightarrow> (Question \<times> nat) result" where
  "UnpackQuestion buf start =
     and_then (UnpackName buf (int start)) (\<lambda>(name, n).
     let off = start + n in
     if off + 4 > length buf then Inl ErrBufferTooSmall else
     let qtype = Uint16 (drop off buf); off = off + 2; qclass = Uint16 (drop off buf); off = off + 2
     in Inr (\<lparr>q_Name = Some name, q_QType = qtype, q_QClass = qclass\<rparr>, off - (off - n - 4)))"

definition IsEDNS :: "Question option \<Rightarrow> bool" where
  "IsEDNS qo = (case qo of None \<Rightarrow> False | Some q \<Rightarrow> q_QType q = TypeOPT)"

definition IsClassANY :: "Question option \<Rightarrow> bool" where
  "IsClassANY qo = (case qo of None \<Rightarrow> False | Some q \<Rightarrow> q_QClass q = ClassANY)"

definition MatchesType :: "Question option \<Rightarrow> uint16 \<Rightarrow> bool" where
  "MatchesType qo qtype =
     (case qo of None \<Rightarrow> False | Some q \<Rightarrow> if q_QType q = TypeANY then True else q_QType q = qtype)"

definition MatchesClass :: "Question option \<Rightarrow> uint16 \<Rightarrow> bool" where
  "MatchesClass qo qclass =
     (case qo of None \<Rightarrow> False | Some q \<Rightarrow> if q_QClass q = ClassANY then True else q_QClass q = qclass)"

subsection \<open>The octets of a question\<close>

definition q_read :: "Question \<Rightarrow> Question \<Rightarrow> bool" where
  "q_read a b \<longleftrightarrow> name_read (q_Name a) (q_Name b) \<and> q_QType b = q_QType a \<and> q_QClass b = q_QClass a"

definition q_wf :: "Question \<Rightarrow> bool" where
  "q_wf q \<longleftrightarrow> (\<exists>ls. q_Name q = Some (NewName ls) \<and> wf_labels ls \<and> length ls \<le> MaxPointerDepth)"

definition q_body :: "Question \<Rightarrow> bytes" where
  "q_body q = be16 (q_QType q) @ be16 (q_QClass q)"

lemma Question_Pack_iff:
  assumes "q_Name q = Some nm"
  shows "Question_Pack (Some q) buf off c = Inr (n, buf', c') \<longleftrightarrow>
    (\<exists>n0 buf0. PackName (Some nm) buf (int off) c = Inr (n0, buf0, c') \<and> n = n0 + length (q_body q) \<and>
       off + n \<le> length buf0 \<and> buf' = put_at buf0 (off + n0) (q_body q))"
proof (cases "PackName (Some nm) buf (int off) c")
  case (Inl e)
  with assms(1) show ?thesis
    by (simp add: Question_Pack_def)
next
  case (Inr p)
  then obtain n0 buf0 c0 where "PackName (Some nm) buf (int off) c = Inr (n0, buf0, c0)"
    by (cases p) auto
  with assms show ?thesis
    by (auto simp: Question_Pack_def Let_def and_then_Inr q_body_def codec_simps add.assoc)
qed

lemma UnpackQuestion_body:
  assumes "UnpackName buf (int off) = Inr (nm, n0)" "holds buf (off + n0) (q_body q)"
  shows "UnpackQuestion buf off =
    Inr (\<lparr>q_Name = Some nm, q_QType = q_QType q, q_QClass = q_QClass q\<rparr>, n0 + length (q_body q))"
  using assms holds_fits [OF assms(2)]
  by (auto simp: UnpackQuestion_def Let_def q_body_def holds_be16 add.assoc)

lemma UnpackQuestion_bound: "UnpackQuestion buf off = Inr (q, n) \<Longrightarrow> 0 < n \<and> off + n \<le> length buf"
  by (auto simp: UnpackQuestion_def Let_def and_then_Inr split: if_splits dest: UnpackName_valid)

lemma q_wfE:
  assumes "q_wf q"
  obtains ls where "q_Name q = Some (NewName ls)" "wf_labels ls" "length ls \<le> MaxPointerDepth"
    "Question_WireLength (Some q) = length (enc_labels ls) + 1 + length (q_body q)"
  using assms
  by (auto simp: q_wf_def Question_WireLength_def WireLength_def NewName_def canonicalWire_enc q_body_def)

interpretation q: named_item Question_Pack UnpackQuestion Question_WireLength q_wf q_read q_Name q_body
proof unfold_locales
  fix x buf off c n buf' c'
  assume "q_wf x"
  then show "Question_Pack (Some x) buf off c = Inr (n, buf', c') \<longleftrightarrow>
      (\<exists>n0 buf0. PackName (q_Name x) buf (int off) c = Inr (n0, buf0, c') \<and>
         n = n0 + length (q_body x) \<and> off + n \<le> length buf0 \<and> buf' = put_at buf0 (off + n0) (q_body x))"
    by (elim q_wfE) (simp add: Question_Pack_iff)
next
  fix x buf off nm n0
  assume "q_wf x" "UnpackName buf (int off) = Inr (nm, n0)" "name_read (q_Name x) (Some nm)"
    "holds buf (off + n0) (q_body x)"
  then show "\<exists>y. UnpackQuestion buf off = Inr (y, n0 + length (q_body x)) \<and> q_read x y"
    by (elim q_wfE) (simp add: UnpackQuestion_body q_read_def)
next
  fix x
  assume "q_wf x"
  then show "\<exists>ls. q_Name x = Some (NewName ls) \<and> wf_labels ls \<and> length ls \<le> MaxPointerDepth \<and>
      Question_WireLength (Some x) = length (enc_labels ls) + 1 + length (q_body x)"
    by (elim q_wfE) (intro exI conjI, assumption+)
qed (rule UnpackQuestion_bound)

end
