(* ===== verification/Records.thy ===== *)
theory Records
  imports RDataSum Sections
begin

text \<open>
  Resource records, \<^verbatim>\<open>ResourceRecord\<close> of \<^verbatim>\<open>internal/protocol/record.go\<close>: packing with name compression, unpacking,
  lengths and lifetimes.  A nil interface and a typed nil pointer, which \<^verbatim>\<open>isNilRData\<close> treats alike, are
  both \<^term>\<open>None\<close>.
\<close>

subsection \<open>Operations\<close>

record ResourceRecord =
  rr_Name :: "name option"
  rr_Type :: uint16
  rr_Class :: uint16
  rr_TTL :: uint32
  rr_Data :: "rdata option"

definition NewResourceRecord ::
  "bytes \<Rightarrow> uint16 \<Rightarrow> uint16 \<Rightarrow> uint32 \<Rightarrow> rdata option \<Rightarrow> ResourceRecord result"
where
  "NewResourceRecord name rrtype rrclass ttl data =
     and_then (ParseName name) (\<lambda>n.
     Inr \<lparr>rr_Name = Some n, rr_Type = rrtype, rr_Class = rrclass, rr_TTL = ttl, rr_Data = data\<rparr>)"

definition ResourceRecord_WireLength :: "ResourceRecord option \<Rightarrow> nat" where
  "ResourceRecord_WireLength rro =
     (case rro of None \<Rightarrow> 0
      | Some rr \<Rightarrow>
          if rr_Name rr = None then 0
          else WireLength (rr_Name rr) + 10 + (case rr_Data rr of None \<Rightarrow> 0 | Some d \<Rightarrow> rdata_Len d))"

definition ResourceRecord_Pack ::
  "ResourceRecord option \<Rightarrow> bytes \<Rightarrow> nat \<Rightarrow> compression option \<Rightarrow> (nat \<times> bytes \<times> compression option) result"
where
  "ResourceRecord_Pack rro buf start compression =
     (case rro of None \<Rightarrow> Inl (Errorf ''nil resource record'')
      | Some rr \<Rightarrow>
          if rr_Name rr = None then Inl (Errorf ''nil resource record name'') else
          and_then (wrap_err ''packing name'' (PackName (rr_Name rr) buf (int start) compression))
            (\<lambda>(n, buf, compression).
          let off = start + n in
          if off + 2 > length buf then Inl ErrBufferTooSmall else
          let buf = PutUint16_at buf off (rr_Type rr); off = off + 2 in
          if off + 2 > length buf then Inl ErrBufferTooSmall else
          let buf = PutUint16_at buf off (rr_Class rr); off = off + 2 in
          if off + 4 > length buf then Inl ErrBufferTooSmall else
          let buf = PutUint32_at buf off (rr_TTL rr); off = off + 4 in
          let rdlengthOffset = off in
          if off + 2 > length buf then Inl ErrBufferTooSmall else
          let off = off + 2 in
          case rr_Data rr of
            None \<Rightarrow> Inl (Errorf ''packing rdata: nil RData for record'')
          | Some d \<Rightarrow>
              and_then (wrap_err ''packing rdata'' (rdata_Pack d buf off)) (\<lambda>(rdataLen, buf).
              if rdataLen > 0xffff then Inl (Errorf ''packing rdata: RDATA length exceeds 65535 bytes'') else
              let off = off + rdataLen; buf = PutUint16_at buf rdlengthOffset (of_nat rdataLen)
              in Inr (off - start, buf, compression))))"

definition UnpackResourceRecord :: "bytes \<Rightarrow> nat \<Rightarrow> (ResourceRecord \<times> nat) result" where
  "UnpackResourceRecord buf start =
     and_then (wrap_err ''unpacking name'' (UnpackName buf (int start))) (\<lambda>(name, n).
     let off = start + n in
     if off + 10 > length buf then Inl ErrBufferTooSmall else
     let rrtype = Uint16 (drop off buf); off = off + 2;
         rrclass = Uint16 (drop off buf); off = off + 2;
         ttl = Uint32 (drop off buf); off = off + 4;
         rdlength = Uint16 (drop off buf); off = off + 2 in
     if off + unat rdlength > length buf then Inl ErrBufferTooSmall else
     and_then
       (case createRData rrtype of
          Some z \<Rightarrow>
            and_then (wrap_err ''unpacking rdata'' (rdata_Unpack z buf off rdlength)) (\<lambda>(n, d).
            if n \<noteq> unat rdlength then Inl (Errorf ''rdata length mismatch'') else Inr (d, off + n))
        | None \<Rightarrow>
            Inr (DataRaw \<lparr>raw_TypeVal = rrtype, raw_Data = subslice buf off (unat rdlength)\<rparr>,
                 off + unat rdlength))
       (\<lambda>(d, off).
     Inr (\<lparr>rr_Name = Some name, rr_Type = rrtype, rr_Class = rrclass, rr_TTL = ttl, rr_Data = Some d\<rparr>,
          off - start)))"

text \<open>Times are nanoseconds, as in \<^verbatim>\<open>time.Time\<close> and \<^verbatim>\<open>time.Duration\<close>.\<close>

definition isExpiredAt :: "ResourceRecord option \<Rightarrow> int \<Rightarrow> int \<Rightarrow> bool" where
  "isExpiredAt rro now cachedAt =
     (case rro of None \<Rightarrow> True | Some rr \<Rightarrow> \<not> now < cachedAt + int (unat (rr_TTL rr)) * 10 ^ 9)"

definition RemainingTTL :: "ResourceRecord option \<Rightarrow> int \<Rightarrow> int \<Rightarrow> uint32" where
  "RemainingTTL rro now cachedAt =
     (case rro of None \<Rightarrow> 0
      | Some rr \<Rightarrow>
          let elapsed = now - cachedAt; ttl = int (unat (rr_TTL rr)) * 10 ^ 9 in
          if elapsed \<le> 0 then rr_TTL rr
          else if elapsed \<ge> ttl then 0
          else of_int ((ttl - elapsed) div 10 ^ 9))"

subsection \<open>The octets of a record\<close>

definition data_matches :: "uint16 \<Rightarrow> rdata \<Rightarrow> bool" where
  "data_matches t d \<longleftrightarrow>
     (case createRData t of
        Some z \<Rightarrow> rdata_zero d = z
      | None \<Rightarrow> (\<exists>bs. d = DataRaw \<lparr>raw_TypeVal = t, raw_Data = bs\<rparr>))"

definition rr_read :: "ResourceRecord \<Rightarrow> ResourceRecord \<Rightarrow> bool" where
  "rr_read a b \<longleftrightarrow> name_read (rr_Name a) (rr_Name b) \<and> rr_Type b = rr_Type a \<and> rr_Class b = rr_Class a \<and>
     rr_TTL b = rr_TTL a \<and> rr_Data b = map_option rdata_canon (rr_Data a)"

definition rr_wf :: "ResourceRecord \<Rightarrow> bool" where
  "rr_wf rr \<longleftrightarrow>
     (\<exists>ls d. rr_Name rr = Some (NewName ls) \<and> wf_labels ls \<and> length ls \<le> MaxPointerDepth \<and>
        rr_Data rr = Some d \<and> rdata_wf d \<and> rdata_Len d \<le> 0xffff \<and>
        data_matches (rr_Type rr) d)"

definition rr_body :: "ResourceRecord \<Rightarrow> rdata \<Rightarrow> bytes" where
  "rr_body rr d =
     be16 (rr_Type rr) @ be16 (rr_Class rr) @ be32 (rr_TTL rr) @ be16 (of_nat (length (rdata_enc d))) @
     rdata_enc d"

lemma put_at_before:
  "off' = off + length x \<Longrightarrow> off' + length e \<le> length b \<Longrightarrow>
   put_at (put_at b off' e) off x = put_at b off (x @ e)"
  by (simp add: put_at_def add.commute add.left_commute)

lemma ResourceRecord_Pack_iff:
  assumes "rr_Name rr = Some nm" "rr_Data rr = Some d" "rdata_wf d"
  shows "ResourceRecord_Pack (Some rr) buf off c = Inr (n, buf', c') \<longleftrightarrow>
    (\<exists>n0 buf0. PackName (Some nm) buf (int off) c = Inr (n0, buf0, c') \<and>
       length (rdata_enc d) \<le> 0xffff \<and> n = n0 + length (rr_body rr d) \<and> off + n \<le> length buf0 \<and>
       buf' = put_at buf0 (off + n0) (rr_body rr d))"
proof (cases "PackName (Some nm) buf (int off) c")
  case (Inl e)
  with assms(1) show ?thesis
    by (simp add: ResourceRecord_Pack_def)
next
  case (Inr p)
  then obtain n0 buf0 c0 where "PackName (Some nm) buf (int off) c = Inr (n0, buf0, c0)"
    by (cases p) auto
  with assms show ?thesis
    by (auto simp: ResourceRecord_Pack_def Let_def and_then_Inr rr_body_def codec_simps rdata_pack_iff
        put_at_before add.assoc)
qed

lemma data_matches_unpack:
  assumes "data_matches t d" "rdata_wf d" "holds buf off (rdata_enc d)" "length (rdata_enc d) \<le> 0xffff"
  shows "(case createRData t of
      Some z \<Rightarrow> rdata_Unpack z buf off (of_nat (length (rdata_enc d))) = Inr (length (rdata_enc d), rdata_canon d)
    | None \<Rightarrow> DataRaw \<lparr>raw_TypeVal = t, raw_Data = subslice buf off (length (rdata_enc d))\<rparr> = rdata_canon d)"
proof (cases "createRData t")
  case None
  then obtain bs where "d = DataRaw \<lparr>raw_TypeVal = t, raw_Data = bs\<rparr>"
    using assms(1) by (auto simp: data_matches_def)
  with None assms(3) show ?thesis
    by (simp add: holds_def)
next
  case (Some z)
  then show ?thesis
    using assms rdata_unpack_enc [OF assms(2,3), of "of_nat (length (rdata_enc d))"]
    by (simp add: data_matches_def)
qed

lemma UnpackResourceRecord_body:
  assumes "UnpackName buf (int off) = Inr (nm, n0)" "holds buf (off + n0) (rr_body rr d)"
    "data_matches (rr_Type rr) d" "rdata_wf d" "length (rdata_enc d) \<le> 0xffff"
  shows "UnpackResourceRecord buf off =
    Inr (\<lparr>rr_Name = Some nm, rr_Type = rr_Type rr, rr_Class = rr_Class rr, rr_TTL = rr_TTL rr,
          rr_Data = Some (rdata_canon d)\<rparr>, n0 + length (rr_body rr d))"
proof -
  have "holds buf (off + n0 + 2 + 2 + 4 + 2) (rdata_enc d)"
    using assms(2) by (simp add: rr_body_def add.assoc)
  note u = data_matches_unpack [OF assms(3,4) this assms(5)]
  show ?thesis
    using assms u holds_fits [OF assms(2)]
    by (auto simp: UnpackResourceRecord_def Let_def rr_body_def holds_be16 holds_be32 add.assoc
        split: option.splits)
qed

lemma UnpackResourceRecord_bound:
  "UnpackResourceRecord buf off = Inr (rr, n) \<Longrightarrow> 0 < n \<and> off + n \<le> length buf"
  by (auto simp: UnpackResourceRecord_def Let_def and_then_Inr split: if_splits option.splits dest: UnpackName_valid)

lemma rr_wfE:
  assumes "rr_wf rr"
  obtains ls d where "rr_Name rr = Some (NewName ls)" "wf_labels ls" "length ls \<le> MaxPointerDepth"
    "rr_Data rr = Some d" "rdata_wf d" "length (rdata_enc d) \<le> 0xffff" "data_matches (rr_Type rr) d"
    "ResourceRecord_WireLength (Some rr) = length (enc_labels ls) + 1 + length (rr_body rr d)"
  using assms
  by (auto simp: rr_wf_def rdata_len_enc ResourceRecord_WireLength_def WireLength_def NewName_def canonicalWire_enc
      rr_body_def)

interpretation rr: named_item ResourceRecord_Pack UnpackResourceRecord ResourceRecord_WireLength rr_wf rr_read
  rr_Name "\<lambda>rr. rr_body rr (the (rr_Data rr))"
proof unfold_locales
  fix x buf off c n buf' c'
  assume "rr_wf x"
  then show "ResourceRecord_Pack (Some x) buf off c = Inr (n, buf', c') \<longleftrightarrow>
      (\<exists>n0 buf0. PackName (rr_Name x) buf (int off) c = Inr (n0, buf0, c') \<and>
         n = n0 + length (rr_body x (the (rr_Data x))) \<and> off + n \<le> length buf0 \<and>
         buf' = put_at buf0 (off + n0) (rr_body x (the (rr_Data x))))"
    by (elim rr_wfE) (simp add: ResourceRecord_Pack_iff)
next
  fix x buf off nm n0
  assume "rr_wf x" "UnpackName buf (int off) = Inr (nm, n0)" "name_read (rr_Name x) (Some nm)"
    "holds buf (off + n0) (rr_body x (the (rr_Data x)))"
  then show "\<exists>y. UnpackResourceRecord buf off = Inr (y, n0 + length (rr_body x (the (rr_Data x)))) \<and> rr_read x y"
    by (elim rr_wfE) (simp add: UnpackResourceRecord_body rr_read_def)
next
  fix x
  assume "rr_wf x"
  then show "\<exists>ls. rr_Name x = Some (NewName ls) \<and> wf_labels ls \<and> length ls \<le> MaxPointerDepth \<and>
      ResourceRecord_WireLength (Some x) = length (enc_labels ls) + 1 + length (rr_body x (the (rr_Data x)))"
    by (elim rr_wfE) (intro exI conjI, assumption+, simp)
qed (rule UnpackResourceRecord_bound)


definition rr_example :: ResourceRecord where
  "rr_example = \<lparr>rr_Name = Some (NewName [[97]]), rr_Type = TypeA, rr_Class = 1, rr_TTL = 60,
     rr_Data = Some (DataA \<lparr>a_Address = [192, 0, 2, 1]\<rparr>)\<rparr>"

lemma rr_example_wf: "rr_wf rr_example"
proof -
  have "wf_labels [[97]]"
    by (simp add: wf_labels_def valid_label_def)
  moreover have "rr_Name rr_example = Some (NewName [[97]])"
    by (simp add: rr_example_def)
  moreover have "data_matches (rr_Type rr_example) (DataA \<lparr>a_Address = [192, 0, 2, 1]\<rparr>)"
    by (simp add: rr_example_def data_matches_def createRData_def)
  moreover have "length [[97 :: byte]] \<le> MaxPointerDepth"
    by (simp add: MaxPointerDepth_def)
  ultimately show ?thesis
    unfolding rr_wf_def by (intro exI conjI) (auto simp: rr_example_def RDataA_wf_def RDataA_Len_def)
qed


text \<open>The lifetime left never exceeds the record's TTL, is the whole seconds left until expiry while
  the record lives, and is zero from the moment the record counts as expired.\<close>

lemma RemainingTTL_bounds:
  assumes "cachedAt < now"
  shows "unat (RemainingTTL (Some rr) now cachedAt) \<le> unat (rr_TTL rr) \<and>
    int (unat (RemainingTTL (Some rr) now cachedAt)) =
      (if isExpiredAt (Some rr) now cachedAt then 0
       else (cachedAt + int (unat (rr_TTL rr)) * 10 ^ 9 - now) div 10 ^ 9)"
proof (cases "isExpiredAt (Some rr) now cachedAt")
  case True
  with assms show ?thesis
    by (simp add: isExpiredAt_def RemainingTTL_def)
next
  case False
  let ?ttl = "int (unat (rr_TTL rr))"
  define left where "left = (?ttl * 10 ^ 9 - (now - cachedAt)) div 10 ^ 9"
  have "left \<le> ?ttl * 10 ^ 9 div 10 ^ 9"
    unfolding left_def using assms by (intro zdiv_mono1) simp_all
  then have "0 \<le> left" "left \<le> ?ttl"
    using assms False by (simp_all add: left_def isExpiredAt_def pos_imp_zdiv_nonneg_iff)
  moreover have "?ttl < 2 ^ 32"
    using unsigned_less [of "rr_TTL rr", where 'a = int] by simp
  ultimately have "int (unat (of_int left :: uint32)) = left"
    by (simp add: uint_word_of_int_eq take_bit_int_eq_self)
  moreover from this \<open>left \<le> ?ttl\<close> have "unat (of_int left :: uint32) \<le> unat (rr_TTL rr)"
    by linarith
  ultimately show ?thesis
    using False assms
    by (simp add: RemainingTTL_def isExpiredAt_def Let_def left_def algebra_simps)
qed

end
