(* ===== verification/Message.thy ===== *)
theory Message
  imports Header Question Records
begin

text \<open>
  Messages, \<^verbatim>\<open>internal/protocol/message.go\<close>.  \<open>Message\<close> is the struct of the source; a section is a list of possibly nil pointers.
  A method that changes its receiver returns the changed message.  \<open>UnpackMessage\<close> takes the message
  it draws from \<^verbatim>\<open>messagePool\<close> as an argument: the pool may hand out any message that was released or
  made by the pool's constructor (\<open>message_pooled\<close>).
\<close>

unbundle bit_operations_syntax

subsection \<open>Messages and their construction\<close>

definition MaxQuestions :: nat where "MaxQuestions = 256"
definition MaxAnswers :: nat where "MaxAnswers = 512"
definition MaxAuthorities :: nat where "MaxAuthorities = 512"
definition MaxAdditionals :: nat where "MaxAdditionals = 512"
definition MaxRecords :: nat where
  "MaxRecords = MaxQuestions + MaxAnswers + MaxAuthorities + MaxAdditionals"

lemmas section_limits = MaxQuestions_def MaxAnswers_def MaxAuthorities_def MaxAdditionals_def

record Message =
  m_Header :: Header
  m_Questions :: "Question option list"
  m_Answers :: "ResourceRecord option list"
  m_Authorities :: "ResourceRecord option list"
  m_Additionals :: "ResourceRecord option list"
  m_RawBody :: bytes

definition NewMessage :: "Header \<Rightarrow> Message" where
  "NewMessage header =
     \<lparr>m_Header = header, m_Questions = [], m_Answers = [], m_Authorities = [], m_Additionals = [], m_RawBody = []\<rparr>"

definition NewQuery :: "uint16 \<Rightarrow> bytes \<Rightarrow> uint16 \<Rightarrow> Message result" where
  "NewQuery ident name qtype =
     (let msg = NewMessage \<lparr>ID = ident, HFlags = NewQueryFlags, QDCount = 1, ANCount = 0, NSCount = 0, ARCount = 0\<rparr> in
      and_then (NewQuestion name qtype ClassIN) (\<lambda>q.
      Inr (msg\<lparr>m_Questions := m_Questions msg @ [Some q]\<rparr>)))"

definition IsQuery :: "Message option \<Rightarrow> bool" where
  "IsQuery mo = (case mo of None \<Rightarrow> False | Some m \<Rightarrow> \<not> QR (HFlags (m_Header m)))"

definition IsResponse :: "Message option \<Rightarrow> bool" where
  "IsResponse mo = (case mo of None \<Rightarrow> False | Some m \<Rightarrow> QR (HFlags (m_Header m)))"

definition Message_SetResponse :: "byte \<Rightarrow> Message \<Rightarrow> Message" where
  "Message_SetResponse rcode m = m\<lparr>m_Header := the (SetResponse rcode (Some (m_Header m)))\<rparr>"

definition AddQuestion :: "Question option \<Rightarrow> Message \<Rightarrow> Message" where
  "AddQuestion q m =
     (let m = m\<lparr>m_Questions := m_Questions m @ [q]\<rparr>
      in m\<lparr>m_Header := (m_Header m)\<lparr>QDCount := of_nat (length (m_Questions m))\<rparr>\<rparr>)"

definition AddAnswer :: "ResourceRecord option \<Rightarrow> Message \<Rightarrow> Message" where
  "AddAnswer rr m =
     (let m = m\<lparr>m_Answers := m_Answers m @ [rr]\<rparr>
      in m\<lparr>m_Header := (m_Header m)\<lparr>ANCount := of_nat (length (m_Answers m))\<rparr>\<rparr>)"

definition AddAuthority :: "ResourceRecord option \<Rightarrow> Message \<Rightarrow> Message" where
  "AddAuthority rr m =
     (let m = m\<lparr>m_Authorities := m_Authorities m @ [rr]\<rparr>
      in m\<lparr>m_Header := (m_Header m)\<lparr>NSCount := of_nat (length (m_Authorities m))\<rparr>\<rparr>)"

definition AddAdditional :: "ResourceRecord option \<Rightarrow> Message \<Rightarrow> Message" where
  "AddAdditional rr m =
     (let m = m\<lparr>m_Additionals := m_Additionals m @ [rr]\<rparr>
      in m\<lparr>m_Header := (m_Header m)\<lparr>ARCount := of_nat (length (m_Additionals m))\<rparr>\<rparr>)"

definition Message_Clear :: "Message \<Rightarrow> Message" where
  "Message_Clear m =
     m\<lparr>m_Questions := [], m_Answers := [], m_Authorities := [], m_Additionals := [],
       m_Header := the (ClearCounts (Some (m_Header m)))\<rparr>"

subsection \<open>Packing\<close>

definition Message_WireLength :: "Message option \<Rightarrow> nat" where
  "Message_WireLength mo =
     (case mo of None \<Rightarrow> 0
      | Some m \<Rightarrow>
          if Opcode (HFlags (m_Header m)) = OpcodeDSO then HeaderLen + length (m_RawBody m)
          else HeaderLen + section_len Question_WireLength (m_Questions m) +
            section_len ResourceRecord_WireLength (m_Answers m) +
            section_len ResourceRecord_WireLength (m_Authorities m) +
            section_len ResourceRecord_WireLength (m_Additionals m))"

definition sectionCount :: "string \<Rightarrow> nat \<Rightarrow> uint16 result" where
  "sectionCount section n = (if n > 0xffff then Inl (Errorf (''too many '' @ section)) else Inr (of_nat n))"

fun validateQuestionsForPack :: "Question option list \<Rightarrow> unit result" where
  "validateQuestionsForPack [] = Inr ()"
| "validateQuestionsForPack (qo # questions) =
     (case qo of None \<Rightarrow> Inl (Errorf ''nil question'')
      | Some q \<Rightarrow>
          if q_Name q = None then Inl (Errorf ''nil question name'') else validateQuestionsForPack questions)"

fun validateResourceRecordsForPack :: "string \<Rightarrow> ResourceRecord option list \<Rightarrow> unit result" where
  "validateResourceRecordsForPack section [] = Inr ()"
| "validateResourceRecordsForPack section (rro # records) =
     (case rro of None \<Rightarrow> Inl (Errorf (''nil '' @ section @ '' record''))
      | Some rr \<Rightarrow>
          if rr_Name rr = None then Inl (Errorf (''nil '' @ section @ '' record name''))
          else if rr_Data rr = None then Inl (Errorf (''nil '' @ section @ '' record data''))
          else validateResourceRecordsForPack section records)"

definition updateHeaderCounts :: "Message option \<Rightarrow> Message result" where
  "updateHeaderCounts mo =
     (case mo of None \<Rightarrow> Inl (Errorf ''nil message'')
      | Some m \<Rightarrow>
          if Opcode (HFlags (m_Header m)) = OpcodeDSO then
            Inr (m\<lparr>m_Header := (m_Header m)\<lparr>QDCount := 0, ANCount := 0, NSCount := 0, ARCount := 0\<rparr>\<rparr>)
          else
            and_then (validateQuestionsForPack (m_Questions m)) (\<lambda>_.
            and_then (validateResourceRecordsForPack ''answer'' (m_Answers m)) (\<lambda>_.
            and_then (validateResourceRecordsForPack ''authority'' (m_Authorities m)) (\<lambda>_.
            and_then (validateResourceRecordsForPack ''additional'' (m_Additionals m)) (\<lambda>_.
            and_then (sectionCount ''questions'' (length (m_Questions m))) (\<lambda>qd.
            and_then (sectionCount ''answers'' (length (m_Answers m))) (\<lambda>an.
            and_then (sectionCount ''authorities'' (length (m_Authorities m))) (\<lambda>ns.
            and_then (sectionCount ''additionals'' (length (m_Additionals m))) (\<lambda>ar.
            Inr (m\<lparr>m_Header := (m_Header m)\<lparr>QDCount := qd, ANCount := an, NSCount := ns, ARCount := ar\<rparr>\<rparr>))))))))))"

definition pack_sections :: "Message \<Rightarrow> bytes \<Rightarrow> nat \<Rightarrow> (nat \<times> bytes) result" where
  "pack_sections m buf off =
     and_then (pack_section ''packing question'' Question_Pack (m_Questions m) buf off (Some Map.empty))
       (\<lambda>(off, buf, compression).
     and_then (pack_section ''packing answer'' ResourceRecord_Pack (m_Answers m) buf off compression)
       (\<lambda>(off, buf, compression).
     and_then (pack_section ''packing authority'' ResourceRecord_Pack (m_Authorities m) buf off compression)
       (\<lambda>(off, buf, compression).
     and_then (pack_section ''packing additional'' ResourceRecord_Pack (m_Additionals m) buf off compression)
       (\<lambda>(off, buf, compression). Inr (off, buf)))))"

text \<open>\<open>Message_Pack\<close> returns the receiver with its counts updated, also when a later step fails, and
  the number of octets with the buffer.\<close>

definition Message_Pack :: "Message option \<Rightarrow> bytes \<Rightarrow> Message option \<times> (nat \<times> bytes) result" where
  "Message_Pack mo buf =
     (case updateHeaderCounts mo of
        Inl e \<Rightarrow> (mo, Inl e)
      | Inr m \<Rightarrow>
          (Some m,
           if length buf < Message_WireLength (Some m) then Inl ErrBufferTooSmall
           else
             and_then (wrap_err ''packing header'' (Header_Pack (Some (m_Header m)) buf)) (\<lambda>buf.
             if Opcode (HFlags (m_Header m)) = OpcodeDSO then
               Inr (HeaderLen + length (m_RawBody m), put_at buf HeaderLen (m_RawBody m))
             else pack_sections m buf HeaderLen)))"

subsection \<open>Unpacking\<close>

definition messagePool_New :: Message where
  "messagePool_New = NewMessage \<lparr>ID = 0, HFlags = UnpackFlags 0, QDCount = 0, ANCount = 0, NSCount = 0, ARCount = 0\<rparr>"

definition Message_Release :: "Message \<Rightarrow> Message" where
  "Message_Release m =
     m\<lparr>m_Questions := [], m_Answers := [], m_Authorities := [], m_Additionals := [],
       m_Header := m_Header messagePool_New, m_RawBody := []\<rparr>"

inductive message_pooled :: "Message \<Rightarrow> bool" where
  New: "message_pooled messagePool_New"
| Release: "message_pooled (Message_Release m)"

definition UnpackMessage :: "Message \<Rightarrow> bytes \<Rightarrow> Message result" where
  "UnpackMessage pooled buf =
     (if length buf < HeaderLen then Inl ErrBufferTooSmall else
      let msg = pooled\<lparr>m_RawBody := []\<rparr> in
      and_then (wrap_err ''unpacking header'' (Header_Unpack (Some (m_Header msg)) (take HeaderLen buf))) (\<lambda>h.
      let msg = msg\<lparr>m_Header := h\<rparr>; off = HeaderLen in
      if Opcode (HFlags h) = OpcodeDSO then
        Inr (if length buf > HeaderLen then msg\<lparr>m_RawBody := drop HeaderLen buf\<rparr> else msg)
      else
      if unat (QDCount h) > MaxQuestions then Inl (Errorf ''too many questions'') else
      and_then (unpack_section ''unpacking question'' UnpackQuestion (unat (QDCount h)) buf off) (\<lambda>(qs, off).
      let msg = msg\<lparr>m_Questions := m_Questions msg @ map Some qs\<rparr> in
      if unat (ANCount h) > MaxAnswers then Inl (Errorf ''too many answer records'') else
      and_then (unpack_section ''unpacking answer'' UnpackResourceRecord (unat (ANCount h)) buf off) (\<lambda>(an, off).
      let msg = msg\<lparr>m_Answers := m_Answers msg @ map Some an\<rparr> in
      if unat (NSCount h) > MaxAuthorities then Inl (Errorf ''too many authority records'') else
      and_then (unpack_section ''unpacking authority'' UnpackResourceRecord (unat (NSCount h)) buf off) (\<lambda>(ns, off).
      let msg = msg\<lparr>m_Authorities := m_Authorities msg @ map Some ns\<rparr> in
      if unat (ARCount h) > MaxAdditionals then Inl (Errorf ''too many additional records'') else
      and_then (unpack_section ''unpacking additional'' UnpackResourceRecord (unat (ARCount h)) buf off) (\<lambda>(ar, off).
      Inr (msg\<lparr>m_Additionals := m_Additionals msg @ map Some ar\<rparr>)))))))"

subsection \<open>Round trip\<close>

context message_item
begin

lemma section_done:
  assumes "list_all wf xs" "comp_ok c (take off buf)" "off + section_len len (map Some xs) \<le> length buf"
  obtains off' buf' c' where "pack_section ctx pack (map Some xs) buf off (Some c) = Inr (off', buf', Some c')"
    "off \<le> off'" "off' \<le> off + section_len len (map Some xs)" "length buf' = length buf"
    "take off buf' = take off buf" "comp_ok c' (take off' buf')"
    "\<And>ctx' buf''. take off' buf'' = take off' buf' \<Longrightarrow>
       \<exists>ys. unpack_section ctx' unpack (length xs) buf'' off = Inr (ys, off') \<and> list_all2 read xs ys"
proof -
  have le: "off \<le> length buf"
    using assms(3) by simp
  obtain off' buf' c1 where p: "pack_section ctx pack (map Some xs) buf off (Some c) = Inr (off', buf', c1)"
    using section_total [OF assms] by (metis prod.exhaust)
  show thesis
    using section_ok [OF assms(1,2) le p] section_read [OF assms(1,2) le p] p that by blast
qed

end

definition section_wf :: "('a \<Rightarrow> bool) \<Rightarrow> nat \<Rightarrow> 'a option list \<Rightarrow> bool" where
  "section_wf ok limit xs \<longleftrightarrow> length xs \<le> limit \<and> (\<forall>xo \<in> set xs. case xo of None \<Rightarrow> False | Some x \<Rightarrow> ok x)"

lemma section_wfE:
  assumes "section_wf ok limit xs"
  obtains ys where "xs = map Some ys" "list_all ok ys" "length ys \<le> limit"
proof
  show "xs = map Some (map the xs)"
    using assms by (auto simp: section_wf_def intro!: map_idI [symmetric] split: option.splits)
  show "list_all ok (map the xs)" "length (map the xs) \<le> limit"
    using assms by (auto simp: section_wf_def list_all_iff split: option.splits)
qed

definition is_DSO :: "Message \<Rightarrow> bool" where
  "is_DSO m \<longleftrightarrow> Opcode (HFlags (m_Header m)) = OpcodeDSO"

definition message_wf :: "Message \<Rightarrow> bool" where
  "message_wf m \<longleftrightarrow> flags_wf (HFlags (m_Header m)) \<and>
     (is_DSO m \<or>
      section_wf q_wf MaxQuestions (m_Questions m) \<and> section_wf rr_wf MaxAnswers (m_Answers m) \<and>
      section_wf rr_wf MaxAuthorities (m_Authorities m) \<and> section_wf rr_wf MaxAdditionals (m_Additionals m))"

definition counted :: "Message \<Rightarrow> Message" where
  "counted m =
     m\<lparr>m_Header := (m_Header m)\<lparr>
         QDCount := if is_DSO m then 0 else of_nat (length (m_Questions m)),
         ANCount := if is_DSO m then 0 else of_nat (length (m_Answers m)),
         NSCount := if is_DSO m then 0 else of_nat (length (m_Authorities m)),
         ARCount := if is_DSO m then 0 else of_nat (length (m_Additionals m))\<rparr>\<rparr>"

definition items_read :: "('a \<Rightarrow> 'a \<Rightarrow> bool) \<Rightarrow> 'a option list \<Rightarrow> 'a option list \<Rightarrow> bool" where
  "items_read read = list_all2 (\<lambda>a b. \<exists>x y. a = Some x \<and> b = Some y \<and> read x y)"

text \<open>What a receiver reads of a message: the header with the counts of the sections, and the
  sections item by item; of a message of DNS Stateful Operations the body alone.\<close>

definition message_read :: "Message \<Rightarrow> Message \<Rightarrow> bool" where
  "message_read m y \<longleftrightarrow> m_Header y = m_Header (counted m) \<and>
     (if is_DSO m then
        m_RawBody y = m_RawBody m \<and> m_Questions y = [] \<and> m_Answers y = [] \<and> m_Authorities y = [] \<and> m_Additionals y = []
      else
        m_RawBody y = [] \<and>
        items_read q_read (m_Questions m) (m_Questions y) \<and> items_read rr_read (m_Answers m) (m_Answers y) \<and>
        items_read rr_read (m_Authorities m) (m_Authorities y) \<and>
        items_read rr_read (m_Additionals m) (m_Additionals y))"

lemma items_read_map: "items_read read (map Some xs) (map Some ys) \<longleftrightarrow> list_all2 read xs ys"
  by (simp add: items_read_def list_all2_conv_all_nth cong: conj_cong)

lemma message_pooled_clean:
  assumes "message_pooled p"
  shows "m_Questions p = []" "m_Answers p = []" "m_Authorities p = []" "m_Additionals p = []" "m_RawBody p = []"
    "m_Header p = m_Header messagePool_New"
  using assms by (auto elim!: message_pooled.cases simp: messagePool_New_def NewMessage_def Message_Release_def)

lemma validateQuestions_wf: "list_all q_wf qs \<Longrightarrow> validateQuestionsForPack (map Some qs) = Inr ()"
  by (induction qs) (auto simp: q_wf_def)

lemma validateRecords_wf: "list_all rr_wf rrs \<Longrightarrow> validateResourceRecordsForPack s (map Some rrs) = Inr ()"
  by (induction rrs) (auto elim: rr_wfE)

lemma updateHeaderCounts_wf:
  assumes "message_wf m"
  shows "updateHeaderCounts (Some m) = Inr (counted m)"
proof (cases "is_DSO m")
  case True
  then show ?thesis
    by (simp add: updateHeaderCounts_def counted_def is_DSO_def)
next
  case False
  with assms show ?thesis
    by (auto simp: message_wf_def updateHeaderCounts_def counted_def is_DSO_def validateQuestions_wf
        validateRecords_wf sectionCount_def section_limits elim!: section_wfE)
qed

lemma counted_simps [simp]:
  "m_Questions (counted m) = m_Questions m" "m_Answers (counted m) = m_Answers m"
  "m_Authorities (counted m) = m_Authorities m" "m_Additionals (counted m) = m_Additionals m"
  "m_RawBody (counted m) = m_RawBody m" "HFlags (m_Header (counted m)) = HFlags (m_Header m)"
  "is_DSO (counted m) = is_DSO m" "Message_WireLength (Some (counted m)) = Message_WireLength (Some m)"
  by (simp_all add: counted_def is_DSO_def Message_WireLength_def)

lemma counted_counts:
  assumes "\<not> is_DSO m"
  shows "QDCount (m_Header (counted m)) = of_nat (length (m_Questions m))"
    "ANCount (m_Header (counted m)) = of_nat (length (m_Answers m))"
    "NSCount (m_Header (counted m)) = of_nat (length (m_Authorities m))"
    "ARCount (m_Header (counted m)) = of_nat (length (m_Additionals m))"
  using assms by (simp_all add: counted_def)

text \<open>The context a loop adds to an error plays no part in what it returns: consecutive loops over the
  same kind of item are one loop.\<close>

lemma pack_section_append:
  "pack_section ctx pack (xs @ ys) buf off c = Inr r \<longleftrightarrow>
     (\<exists>off' buf' c'. pack_section ctx1 pack xs buf off c = Inr (off', buf', c') \<and>
        pack_section ctx2 pack ys buf' off' c' = Inr r)"
proof (induction xs arbitrary: buf off c)
  case Nil
  have "pack_section ctx pack ys buf off c = Inr r \<longleftrightarrow> pack_section ctx2 pack ys buf off c = Inr r"
    by (induction ys arbitrary: buf off c) (auto split: sum.splits)
  then show ?case
    by simp
qed (auto split: sum.splits)

lemma unpack_section_Suc:
  "unpack_section ctx unpack (Suc k) buf off = Inr (zs, off') \<longleftrightarrow>
     off < length buf \<and> (\<exists>x n xs. unpack buf off = Inr (x, n) \<and>
       unpack_section ctx unpack k buf (off + n) = Inr (xs, off') \<and> zs = x # xs)"
  by (auto split: sum.splits)

lemma unpack_section_append:
  "unpack_section ctx unpack (j + k) buf off = Inr (zs, off') \<longleftrightarrow>
     (\<exists>xs ys o1. unpack_section ctx1 unpack j buf off = Inr (xs, o1) \<and>
        unpack_section ctx2 unpack k buf o1 = Inr (ys, off') \<and> zs = xs @ ys)"
proof (induction j arbitrary: off zs)
  case 0
  have "unpack_section ctx unpack k buf off = Inr (zs, off') \<longleftrightarrow> unpack_section ctx2 unpack k buf off = Inr (zs, off')"
  proof (induction k arbitrary: off zs)
    case (Suc k)
    then show ?case
      unfolding unpack_section_Suc by simp
  qed simp
  then show ?case
    by auto
next
  case (Suc j)
  then show ?case
    unfolding add_Suc unpack_section_Suc by fastforce
qed

lemma section_lengths:
  "unpack_section ctx unpack k buf off = Inr (xs, off') \<Longrightarrow> length xs = k"
  by (induction k arbitrary: off xs) (auto simp: unpack_section_Suc simp del: unpack_section.simps(2))

lemma pack_sections_iff:
  "pack_sections m buf off = Inr (off', buf') \<longleftrightarrow>
     (\<exists>o1 b1 c1 c2. pack_section ctx Question_Pack (m_Questions m) buf off (Some Map.empty) = Inr (o1, b1, c1) \<and>
        pack_section ctx ResourceRecord_Pack (m_Answers m @ m_Authorities m @ m_Additionals m) b1 o1 c1 =
          Inr (off', buf', c2))"
proof -
  have q: "pack_section ctx Question_Pack (m_Questions m) buf off (Some Map.empty) = Inr r \<longleftrightarrow>
      pack_section ''packing question'' Question_Pack (m_Questions m) buf off (Some Map.empty) = Inr r" for r
    using pack_section_append [of ctx Question_Pack "m_Questions m" "[]", where ?ctx1.0 = "''packing question''" and ?ctx2.0 = ctx]
    by (cases r) auto
  show ?thesis
    unfolding q pack_section_append [of ctx _ "m_Answers m", where ?ctx1.0 = "''packing answer''" and ?ctx2.0 = ctx]
      pack_section_append [of ctx _ "m_Authorities m", where ?ctx1.0 = "''packing authority''" and ?ctx2.0 = "''packing additional''"]
    by (auto simp: pack_sections_def and_then_Inr)
qed

lemma unpack_section_split:
  assumes "length xs = j"
  shows "unpack_section ctx unpack (j + k) buf off = Inr (xs @ ys, off') \<longleftrightarrow>
    (\<exists>o1. unpack_section ctx1 unpack j buf off = Inr (xs, o1) \<and> unpack_section ctx2 unpack k buf o1 = Inr (ys, off'))"
  unfolding unpack_section_append [where ?ctx1.0 = ctx1 and ?ctx2.0 = ctx2]
  using assms section_lengths by (metis append_eq_append_conv)

lemma UnpackMessage_iff:
  assumes "message_pooled p" "HeaderLen \<le> length buf"
    and h: "Header_Unpack (Some (m_Header p)) (take HeaderLen buf) = Inr h"
  shows "UnpackMessage p buf = Inr y \<longleftrightarrow>
    (if Opcode (HFlags h) = OpcodeDSO then y = (NewMessage h)\<lparr>m_RawBody := drop HeaderLen buf\<rparr>
     else unat (QDCount h) \<le> MaxQuestions \<and> unat (ANCount h) \<le> MaxAnswers \<and>
       unat (NSCount h) \<le> MaxAuthorities \<and> unat (ARCount h) \<le> MaxAdditionals \<and>
       (\<exists>qs o1 an ns ar o2.
          unpack_section ''unpacking question'' UnpackQuestion (unat (QDCount h)) buf HeaderLen = Inr (qs, o1) \<and>
          (\<exists>o3 o4. unpack_section ''unpacking answer'' UnpackResourceRecord (unat (ANCount h)) buf o1 = Inr (an, o3) \<and>
             unpack_section ''unpacking authority'' UnpackResourceRecord (unat (NSCount h)) buf o3 = Inr (ns, o4) \<and>
             unpack_section ''unpacking additional'' UnpackResourceRecord (unat (ARCount h)) buf o4 = Inr (ar, o2)) \<and>
          y = (NewMessage h)\<lparr>m_Questions := map Some qs, m_Answers := map Some an,
                m_Authorities := map Some ns, m_Additionals := map Some ar\<rparr>))"
proof -
  obtain hd where p: "p = NewMessage hd"
    using message_pooled_clean(1-5) [OF assms(1)] by (cases p) (simp add: NewMessage_def)
  have h': "Header_Unpack (Some hd) (take HeaderLen buf) = Inr h"
    using h by (simp add: p NewMessage_def)
  show ?thesis
  proof (cases "Opcode (HFlags h) = OpcodeDSO")
    case True
    then show ?thesis
      using h' assms(2) unfolding p by (simp add: UnpackMessage_def Let_def NewMessage_def eq_commute [of _ y])
  next
    case False
    then show ?thesis
      using h' assms(2) unfolding p
      by (simp add: UnpackMessage_def Let_def NewMessage_def and_then_Inr eq_commute [of _ y] not_less) blast
  qed
qed

lemma Message_WireLength_joined:
  assumes "\<not> is_DSO m"
  shows "Message_WireLength (Some m) = HeaderLen + section_len Question_WireLength (m_Questions m) +
    section_len ResourceRecord_WireLength (m_Answers m @ m_Authorities m @ m_Additionals m)"
  using assms by (simp add: Message_WireLength_def is_DSO_def section_len_def)

lemma take_from_take: "k \<le> n \<Longrightarrow> take n a = take n b \<Longrightarrow> take k a = take k b"
  by (metis min.absorb1 take_take)

lemma UnpackMessage_reads:
  assumes "\<not> is_DSO m"
    and secs: "m_Questions m = map Some qs" "m_Answers m = map Some an" "m_Authorities m = map Some ns"
      "m_Additionals m = map Some ar"
    and lims: "length qs \<le> MaxQuestions" "length an \<le> MaxAnswers" "length ns \<le> MaxAuthorities" "length ar \<le> MaxAdditionals"
    and p: "HeaderLen \<le> length buf" "message_pooled p"
      "Header_Unpack (Some (m_Header p)) (take HeaderLen buf) = Inr (m_Header (counted m))"
    and qs: "\<exists>ys. unpack_section ''unpacking question'' UnpackQuestion (length qs) buf HeaderLen = Inr (ys, o1) \<and>
      list_all2 q_read qs ys"
    and rrs: "\<exists>ys. unpack_section ctx UnpackResourceRecord (length (an @ ns @ ar)) buf o1 = Inr (ys, o2) \<and>
      list_all2 rr_read (an @ ns @ ar) ys"
  shows "\<exists>y. UnpackMessage p buf = Inr y \<and> message_read m y"
proof -
  obtain an' ns' ar' where rrs':
    "unpack_section ctx UnpackResourceRecord (length an + (length ns + length ar)) buf o1 = Inr (an' @ ns' @ ar', o2)"
    "list_all2 rr_read an an'" "list_all2 rr_read ns ns'" "list_all2 rr_read ar ar'"
    using rrs by (fastforce simp: list_all2_append1)
  note parts = rrs'(1) [unfolded
      unpack_section_split [OF rrs'(2) [THEN list_all2_lengthD, symmetric], where ?ctx1.0 = "''unpacking answer''" and ?ctx2.0 = ctx]
      unpack_section_split [OF rrs'(3) [THEN list_all2_lengthD, symmetric], where ?ctx1.0 = "''unpacking authority''" and ?ctx2.0 = "''unpacking additional''"]]
  have small: "unat (of_nat k :: uint16) = k" if "k \<le> 512" for k
    using that by (simp add: unat_of_nat take_bit_nat_eq_self)
  note counts = counted_counts [OF assms(1), unfolded secs length_map]
  show ?thesis
    unfolding UnpackMessage_iff [OF p(2,1,3)] counts
    using assms(1) qs parts rrs'(2-4) lims
    by (auto simp: is_DSO_def secs section_limits small message_read_def items_read_map NewMessage_def)
qed

lemma pack_sections_done:
  assumes "message_wf m" "\<not> is_DSO m" "Message_WireLength (Some m) \<le> length buf"
  obtains n buf' where "pack_sections m buf HeaderLen = Inr (n, buf')" "HeaderLen \<le> n"
    "n \<le> Message_WireLength (Some m)" "length buf' = length buf" "take HeaderLen buf' = take HeaderLen buf"
    "\<And>p buf''. take n buf'' = take n buf' \<Longrightarrow> HeaderLen \<le> length buf'' \<Longrightarrow> message_pooled p \<Longrightarrow>
       Header_Unpack (Some (m_Header p)) (take HeaderLen buf'') = Inr (m_Header (counted m)) \<Longrightarrow>
       \<exists>y. UnpackMessage p buf'' = Inr y \<and> message_read m y"
proof -
  obtain qs an ns ar where secs: "m_Questions m = map Some qs" "m_Answers m = map Some an"
    "m_Authorities m = map Some ns" "m_Additionals m = map Some ar"
    and oks: "list_all q_wf qs" "list_all rr_wf (an @ ns @ ar)"
    and lims: "length qs \<le> MaxQuestions" "length an \<le> MaxAnswers" "length ns \<le> MaxAuthorities" "length ar \<le> MaxAdditionals"
    using assms(1,2) by (auto simp: message_wf_def elim!: section_wfE)
  have rrs: "m_Answers m @ m_Authorities m @ m_Additionals m = map Some (an @ ns @ ar)"
    by (simp add: secs)
  note len = assms(3) [unfolded Message_WireLength_joined [OF assms(2)] rrs secs(1)]
  obtain o1 b1 c1 where 1: "pack_section '''' Question_Pack (map Some qs) buf HeaderLen (Some Map.empty) = Inr (o1, b1, Some c1)"
    "HeaderLen \<le> o1" "o1 \<le> HeaderLen + section_len Question_WireLength (map Some qs)" "length b1 = length buf"
    "take HeaderLen b1 = take HeaderLen buf" "comp_ok c1 (take o1 b1)"
    "\<And>ctx' buf''. take o1 buf'' = take o1 b1 \<Longrightarrow>
       \<exists>ys. unpack_section ctx' UnpackQuestion (length qs) buf'' HeaderLen = Inr (ys, o1) \<and> list_all2 q_read qs ys"
    by (rule q.section_done [OF oks(1) comp_ok_empty, where ctx = "''''" and off = HeaderLen and buf = buf], use len in simp, rule that)
  obtain o2 b2 c2 where 2: "pack_section '''' ResourceRecord_Pack (map Some (an @ ns @ ar)) b1 o1 (Some c1) = Inr (o2, b2, Some c2)"
    "o1 \<le> o2" "o2 \<le> o1 + section_len ResourceRecord_WireLength (map Some (an @ ns @ ar))" "length b2 = length b1"
    "take o1 b2 = take o1 b1"
    "\<And>ctx' buf''. take o2 buf'' = take o2 b2 \<Longrightarrow>
       \<exists>ys. unpack_section ctx' UnpackResourceRecord (length (an @ ns @ ar)) buf'' o1 = Inr (ys, o2) \<and>
         list_all2 rr_read (an @ ns @ ar) ys"
    by (rule rr.section_done [OF oks(2) 1(6), where ctx = "''''"], use len 1(3,4) in simp, rule that)
  have "pack_sections m buf HeaderLen = Inr (o2, b2)"
    using 1(1) 2(1) unfolding pack_sections_iff [where ctx = "''''"] rrs secs(1) by blast
  moreover have "o2 \<le> Message_WireLength (Some m)"
    using 1(3) 2(3) unfolding Message_WireLength_joined [OF assms(2)] rrs secs(1) by simp
  moreover have "take HeaderLen b2 = take HeaderLen buf"
    using take_from_take [OF 1(2) 2(5)] 1(5) by simp
  moreover have "\<exists>y. UnpackMessage p buf'' = Inr y \<and> message_read m y"
    if eq: "take o2 buf'' = take o2 b2" and p: "HeaderLen \<le> length buf''" "message_pooled p"
      "Header_Unpack (Some (m_Header p)) (take HeaderLen buf'') = Inr (m_Header (counted m))" for p buf''
  proof (rule UnpackMessage_reads [OF assms(2) secs lims p _ 2(6) [OF eq]])
    show "\<exists>ys. unpack_section ''unpacking question'' UnpackQuestion (length qs) buf'' HeaderLen = Inr (ys, o1) \<and>
        list_all2 q_read qs ys"
      using take_from_take [OF 2(2) eq] 2(5) by (intro 1(7)) simp
  qed
  ultimately show thesis
    using that 1(2,4) 2(2,4) by simp
qed

lemma Message_wire_min: "HeaderLen \<le> Message_WireLength (Some m)"
  by (simp add: Message_WireLength_def)

lemma take_put_at_front: "length b \<le> length buf \<Longrightarrow> take (length b) (put_at buf 0 b) = b"
  by (simp add: put_at_def)

lemma Message_Pack_wf:
  assumes "message_wf m" "Message_WireLength (Some m) \<le> length buf"
  shows "Message_Pack (Some m) buf =
    (Some (counted m),
     let buf = put_at buf 0 (enc_header (m_Header (counted m)))
     in if is_DSO m then Inr (HeaderLen + length (m_RawBody m), put_at buf HeaderLen (m_RawBody m))
        else pack_sections m buf HeaderLen)"
proof -
  have "pack_sections (counted m) = pack_sections m"
    by (simp add: pack_sections_def fun_eq_iff)
  then show ?thesis
    using assms Message_wire_min [of m]
    by (simp add: Message_Pack_def updateHeaderCounts_wf Header_Pack_put is_DSO_def Let_def)
qed

lemma Message_pack_unpack:
  assumes "message_wf m" "Message_WireLength (Some m) \<le> length buf" "message_pooled p"
  shows "\<exists>n buf' y. Message_Pack (Some m) buf = (Some (counted m), Inr (n, buf')) \<and>
    n \<le> Message_WireLength (Some m) \<and> length buf' = length buf \<and>
    UnpackMessage p (take n buf') = Inr y \<and> message_read m y"
proof -
  define buf0 where "buf0 = put_at buf 0 (enc_header (m_Header (counted m)))"
  have len: "HeaderLen \<le> length buf" "length buf0 = length buf"
    using assms(2) Message_wire_min [of m] by (simp_all add: buf0_def)
  have h: "Header_Unpack (Some h0) b = Inr (m_Header (counted m))" if "take HeaderLen b = take HeaderLen buf0" for h0 b
    using Header_Unpack_enc [of b "m_Header (counted m)" h0] that assms(1)
      take_put_at_front [of "enc_header (m_Header (counted m))" buf] len(1)
    by (simp add: message_wf_def HeaderLen_def buf0_def)
  note pack = Message_Pack_wf [OF assms(1,2), unfolded Let_def, folded buf0_def]
  show ?thesis
  proof (cases "is_DSO m")
    case True
    have wl: "Message_WireLength (Some m) = HeaderLen + length (m_RawBody m)"
      using True by (simp add: Message_WireLength_def is_DSO_def)
    define w where "w = take (HeaderLen + length (m_RawBody m)) (put_at buf0 HeaderLen (m_RawBody m))"
    have w: "w = take HeaderLen buf0 @ m_RawBody m"
      unfolding w_def using len assms(2) wl by (intro take_put_at_body) simp
    have "Header_Unpack (Some (m_Header p)) (take HeaderLen w) = Inr (m_Header (counted m))" "HeaderLen \<le> length w"
      using len by (auto simp: w intro: h)
    from UnpackMessage_iff [OF assms(3) this(2,1)] have "\<exists>y. UnpackMessage p w = Inr y \<and> message_read m y"
      using True len by (simp add: is_DSO_def message_read_def NewMessage_def w)
    with True len assms(2) wl show ?thesis
      by (auto simp: pack w_def)
  next
    case False
    obtain n buf' where p: "pack_sections m buf0 HeaderLen = Inr (n, buf')" "HeaderLen \<le> n"
      "n \<le> Message_WireLength (Some m)" "length buf' = length buf0" "take HeaderLen buf' = take HeaderLen buf0"
      and r: "\<And>p buf''. take n buf'' = take n buf' \<Longrightarrow> HeaderLen \<le> length buf'' \<Longrightarrow> message_pooled p \<Longrightarrow>
       Header_Unpack (Some (m_Header p)) (take HeaderLen buf'') = Inr (m_Header (counted m)) \<Longrightarrow>
       \<exists>y. UnpackMessage p buf'' = Inr y \<and> message_read m y"
      by (rule pack_sections_done [OF assms(1) False, of buf0], use assms(2) len in simp, rule that)
    have "\<exists>y. UnpackMessage p (take n buf') = Inr y \<and> message_read m y"
      using p(2-5) assms(2,3) len by (intro r h) simp_all
    with False p len show ?thesis
      by (auto simp: pack)
  qed
qed


definition msg_example :: Message where
  "msg_example =
     (NewMessage NewHeader)\<lparr>
       m_Questions := [Some \<lparr>q_Name = Some (NewName [[97]]), q_QType = TypeA, q_QClass = 1\<rparr>],
       m_Answers := [Some rr_example]\<rparr>"

lemma msg_example_wf: "message_wf msg_example" "Message_WireLength (Some msg_example) = 36"
proof -
  have "wf_labels [[97]]" "length [[97 :: byte]] \<le> MaxPointerDepth"
    by (simp_all add: wf_labels_def valid_label_def MaxPointerDepth_def)
  then have "q_wf \<lparr>q_Name = Some (NewName [[97]]), q_QType = TypeA, q_QClass = 1\<rparr>"
    unfolding q_wf_def by (intro exI [of _ "[[97]]"]) simp
  then show "message_wf msg_example"
    by (simp add: message_wf_def msg_example_def section_wf_def rr_example_wf section_limits NewMessage_def NewHeader_def
        NewQueryFlags_def OpcodeQuery_def flags_wf_def)
  show "Message_WireLength (Some msg_example) = 36"
    by (simp add: Message_WireLength_def msg_example_def section_len_def NewMessage_def NewHeader_def NewQueryFlags_def
      OpcodeQuery_def OpcodeDSO_def HeaderLen_def Question_WireLength_def ResourceRecord_WireLength_def rr_example_def
      WireLength_def NewName_def RDataA_Len_def)
qed


subsection \<open>What a parsed message can hold\<close>

lemma unpack_section_size:
  assumes "\<And>off x n. unpack buf off = Inr (x, n) \<Longrightarrow> d \<le> n \<and> off + n \<le> length buf"
    "unpack_section ctx unpack k buf off = Inr (xs, off')" "off \<le> length buf"
  shows "length xs = k \<and> off + d * k \<le> off' \<and> off' \<le> length buf"
  using assms(2,3)
proof (induction k arbitrary: off xs)
  case (Suc k)
  then obtain x n ys where u: "unpack buf off = Inr (x, n)"
    "unpack_section ctx unpack k buf (off + n) = Inr (ys, off')" "xs = x # ys"
    unfolding unpack_section_Suc by blast
  with assms(1) [OF u(1)] Suc.IH [OF u(2)] show ?case
    by simp
qed simp

lemma UnpackQuestion_size: "UnpackQuestion buf off = Inr (q, n) \<Longrightarrow> 5 \<le> n \<and> off + n \<le> length buf"
  by (auto simp: UnpackQuestion_def Let_def and_then_Inr split: if_splits dest!: UnpackName_valid)

lemma UnpackResourceRecord_size: "UnpackResourceRecord buf off = Inr (rr, n) \<Longrightarrow> 11 \<le> n \<and> off + n \<le> length buf"
  by (auto simp: UnpackResourceRecord_def Let_def and_then_Inr split: if_splits option.splits dest!: UnpackName_valid)

lemma questions_size:
  "unpack_section ctx UnpackQuestion k buf off = Inr (xs, off') \<Longrightarrow> off \<le> length buf \<Longrightarrow>
   length xs = k \<and> off + 5 * k \<le> off' \<and> off' \<le> length buf"
  by (rule unpack_section_size [where unpack = UnpackQuestion]) (auto dest: UnpackQuestion_size)

lemma records_size:
  "unpack_section ctx UnpackResourceRecord k buf off = Inr (xs, off') \<Longrightarrow> off \<le> length buf \<Longrightarrow>
   length xs = k \<and> off + 11 * k \<le> off' \<and> off' \<le> length buf"
  by (rule unpack_section_size [where unpack = UnpackResourceRecord]) (auto dest: UnpackResourceRecord_size)

lemma UnpackMessage_parts:
  assumes "message_pooled p" "UnpackMessage p buf = Inr y" "\<not> is_DSO y"
  obtains h qs o1 an o3 ns o4 ar o2 where "HeaderLen \<le> length buf"
    "unat (QDCount h) \<le> MaxQuestions" "unat (ANCount h) \<le> MaxAnswers" "unat (NSCount h) \<le> MaxAuthorities"
    "unat (ARCount h) \<le> MaxAdditionals"
    "unpack_section ''unpacking question'' UnpackQuestion (unat (QDCount h)) buf HeaderLen = Inr (qs, o1)"
    "unpack_section ''unpacking answer'' UnpackResourceRecord (unat (ANCount h)) buf o1 = Inr (an, o3)"
    "unpack_section ''unpacking authority'' UnpackResourceRecord (unat (NSCount h)) buf o3 = Inr (ns, o4)"
    "unpack_section ''unpacking additional'' UnpackResourceRecord (unat (ARCount h)) buf o4 = Inr (ar, o2)"
    "y = (NewMessage h)\<lparr>m_Questions := map Some qs, m_Answers := map Some an,
           m_Authorities := map Some ns, m_Additionals := map Some ar\<rparr>"
proof -
  have len: "HeaderLen \<le> length buf"
    using assms(2) by (auto simp: UnpackMessage_def not_less split: if_splits)
  obtain h where h: "Header_Unpack (Some (m_Header p)) (take HeaderLen buf) = Inr h"
    using assms(2) by (auto simp: UnpackMessage_def and_then_Inr Let_def split: if_splits)
  have "Opcode (HFlags h) \<noteq> OpcodeDSO"
    using assms(2,3) unfolding UnpackMessage_iff [OF assms(1) len h] by (auto simp: is_DSO_def NewMessage_def split: if_splits)
  then show thesis
    using assms(2) len that unfolding UnpackMessage_iff [OF assms(1) len h] by auto
qed



end
