(* ===== verification/Truncation.thy ===== *)
theory Truncation
  imports Message
begin

text \<open>
  Truncation of a message to a size, \<^verbatim>\<open>Message.Truncate\<close> of \<^verbatim>\<open>internal/protocol/message.go\<close>.  The three loops that
  drop the last record of a section while the message is too long are one function \<open>shrink\<close> of the
  wire length with that section replaced.
\<close>

subsection \<open>Truncation\<close>

function shrink :: "('a list \<Rightarrow> nat) \<Rightarrow> int \<Rightarrow> 'a list \<Rightarrow> bool \<Rightarrow> 'a list \<times> bool" where
  "shrink wirelen maxSize xs truncated =
     (if length xs > 0 \<and> int (wirelen xs) > maxSize then shrink wirelen maxSize (butlast xs) True
      else (xs, truncated))"
  by pat_completeness auto
termination
  by (relation "measure (\<lambda>(wirelen, maxSize, xs, truncated). length xs)") auto

declare shrink.simps [simp del]

definition with_additionals :: "Message \<Rightarrow> ResourceRecord option list \<Rightarrow> Message" where
  "with_additionals m xs = m\<lparr>m_Additionals := xs\<rparr>"

definition with_authorities :: "Message \<Rightarrow> ResourceRecord option list \<Rightarrow> Message" where
  "with_authorities m xs = m\<lparr>m_Authorities := xs\<rparr>"

definition with_answers :: "Message \<Rightarrow> ResourceRecord option list \<Rightarrow> Message" where
  "with_answers m xs = m\<lparr>m_Answers := xs\<rparr>"

definition set_TC :: "Message \<Rightarrow> Message" where
  "set_TC m = m\<lparr>m_Header := the (SetTruncated True (Some (m_Header m)))\<rparr>"

definition drop_additionals :: "int \<Rightarrow> Message \<Rightarrow> Message" where
  "drop_additionals maxSize m =
     (let ar = fst (shrink (\<lambda>xs. Message_WireLength (Some (with_additionals m xs))) maxSize (m_Additionals m) False);
          m = with_additionals m ar
      in m\<lparr>m_Header := (m_Header m)\<lparr>ARCount := of_nat (length ar)\<rparr>\<rparr>)"

definition drop_authorities :: "int \<Rightarrow> Message \<Rightarrow> Message \<times> bool" where
  "drop_authorities maxSize m =
     (let (ns, truncated) =
            shrink (\<lambda>xs. Message_WireLength (Some (with_authorities m xs))) maxSize (m_Authorities m) False;
          m = with_authorities m ns
      in (m\<lparr>m_Header := (m_Header m)\<lparr>NSCount := of_nat (length ns)\<rparr>\<rparr>, truncated))"

definition drop_answers :: "int \<Rightarrow> bool \<Rightarrow> Message \<Rightarrow> Message \<times> bool" where
  "drop_answers maxSize truncated m =
     (let (an, truncated) =
            shrink (\<lambda>xs. Message_WireLength (Some (with_answers m xs))) maxSize (m_Answers m) truncated;
          m = with_answers m an
      in (m\<lparr>m_Header := (m_Header m)\<lparr>ANCount := of_nat (length an)\<rparr>\<rparr>, truncated))"

definition Truncate :: "int \<Rightarrow> Message \<Rightarrow> Message" where
  "Truncate maxSize m =
     (if int (Message_WireLength (Some m)) \<le> maxSize then m else
      let m = drop_additionals maxSize m in
      if int (Message_WireLength (Some m)) \<le> maxSize then m else
      let (m, truncated) = drop_authorities maxSize m in
      if int (Message_WireLength (Some m)) \<le> maxSize then (if truncated then set_TC m else m) else
      let (m, truncated) = drop_answers maxSize truncated m in
      if truncated \<or> int (Message_WireLength (Some m)) > maxSize then set_TC m else m)"

subsection \<open>What truncation keeps\<close>

lemma shrink_spec:
  "\<exists>k \<le> length xs. shrink wirelen maxSize xs t = (take k xs, t \<or> k < length xs) \<and>
     (k = 0 \<or> int (wirelen (take k xs)) \<le> maxSize) \<and>
     (k < length xs \<longrightarrow> maxSize < int (wirelen (take (Suc k) xs)))"
proof (induction wirelen maxSize xs t rule: shrink.induct)
  case (1 wirelen maxSize xs t)
  show ?case
  proof (cases "length xs > 0 \<and> int (wirelen xs) > maxSize")
    case True
    from "1.IH" [OF True] obtain k where k: "k \<le> length (butlast xs)"
      "shrink wirelen maxSize (butlast xs) True = (take k (butlast xs), True)"
      "k = 0 \<or> int (wirelen (take k (butlast xs))) \<le> maxSize"
      "k < length (butlast xs) \<longrightarrow> maxSize < int (wirelen (take (Suc k) (butlast xs)))"
      by auto
    have lt: "k < length xs" and tk: "take k (butlast xs) = take k xs"
      using k(1) True by (cases xs rule: rev_cases; simp)+
    have "maxSize < int (wirelen (take (Suc k) xs))"
    proof (cases "k < length (butlast xs)")
      case True
      then show ?thesis
        using k(4) by (simp add: take_butlast)
    next
      case False
      then have "take (Suc k) xs = xs"
        by simp
      with True show ?thesis
        by simp
    qed
    with lt k tk True show ?thesis
      by (intro exI [of _ k]) (simp add: shrink.simps [of wirelen maxSize xs])
  next
    case False
    then show ?thesis
      by (intro exI [of _ "length xs"]) (auto simp: shrink.simps [of wirelen maxSize xs])
  qed
qed

lemma wire_header [simp]:
  "Message_WireLength (Some (m\<lparr>m_Header := (m_Header m)\<lparr>ARCount := k\<rparr>\<rparr>)) = Message_WireLength (Some m)"
  "Message_WireLength (Some (m\<lparr>m_Header := (m_Header m)\<lparr>NSCount := k\<rparr>\<rparr>)) = Message_WireLength (Some m)"
  "Message_WireLength (Some (m\<lparr>m_Header := (m_Header m)\<lparr>ANCount := k\<rparr>\<rparr>)) = Message_WireLength (Some m)"
  "Message_WireLength (Some (set_TC m)) = Message_WireLength (Some m)"
  by (simp_all add: Message_WireLength_def set_TC_def SetTruncated_def)

definition keep :: "nat \<Rightarrow> nat \<Rightarrow> nat \<Rightarrow> Message \<Rightarrow> Message" where
  "keep a n r m =
     m\<lparr>m_Answers := take a (m_Answers m), m_Authorities := take n (m_Authorities m),
       m_Additionals := take r (m_Additionals m)\<rparr>"

definition same_sections :: "Message \<Rightarrow> Message \<Rightarrow> bool" where
  "same_sections m m' \<longleftrightarrow> m_Questions m' = m_Questions m \<and> m_Answers m' = m_Answers m \<and>
     m_Authorities m' = m_Authorities m \<and> m_Additionals m' = m_Additionals m \<and> m_RawBody m' = m_RawBody m \<and>
     is_DSO m' = is_DSO m"

lemma wire_same: "same_sections m m' \<Longrightarrow> Message_WireLength (Some m') = Message_WireLength (Some m)"
  by (simp add: same_sections_def Message_WireLength_def is_DSO_def)


lemma shrink_keep:
  assumes "\<And>k. same_sections (K k) (W (take k xs))"
  shows "\<exists>k \<le> length xs. shrink (\<lambda>xs. Message_WireLength (Some (W xs))) maxSize xs t = (take k xs, t \<or> k < length xs) \<and>
    (k = 0 \<or> int (Message_WireLength (Some (K k))) \<le> maxSize) \<and>
    (k < length xs \<longrightarrow> maxSize < int (Message_WireLength (Some (K (Suc k)))))"
  using shrink_spec [of xs "\<lambda>xs. Message_WireLength (Some (W xs))" maxSize t] unfolding wire_same [OF assms] .

lemmas section_defs = same_sections_def keep_def with_additionals_def with_authorities_def with_answers_def is_DSO_def

lemma drop_additionals_spec:
  "\<exists>r \<le> length (m_Additionals m). same_sections (keep (length (m_Answers m)) (length (m_Authorities m)) r m) (drop_additionals maxSize m) \<and>
     HFlags (m_Header (drop_additionals maxSize m)) = HFlags (m_Header m) \<and>
     (r = 0 \<or> int (Message_WireLength (Some (keep (length (m_Answers m)) (length (m_Authorities m)) r m))) \<le> maxSize) \<and>
     (r < length (m_Additionals m) \<longrightarrow>
        maxSize < int (Message_WireLength (Some (keep (length (m_Answers m)) (length (m_Authorities m)) (Suc r) m))))"
proof -
  have "same_sections (keep (length (m_Answers m)) (length (m_Authorities m)) k m) (with_additionals m (take k (m_Additionals m)))" for k
    by (simp add: section_defs)
  from shrink_keep [of "\<lambda>k. keep (length (m_Answers m)) (length (m_Authorities m)) k m" "with_additionals m" "m_Additionals m" maxSize False, OF this]
  show ?thesis
    by (elim exE conjE, intro exI conjI) (simp_all add: drop_additionals_def section_defs)
qed

lemma drop_authorities_spec:
  assumes "same_sections (keep (length (m_Answers m)) (length (m_Authorities m)) 0 m) m1"
  shows "\<exists>n \<le> length (m_Authorities m).
     same_sections (keep (length (m_Answers m)) n 0 m) (fst (drop_authorities maxSize m1)) \<and>
     HFlags (m_Header (fst (drop_authorities maxSize m1))) = HFlags (m_Header m1) \<and>
     snd (drop_authorities maxSize m1) = (n < length (m_Authorities m)) \<and>
     (n = 0 \<or> int (Message_WireLength (Some (keep (length (m_Answers m)) n 0 m))) \<le> maxSize) \<and>
     (n < length (m_Authorities m) \<longrightarrow> maxSize < int (Message_WireLength (Some (keep (length (m_Answers m)) (Suc n) 0 m))))"
proof -
  have eq: "m_Authorities m1 = m_Authorities m"
    using assms by (simp add: section_defs)
  have "same_sections (keep (length (m_Answers m)) k 0 m) (with_authorities m1 (take k (m_Authorities m1)))" for k
    using assms by (simp add: section_defs)
  from shrink_keep [of "\<lambda>k. keep (length (m_Answers m)) k 0 m" "with_authorities m1" "m_Authorities m1" maxSize False, OF this]
  show ?thesis
    using assms unfolding eq by (elim exE conjE, intro exI conjI) (simp_all add: drop_authorities_def section_defs)
qed

lemma drop_answers_spec:
  assumes "same_sections (keep (length (m_Answers m)) 0 0 m) m2"
  shows "\<exists>a \<le> length (m_Answers m).
     same_sections (keep a 0 0 m) (fst (drop_answers maxSize t m2)) \<and>
     HFlags (m_Header (fst (drop_answers maxSize t m2))) = HFlags (m_Header m2) \<and>
     snd (drop_answers maxSize t m2) = (t \<or> a < length (m_Answers m)) \<and>
     (a = 0 \<or> int (Message_WireLength (Some (keep a 0 0 m))) \<le> maxSize) \<and>
     (a < length (m_Answers m) \<longrightarrow> maxSize < int (Message_WireLength (Some (keep (Suc a) 0 0 m))))"
proof -
  have eq: "m_Answers m2 = m_Answers m"
    using assms by (simp add: section_defs)
  have "same_sections (keep k 0 0 m) (with_answers m2 (take k (m_Answers m2)))" for k
    using assms by (simp add: section_defs)
  from shrink_keep [of "\<lambda>k. keep k 0 0 m" "with_answers m2" "m_Answers m2" maxSize t, OF this]
  show ?thesis
    using assms unfolding eq by (elim exE conjE, intro exI conjI) (simp_all add: drop_answers_def section_defs)
qed

lemma set_TC_same:
  "same_sections m (set_TC m') = same_sections m m'"
  "HFlags (m_Header (set_TC m')) = (HFlags (m_Header m'))\<lparr>TC := True\<rparr>"
  by (simp_all add: section_defs set_TC_def SetTruncated_def)

definition truncation :: "int \<Rightarrow> Message \<Rightarrow> Message \<Rightarrow> nat \<Rightarrow> nat \<Rightarrow> nat \<Rightarrow> bool" where
  "truncation maxSize m m' a n r \<longleftrightarrow>
     a \<le> length (m_Answers m) \<and> n \<le> length (m_Authorities m) \<and> r \<le> length (m_Additionals m) \<and>
     same_sections (keep a n r m) m' \<and>
     HFlags (m_Header m') = (HFlags (m_Header m))\<lparr>
       TC := TC (HFlags (m_Header m)) \<or> a < length (m_Answers m) \<or> n < length (m_Authorities m) \<or>
             maxSize < int (Message_WireLength (Some m'))\<rparr> \<and>
     (int (Message_WireLength (Some m')) \<le> maxSize \<or> a = 0 \<and> n = 0 \<and> r = 0) \<and>
     (n < length (m_Authorities m) \<longrightarrow> r = 0) \<and> (a < length (m_Answers m) \<longrightarrow> n = 0 \<and> r = 0) \<and>
     (r < length (m_Additionals m) \<longrightarrow>
        maxSize < int (Message_WireLength (Some (keep (length (m_Answers m)) (length (m_Authorities m)) (Suc r) m)))) \<and>
     (n < length (m_Authorities m) \<longrightarrow> maxSize < int (Message_WireLength (Some (keep (length (m_Answers m)) (Suc n) 0 m)))) \<and>
     (a < length (m_Answers m) \<longrightarrow> maxSize < int (Message_WireLength (Some (keep (Suc a) 0 0 m))))"

text \<open>The three ways truncation ends after dropping records: with additional records dropped only, with authority
  records dropped, and with answers dropped.\<close>

lemma truncation_additionals:
  assumes "maxSize < int (Message_WireLength (Some m))" "int (Message_WireLength (Some (drop_additionals maxSize m))) \<le> maxSize"
  shows "\<exists>r. truncation maxSize m (Truncate maxSize m) (length (m_Answers m)) (length (m_Authorities m)) r"
proof -
  define m1 where "m1 = drop_additionals maxSize m"
  from drop_additionals_spec [of m maxSize, folded m1_def] obtain r where
    r: "r \<le> length (m_Additionals m)" "same_sections (keep (length (m_Answers m)) (length (m_Authorities m)) r m) m1"
      "HFlags (m_Header m1) = HFlags (m_Header m)"
      "r < length (m_Additionals m) \<longrightarrow>
         maxSize < int (Message_WireLength (Some (keep (length (m_Answers m)) (length (m_Authorities m)) (Suc r) m)))"
    by blast
  show ?thesis
    by (rule exI [of _ r], use assms r in \<open>simp add: truncation_def Truncate_def flip: m1_def\<close>)
qed

lemma drop_additionals_all:
  assumes "maxSize < int (Message_WireLength (Some (drop_additionals maxSize m)))"
  shows "same_sections (keep (length (m_Answers m)) (length (m_Authorities m)) 0 m) (drop_additionals maxSize m)"
    "HFlags (m_Header (drop_additionals maxSize m)) = HFlags (m_Header m)"
    "0 < length (m_Additionals m) \<longrightarrow>
       maxSize < int (Message_WireLength (Some (keep (length (m_Answers m)) (length (m_Authorities m)) (Suc 0) m)))"
proof -
  from drop_additionals_spec [of m maxSize] obtain r where
    r: "same_sections (keep (length (m_Answers m)) (length (m_Authorities m)) r m) (drop_additionals maxSize m)"
      "HFlags (m_Header (drop_additionals maxSize m)) = HFlags (m_Header m)"
      "r = 0 \<or> int (Message_WireLength (Some (keep (length (m_Answers m)) (length (m_Authorities m)) r m))) \<le> maxSize"
      "r < length (m_Additionals m) \<longrightarrow>
         maxSize < int (Message_WireLength (Some (keep (length (m_Answers m)) (length (m_Authorities m)) (Suc r) m)))"
    by blast
  have "r = 0"
    using r(3) assms wire_same [OF r(1)] by simp
  with r show "same_sections (keep (length (m_Answers m)) (length (m_Authorities m)) 0 m) (drop_additionals maxSize m)"
    "HFlags (m_Header (drop_additionals maxSize m)) = HFlags (m_Header m)"
    "0 < length (m_Additionals m) \<longrightarrow>
       maxSize < int (Message_WireLength (Some (keep (length (m_Answers m)) (length (m_Authorities m)) (Suc 0) m)))"
    by simp_all
qed

lemma truncation_answers:
  assumes m2: "same_sections (keep (length (m_Answers m)) 0 0 m) m2" "HFlags (m_Header m2) = HFlags (m_Header m)"
    and T: "drop_answers maxSize (0 < length (m_Authorities m)) m2 = (m3, t)"
      "Truncate maxSize m = (if t \<or> int (Message_WireLength (Some m3)) > maxSize then set_TC m3 else m3)"
    and more: "0 < length (m_Additionals m) \<longrightarrow>
        maxSize < int (Message_WireLength (Some (keep (length (m_Answers m)) (length (m_Authorities m)) (Suc 0) m)))"
      "0 < length (m_Authorities m) \<longrightarrow> maxSize < int (Message_WireLength (Some (keep (length (m_Answers m)) (Suc 0) 0 m)))"
  shows "\<exists>a. truncation maxSize m (Truncate maxSize m) a 0 0"
proof -
  let ?A = "length (m_Answers m)" and ?N = "length (m_Authorities m)"
  from drop_answers_spec [OF m2(1), of maxSize "0 < ?N", unfolded T(1) fst_conv snd_conv] obtain a where
    a: "a \<le> ?A" "t = (0 < ?N \<or> a < ?A)" "same_sections (keep a 0 0 m) m3" "HFlags (m_Header m3) = HFlags (m_Header m)"
      "a = 0 \<or> int (Message_WireLength (Some (keep a 0 0 m))) \<le> maxSize"
      "a < ?A \<longrightarrow> maxSize < int (Message_WireLength (Some (keep (Suc a) 0 0 m)))"
    using m2(2) by auto
  have S: "same_sections (keep a 0 0 m) (Truncate maxSize m)"
    using a(3) by (simp add: T(2) set_TC_same)
  have F: "HFlags (m_Header (Truncate maxSize m)) =
      (HFlags (m_Header m))\<lparr>TC := TC (HFlags (m_Header m)) \<or> t \<or> maxSize < int (Message_WireLength (Some (keep a 0 0 m)))\<rparr>"
    using wire_same [OF a(3)] a(4) by (simp add: T(2) set_TC_same)
  have "t \<or> x \<longleftrightarrow> a < ?A \<or> 0 < ?N \<or> x" for x
    using a(2) by blast
  then have "truncation maxSize m (Truncate maxSize m) a 0 0"
    unfolding truncation_def F wire_same [OF S] using S a(1,5,6) more by force
  then show ?thesis
    by blast
qed

lemma Truncate_truncation: "\<exists>a n r. truncation maxSize m (Truncate maxSize m) a n r"
proof (cases "int (Message_WireLength (Some m)) \<le> maxSize \<or> int (Message_WireLength (Some (drop_additionals maxSize m))) \<le> maxSize")
  case True
  show ?thesis
  proof (cases "int (Message_WireLength (Some m)) \<le> maxSize")
    case True
    then have "truncation maxSize m (Truncate maxSize m) (length (m_Answers m)) (length (m_Authorities m)) (length (m_Additionals m))"
      by (simp add: truncation_def Truncate_def section_defs)
    then show ?thesis
      by blast
  next
    case False
    with True have "maxSize < int (Message_WireLength (Some m))" "int (Message_WireLength (Some (drop_additionals maxSize m))) \<le> maxSize"
      by simp_all
    from truncation_additionals [OF this] show ?thesis
      by blast
  qed
next
  case False
  let ?A = "length (m_Answers m)" and ?N = "length (m_Authorities m)" and ?m1 = "drop_additionals maxSize m"
  from False have big: "maxSize < int (Message_WireLength (Some ?m1))" "\<not> int (Message_WireLength (Some m)) \<le> maxSize"
    by simp_all
  note m1 = drop_additionals_all [OF big(1)]
  obtain m2 t where m2: "drop_authorities maxSize ?m1 = (m2, t)"
    by fastforce
  from drop_authorities_spec [OF m1(1), of maxSize, unfolded m2 fst_conv snd_conv] obtain n where
    n: "n \<le> ?N" "t = (n < ?N)" "same_sections (keep ?A n 0 m) m2" "HFlags (m_Header m2) = HFlags (m_Header m)"
      "n = 0 \<or> int (Message_WireLength (Some (keep ?A n 0 m))) \<le> maxSize"
      "n < ?N \<longrightarrow> maxSize < int (Message_WireLength (Some (keep ?A (Suc n) 0 m)))"
    using m1(2) by auto
  show ?thesis
  proof (cases "int (Message_WireLength (Some m2)) \<le> maxSize")
    case True
    have "Truncate maxSize m = (if t then set_TC m2 else m2)"
      using True big m2 by (simp add: Truncate_def)
    with True n m1(3) have "truncation maxSize m (Truncate maxSize m) ?A n 0"
      by (auto simp: truncation_def set_TC_same)
    then show ?thesis
      by blast
  next
    case False2: False
    have n0: "n = 0"
      using n(5) False2 wire_same [OF n(3)] by simp
    obtain m3 t' where m3: "drop_answers maxSize t m2 = (m3, t')"
      by fastforce
    have "Truncate maxSize m = (if t' \<or> int (Message_WireLength (Some m3)) > maxSize then set_TC m3 else m3)"
      using big False2 m2 m3 by (simp add: Truncate_def)
    from truncation_answers [OF n(3) [unfolded n0] n(4) m3 [unfolded n(2) n0] this m1(3)] n(6) n0 show ?thesis
      by auto
  qed
qed

text \<open>C4: Truncation removes whole records from the end, additional records first, authority records
  only when no additional record is left and answers only when neither is left, and never more
  than it must: with one more record the message would exceed the size. The result fits the size unless
  every record is gone. The TC bit is added exactly when an answer or authority record was dropped or the
  result still exceeds the size, and the questions and the rest of the header flags stay.\<close>

theorem Truncate_spec:
  "\<exists>a n r. a \<le> length (m_Answers m) \<and> n \<le> length (m_Authorities m) \<and> r \<le> length (m_Additionals m) \<and>
     same_sections (keep a n r m) (Truncate maxSize m) \<and>
     HFlags (m_Header (Truncate maxSize m)) = (HFlags (m_Header m))\<lparr>
       TC := TC (HFlags (m_Header m)) \<or> a < length (m_Answers m) \<or> n < length (m_Authorities m) \<or>
             maxSize < int (Message_WireLength (Some (Truncate maxSize m)))\<rparr> \<and>
     (int (Message_WireLength (Some (Truncate maxSize m))) \<le> maxSize \<or> a = 0 \<and> n = 0 \<and> r = 0) \<and>
     (n < length (m_Authorities m) \<longrightarrow> r = 0) \<and> (a < length (m_Answers m) \<longrightarrow> n = 0 \<and> r = 0) \<and>
     (r < length (m_Additionals m) \<longrightarrow>
        maxSize < int (Message_WireLength (Some (keep (length (m_Answers m)) (length (m_Authorities m)) (Suc r) m)))) \<and>
     (n < length (m_Authorities m) \<longrightarrow> maxSize < int (Message_WireLength (Some (keep (length (m_Answers m)) (Suc n) 0 m)))) \<and>
     (a < length (m_Answers m) \<longrightarrow> maxSize < int (Message_WireLength (Some (keep (Suc a) 0 0 m))))"
  using Truncate_truncation [of maxSize m] unfolding truncation_def .

lemma keep_all:
  "length (m_Answers m) \<le> a \<Longrightarrow> length (m_Authorities m) \<le> n \<Longrightarrow> length (m_Additionals m) \<le> r \<Longrightarrow> keep a n r m = m"
  by (simp add: keep_def)

theorem Truncate_spec_witness:
  "m_Answers (Truncate 20 msg_example) = [] \<and> TC (HFlags (m_Header (Truncate 20 msg_example)))"
proof -
  have e: "length (m_Answers msg_example) = 1" "m_Authorities msg_example = []" "m_Additionals msg_example = []"
    by (simp_all add: msg_example_def NewMessage_def)
  from Truncate_spec [of msg_example 20] obtain a n r where s: "a \<le> length (m_Answers msg_example)"
    "n \<le> length (m_Authorities msg_example)" "r \<le> length (m_Additionals msg_example)"
    "same_sections (keep a n r msg_example) (Truncate 20 msg_example)"
    "HFlags (m_Header (Truncate 20 msg_example)) = (HFlags (m_Header msg_example))\<lparr>TC :=
       TC (HFlags (m_Header msg_example)) \<or> a < length (m_Answers msg_example) \<or> n < length (m_Authorities msg_example) \<or>
       20 < int (Message_WireLength (Some (Truncate 20 msg_example)))\<rparr>"
    "int (Message_WireLength (Some (Truncate 20 msg_example))) \<le> 20 \<or> a = 0 \<and> n = 0 \<and> r = 0"
    by blast
  have "a \<noteq> 1"
  proof
    assume "a = 1"
    then have "keep a n r msg_example = msg_example"
      by (intro keep_all) (simp_all add: e)
    with s(4,6) \<open>a = 1\<close> show False
      using wire_same msg_example_wf(2) by fastforce
  qed
  then have "a = 0"
    using s(1) e(1) by simp
  with s e(1) show ?thesis
    by (simp add: same_sections_def keep_def)
qed

subsection \<open>Truncated messages can be sent\<close>

lemma section_wf_take: "section_wf ok limit xs \<Longrightarrow> section_wf ok limit (take k xs)"
  by (auto simp: section_wf_def dest: in_set_takeD)

lemma Truncate_wf:
  assumes "message_wf m"
  shows "message_wf (Truncate maxSize m)"
proof -
  obtain a n r where "truncation maxSize m (Truncate maxSize m) a n r"
    using Truncate_truncation by blast
  then have "same_sections (keep a n r m) (Truncate maxSize m)"
    "flags_wf (HFlags (m_Header (Truncate maxSize m))) = flags_wf (HFlags (m_Header m))"
    by (auto simp: truncation_def flags_wf_def)
  with assms show ?thesis
    by (auto simp: message_wf_def same_sections_def keep_def is_DSO_def section_wf_take)
qed

lemma Truncate_fits:
  assumes "\<not> is_DSO m" "int (HeaderLen + section_len Question_WireLength (m_Questions m)) \<le> maxSize"
  shows "int (Message_WireLength (Some (Truncate maxSize m))) \<le> maxSize"
proof -
  obtain a n r where t: "truncation maxSize m (Truncate maxSize m) a n r"
    using Truncate_truncation by blast
  then have w: "Message_WireLength (Some (Truncate maxSize m)) = Message_WireLength (Some (keep a n r m))"
    by (intro wire_same) (simp add: truncation_def)
  have "Message_WireLength (Some (keep 0 0 0 m)) = HeaderLen + section_len Question_WireLength (m_Questions m)"
    using assms(1) by (simp add: Message_WireLength_def keep_def is_DSO_def section_len_def)
  with t w assms(2) show ?thesis
    by (auto simp: truncation_def)
qed


end
