(* ===== verification/MessageEdns.thy ===== *)
theory MessageEdns
  imports Message EdnsOptions
begin

text \<open>
  EDNS in a message: \<^verbatim>\<open>GetOPT\<close> and \<^verbatim>\<open>SetEDNS0\<close> of \<^verbatim>\<open>internal/protocol/message.go\<close>, and \<^verbatim>\<open>ParseEDNS0Header\<close>,
  \<^verbatim>\<open>BuildEDNSTTL\<close> and \<^verbatim>\<open>AddExtendedError\<close> of \<^verbatim>\<open>internal/protocol/opt.go\<close>.
\<close>

unbundle bit_operations_syntax

subsection \<open>EDNS in a message\<close>

record EDNS0Header =
  edns_UDPSize :: uint16
  edns_ExtendedRCODE :: byte
  edns_Version :: byte
  edns_DO :: bool
  edns_Z :: uint16

definition BuildEDNSTTL :: "byte \<Rightarrow> byte \<Rightarrow> bool \<Rightarrow> uint16 \<Rightarrow> uint32" where
  "BuildEDNSTTL extendedRCode version do z =
     (let ttl = push_bit 24 (ucast extendedRCode);
          ttl = ttl OR push_bit 16 (ucast version);
          ttl = (if do then ttl OR 0x8000 else ttl)
      in ttl OR ucast (z AND 0x7FFF))"

definition ParseEDNS0Header :: "ResourceRecord option \<Rightarrow> EDNS0Header option" where
  "ParseEDNS0Header rro =
     (case rro of None \<Rightarrow> None
      | Some rr \<Rightarrow>
          if rr_Type rr \<noteq> TypeOPT then None
          else
            let ttl = rr_TTL rr
            in Some \<lparr>edns_UDPSize = rr_Class rr, edns_ExtendedRCODE = ucast (drop_bit 24 ttl),
                     edns_Version = ucast (drop_bit 16 ttl AND 0xFF), edns_DO = (ttl AND 0x8000 \<noteq> 0),
                     edns_Z = ucast (ttl AND 0x7FFF)\<rparr>)"

definition is_OPT :: "ResourceRecord option \<Rightarrow> bool" where
  "is_OPT rro = (case rro of None \<Rightarrow> False | Some rr \<Rightarrow> rr_Type rr = TypeOPT)"

definition GetOPT :: "Message option \<Rightarrow> ResourceRecord option" where
  "GetOPT mo =
     (case mo of None \<Rightarrow> None
      | Some m \<Rightarrow> (case find is_OPT (m_Additionals m) of None \<Rightarrow> None | Some rr \<Rightarrow> rr))"

definition new_OPT :: "uint16 \<Rightarrow> bool \<Rightarrow> ResourceRecord" where
  "new_OPT udpPayloadSize do =
     \<lparr>rr_Name = Some (NewName []), rr_Type = TypeOPT, rr_Class = udpPayloadSize,
      rr_TTL = BuildEDNSTTL 0 0 do 0, rr_Data = Some (DataOPT \<lparr>opt_Options = []\<rparr>)\<rparr>"

definition SetEDNS0 :: "uint16 \<Rightarrow> bool \<Rightarrow> Message \<Rightarrow> Message" where
  "SetEDNS0 udpPayloadSize do m =
     (let m = m\<lparr>m_Additionals := filter (\<lambda>rr. \<not> (rr = None \<or> is_OPT rr)) (m_Additionals m)\<rparr>
      in AddAdditional (Some (new_OPT udpPayloadSize do)) m)"

text \<open>\<open>AddExtendedError\<close> changes the OPT record that \<open>GetOPT\<close> found through its pointer: the first OPT
  record of the additional section is updated in place.\<close>

definition add_ede :: "EDNS0Option \<Rightarrow> ResourceRecord \<Rightarrow> ResourceRecord" where
  "add_ede edeOption opt =
     (let optData = (case rr_Data opt of Some (DataOPT d) \<Rightarrow> d | _ \<Rightarrow> \<lparr>opt_Options = []\<rparr>)
      in opt\<lparr>rr_Data := Some (DataOPT (the (AddOption (Some optData) (opt_Code edeOption) (opt_Data edeOption))))\<rparr>)"

fun update_OPT :: "(ResourceRecord \<Rightarrow> ResourceRecord) \<Rightarrow> ResourceRecord option list \<Rightarrow> ResourceRecord option list" where
  "update_OPT f [] = []"
| "update_OPT f (rr # rrs) = (if is_OPT rr then map_option f rr # rrs else rr # update_OPT f rrs)"

definition AddExtendedError :: "uint16 \<Rightarrow> bytes \<Rightarrow> Message \<Rightarrow> Message" where
  "AddExtendedError infoCode extraText msg =
     (let ede = NewEDNS0ExtendedError infoCode extraText;
          msg = (if GetOPT (Some msg) = None then SetEDNS0 4096 False msg else msg)
      in if GetOPT (Some msg) = None then msg
         else msg\<lparr>m_Additionals := update_OPT (add_ede (ede_option (Some ede))) (m_Additionals msg)\<rparr>)"


subsection \<open>The fields in the TTL\<close>

lemma and_0x8000: "(w :: uint32) AND 0x8000 \<noteq> 0 \<longleftrightarrow> bit w 15"
  using and_bit_nonzero [of w 15] by (simp add: push_bit_eq_mult)

lemma and_0x7FFF: "(w :: 'a::len word) AND 0x7FFF = take_bit 15 w"
  using take_bit_eq_mask [of 15 w] by (simp add: mask_eq_exp_minus_1)

lemma bit_0x8000: "bit (0x8000 :: uint32) n \<longleftrightarrow> n = 15"
  using bit_flag [where 'a = 32, of 15 n] by (simp add: push_bit_eq_mult)

lemma BuildEDNSTTL_bits:
  "bit (BuildEDNSTTL rc v do z) n \<longleftrightarrow>
     24 \<le> n \<and> bit rc (n - 24) \<or> 16 \<le> n \<and> n < 24 \<and> bit v (n - 16) \<or> do \<and> n = 15 \<or> n < 15 \<and> bit z n"
  unfolding BuildEDNSTTL_def Let_def or_if bit_or_iff bit_if bit_0x8000 and_0x7FFF
  by (auto simp: bit_simps dest: bit_imp_le_length)

lemma BuildEDNSTTL_parse:
  "BuildEDNSTTL (ucast (drop_bit 24 ttl)) (ucast (drop_bit 16 ttl AND 0xFF)) (ttl AND 0x8000 \<noteq> 0) (ucast (ttl AND 0x7FFF)) =
   (ttl :: uint32)"
proof (rule bit_word_eqI)
  fix n
  assume n: "n < LENGTH(32)"
  consider "24 \<le> n" | "16 \<le> n" "n < 24" | "n = 15" | "n < 15"
    by linarith
  then show "bit (BuildEDNSTTL (ucast (drop_bit 24 ttl)) (ucast (drop_bit 16 ttl AND 0xFF)) (ttl AND 0x8000 \<noteq> 0)
      (ucast (ttl AND 0x7FFF))) n = bit ttl n"
    unfolding BuildEDNSTTL_bits and_0x8000 and_0x7FFF and_0xFF
    using n by cases (auto simp: bit_simps)
qed

text \<open>The extended response code, version, DO flag and reserved bits that are put into the TTL of an
  OPT record are the ones read from it, the payload size is the class, and every TTL is rebuilt from the fields
  read, so an OPT record is forwarded unchanged.\<close>

lemma EDNS0Header_roundtrip:
  assumes "rr_Type rr = TypeOPT"
  shows "ParseEDNS0Header (Some (rr\<lparr>rr_Class := sz, rr_TTL := BuildEDNSTTL rc v do z\<rparr>)) =
      Some \<lparr>edns_UDPSize = sz, edns_ExtendedRCODE = rc, edns_Version = v, edns_DO = do, edns_Z = take_bit 15 z\<rparr> \<and>
    (\<exists>h. ParseEDNS0Header (Some rr) = Some h \<and>
       BuildEDNSTTL (edns_ExtendedRCODE h) (edns_Version h) (edns_DO h) (edns_Z h) = rr_TTL rr \<and>
       edns_UDPSize h = rr_Class rr)"
proof -
  have "ucast (drop_bit 24 (BuildEDNSTTL rc v do z)) = rc"
    by (rule bit_word_eqI) (auto simp: bit_simps BuildEDNSTTL_bits)
  moreover have "ucast (drop_bit 16 (BuildEDNSTTL rc v do z) AND 0xFF) = v"
    unfolding and_0xFF by (rule bit_word_eqI) (auto simp: bit_simps BuildEDNSTTL_bits)
  moreover have "(ucast (BuildEDNSTTL rc v do z AND 0x7FFF) :: uint16) = take_bit 15 z"
    unfolding and_0x7FFF by (rule bit_word_eqI) (auto simp: bit_simps BuildEDNSTTL_bits)
  moreover have "(BuildEDNSTTL rc v do z AND 0x8000 \<noteq> 0) = do"
    unfolding and_0x8000 BuildEDNSTTL_bits by auto
  ultimately show ?thesis
    using assms BuildEDNSTTL_parse [of "rr_TTL rr"] by (simp add: ParseEDNS0Header_def Let_def)
qed

subsection \<open>The OPT record of a message\<close>

lemma find_snoc: "(\<forall>x \<in> set xs. \<not> P x) \<Longrightarrow> P y \<Longrightarrow> find P (xs @ [y]) = Some y"
  by (induction xs) auto

lemma SetEDNS0_additionals:
  "m_Additionals (SetEDNS0 sz do m) =
     filter (\<lambda>rr. \<not> (rr = None \<or> is_OPT rr)) (m_Additionals m) @ [Some (new_OPT sz do)]"
  by (simp add: SetEDNS0_def AddAdditional_def Let_def)

lemma is_OPT_new [simp]: "is_OPT (Some (new_OPT sz do))"
  by (simp add: is_OPT_def new_OPT_def)

lemma GetOPT_SetEDNS0: "GetOPT (Some (SetEDNS0 sz do m)) = Some (new_OPT sz do)"
proof -
  have none: "\<forall>rr \<in> set (filter (\<lambda>rr. \<not> (rr = None \<or> is_OPT rr)) (m_Additionals m)). \<not> is_OPT rr"
    by simp
  show ?thesis
    by (simp only: GetOPT_def SetEDNS0_additionals option.case find_snoc [OF none is_OPT_new])
qed

text \<open>C39: After \<open>SetEDNS0\<close> a message has exactly one OPT record, the one with the requested payload
  size and DO flag, version 0 and no options; the other additional records stay in order and the
  additional count is their number plus one.\<close>

theorem SetEDNS0_spec:
  "GetOPT (Some (SetEDNS0 sz do m)) = Some (new_OPT sz do) \<and>
   ParseEDNS0Header (GetOPT (Some (SetEDNS0 sz do m))) =
     Some \<lparr>edns_UDPSize = sz, edns_ExtendedRCODE = 0, edns_Version = 0, edns_DO = do, edns_Z = 0\<rparr> \<and>
   filter is_OPT (m_Additionals (SetEDNS0 sz do m)) = [Some (new_OPT sz do)] \<and>
   filter (\<lambda>rr. rr \<noteq> None \<and> \<not> is_OPT rr) (m_Additionals (SetEDNS0 sz do m)) =
     filter (\<lambda>rr. rr \<noteq> None \<and> \<not> is_OPT rr) (m_Additionals m) \<and>
   ARCount (m_Header (SetEDNS0 sz do m)) = of_nat (length (m_Additionals (SetEDNS0 sz do m)))"
proof -
  have z: "(ucast (BuildEDNSTTL 0 0 do 0 AND 0x7FFF) :: uint16) = 0"
    "(ucast (drop_bit 24 (BuildEDNSTTL 0 0 do 0)) :: byte) = 0" "(ucast (drop_bit 16 (BuildEDNSTTL 0 0 do 0) AND 0xFF) :: byte) = 0"
    unfolding and_0x7FFF and_0xFF by (rule bit_word_eqI; auto simp: bit_simps BuildEDNSTTL_bits)+
  have d: "(BuildEDNSTTL 0 0 do 0 AND 0x8000 \<noteq> 0) = do"
    unfolding and_0x8000 BuildEDNSTTL_bits by auto
  have "ParseEDNS0Header (Some (new_OPT sz do)) =
     Some \<lparr>edns_UDPSize = sz, edns_ExtendedRCODE = 0, edns_Version = 0, edns_DO = do, edns_Z = 0\<rparr>"
    using d by (simp add: ParseEDNS0Header_def new_OPT_def z)
  then show ?thesis
    unfolding GetOPT_SetEDNS0
    by (simp add: SetEDNS0_additionals filter_empty_conv) (simp add: SetEDNS0_def AddAdditional_def Let_def conj_commute)
qed

lemma find_update_OPT:
  assumes "find is_OPT xs = Some (Some rr)" "\<And>r. rr_Type (f r) = rr_Type r"
  shows "find is_OPT (update_OPT f xs) = Some (Some (f rr))"
  using assms by (induction xs) (auto simp: is_OPT_def split: if_splits option.splits)

lemma GetOPT_find: "GetOPT (Some m) = Some rr \<longleftrightarrow> find is_OPT (m_Additionals m) = Some (Some rr)"
proof -
  have "find is_OPT (m_Additionals m) \<noteq> Some None"
    by (auto simp: find_Some_iff is_OPT_def)
  then show ?thesis
    by (auto simp: GetOPT_def split: option.splits)
qed


end
