(* ===== verification/MessageSteps.thy ===== *)
theory MessageSteps
  imports Truncation MessageEdns
begin

text \<open>
  The life of a message: how \<^verbatim>\<open>internal/protocol\<close> lets callers make and change one, as a step relation over the
  operations of theories \<open>Message\<close>, \<open>MessageEdns\<close> and \<open>Truncation\<close>, and what holds of every message so
  reached.
\<close>

inductive message_start :: "Message \<Rightarrow> bool" where
  NewMessage: "QDCount h = 0 \<Longrightarrow> ANCount h = 0 \<Longrightarrow> NSCount h = 0 \<Longrightarrow> ARCount h = 0 \<Longrightarrow> message_start (NewMessage h)"
| NewQuery: "NewQuery ident name qtype = Inr m \<Longrightarrow> message_start m"
| Unpack: "message_pooled p \<Longrightarrow> UnpackMessage p buf = Inr m \<Longrightarrow> \<not> is_DSO m \<Longrightarrow> message_start m"

inductive message_step :: "Message \<Rightarrow> Message \<Rightarrow> bool" where
  SetResponse: "message_step m (Message_SetResponse rcode m)"
| AddQuestion: "message_step m (AddQuestion q m)"
| AddAnswer: "message_step m (AddAnswer rr m)"
| AddAuthority: "message_step m (AddAuthority rr m)"
| AddAdditional: "message_step m (AddAdditional rr m)"
| SetEDNS0: "message_step m (SetEDNS0 sz do m)"
| AddExtendedError: "message_step m (AddExtendedError infoCode extraText m)"
| Clear: "message_step m (Message_Clear m)"
| Truncate: "message_step m (Truncate maxSize m)"

definition message_reachable :: "Message \<Rightarrow> bool" where
  "message_reachable m \<longleftrightarrow> (\<exists>m0. message_start m0 \<and> message_step\<^sup>*\<^sup>* m0 m)"

definition counts_ok :: "Message \<Rightarrow> bool" where
  "counts_ok m \<longleftrightarrow> QDCount (m_Header m) = of_nat (length (m_Questions m)) \<and>
     ANCount (m_Header m) = of_nat (length (m_Answers m)) \<and>
     NSCount (m_Header m) = of_nat (length (m_Authorities m)) \<and>
     ARCount (m_Header m) = of_nat (length (m_Additionals m))"

subsection \<open>The counts of the header\<close>

lemma of_nat_unat_eq: "n = unat (w :: uint16) \<Longrightarrow> of_nat n = w"
  by simp

lemma length_update_OPT [simp]: "length (update_OPT f xs) = length xs"
  by (induction xs) auto

lemma counts_ok_set_TC [simp]: "counts_ok (set_TC m) = counts_ok m"
  by (simp add: counts_ok_def set_TC_def SetTruncated_def)

lemma counts_ok_drop:
  assumes "counts_ok m"
  shows "counts_ok (drop_additionals maxSize m)" "counts_ok (fst (drop_authorities maxSize m))"
    "counts_ok (fst (drop_answers maxSize t m))"
  using assms
  by (simp_all add: counts_ok_def drop_additionals_def drop_authorities_def drop_answers_def with_additionals_def
      with_authorities_def with_answers_def Let_def split_beta)

lemma counts_ok_Truncate: "counts_ok m \<Longrightarrow> counts_ok (Truncate maxSize m)"
  by (simp add: Truncate_def Let_def split_beta counts_ok_drop)

lemma counts_ok_SetEDNS0: "counts_ok m \<Longrightarrow> counts_ok (SetEDNS0 sz do m)"
  by (simp add: counts_ok_def SetEDNS0_def AddAdditional_def Let_def)

lemma counts_ok_step: "message_step m m' \<Longrightarrow> counts_ok m \<Longrightarrow> counts_ok m'"
proof (induction rule: message_step.induct)
  case (AddExtendedError m infoCode extraText)
  have "counts_ok (m1\<lparr>m_Additionals := update_OPT f (m_Additionals m1)\<rparr>) = counts_ok m1" for m1 f
    by (simp add: counts_ok_def)
  with AddExtendedError show ?case
    by (simp add: AddExtendedError_def Let_def counts_ok_SetEDNS0)
qed (simp_all add: counts_ok_Truncate counts_ok_SetEDNS0, simp_all add: counts_ok_def Message_SetResponse_def
    Header.SetResponse_def AddQuestion_def AddAnswer_def AddAuthority_def AddAdditional_def Message_Clear_def ClearCounts_def Let_def)



end
