(* ===== verification/RaftStore.thy ===== *)
theory RaftStore
  imports Prelude
begin

text \<open>
  What a Raft node keeps on disk, \<^verbatim>\<open>internal/cluster/raft/hardstate.go\<close> and \<^verbatim>\<open>internal/cluster/raft/wal.go\<close>: the hard
  state (term and vote) and the write-ahead log.  A file is the list of its octets, a missing file \<^term>\<open>None\<close>.
  Terms and indices are the \<^verbatim>\<open>uint64\<close> of the source as natural numbers, with \<open>u64\<close> where an addition may wrap.
  The outcome of the system calls is an argument: a call succeeds, or fails and leaves the file
  as the argument says.
\<close>

unbundle bit_operations_syntax

subsection \<open>Unsigned integers on the wire\<close>

definition u64 :: "nat \<Rightarrow> nat" where "u64 n = n mod 2 ^ 64"

lemma u64_id [simp]: "n < 2 ^ 64 \<Longrightarrow> u64 n = n"
  by (simp add: u64_def)

lemma u64_less [simp]: "u64 n < 2 ^ 64"
  by (simp add: u64_def)

fun be_bytes :: "nat \<Rightarrow> nat \<Rightarrow> bytes" where
  "be_bytes 0 n = []"
| "be_bytes (Suc k) n = be_bytes k (n div 256) @ [of_nat n]"

definition be_val :: "bytes \<Rightarrow> nat" where
  "be_val bs = foldl (\<lambda>a b. a * 256 + unat b) 0 bs"

lemma length_be_bytes [simp]: "length (be_bytes k n) = k"
  by (induction k arbitrary: n) simp_all

lemma be_val_bytes: "be_val (be_bytes k n) = n mod 256 ^ k"
proof (induction k arbitrary: n)
  case (Suc k)
  have "be_val (be_bytes (Suc k) n) = be_val (be_bytes k (n div 256)) * 256 + n mod 256"
    by (simp add: be_val_def unat_of_nat take_bit_eq_mod)
  also have "\<dots> = n mod 256 ^ Suc k"
    using Suc [of "n div 256"] mod_mult2_eq [of n 256 "256 ^ k"] by simp
  finally show ?case .
qed (simp add: be_val_def)

lemma be_val_u16 [simp]: "n < 65536 \<Longrightarrow> be_val (be_bytes 2 n) = n"
  using be_val_bytes [of 2 n] by simp

lemma be_val_u32 [simp]: "n < 2 ^ 32 \<Longrightarrow> be_val (be_bytes 4 n) = n"
  using be_val_bytes [of 4 n] by simp

lemma be_val_u64 [simp]: "n < 2 ^ 64 \<Longrightarrow> be_val (be_bytes 8 n) = n"
  using be_val_bytes [of 8 n] by simp

subsection \<open>The hard state\<close>

type_synonym NodeID = bytes

record HardState =
  hs_CurrentTerm :: nat
  hs_VotedFor :: NodeID

datatype io = IoOk | IoLost | IoKept

definition hardStateMagic :: nat where "hardStateMagic = 0x52485354"
definition maxHardStateVotedForLen :: nat where "maxHardStateVotedForLen = 256"

definition writeHardState :: "HardState \<Rightarrow> bytes result" where
  "writeHardState hs =
     (let voted = hs_VotedFor hs in
      if length voted > maxHardStateVotedForLen then Inl (Errorf ''hardstate votedFor too large'')
      else Inr (be_bytes 4 hardStateMagic @ be_bytes 8 (hs_CurrentTerm hs) @ be_bytes 2 (length voted) @ voted))"

definition loadHardState :: "bytes option \<Rightarrow> HardState result" where
  "loadHardState file =
     (case file of None \<Rightarrow> Inr \<lparr>hs_CurrentTerm = 0, hs_VotedFor = []\<rparr>
      | Some f \<Rightarrow>
          if length f < 14 then Inl (Errorf ''read hardstate header'')
          else if be_val (subslice f 0 4) \<noteq> hardStateMagic then Inl (Errorf ''hardstate magic mismatch'')
          else
            let term = be_val (subslice f 4 8); votedLen = be_val (subslice f 12 2) in
            if votedLen > 0 then
              if votedLen > maxHardStateVotedForLen then Inl (Errorf ''hardstate votedFor too large'')
              else if length f < 14 + votedLen then Inl (Errorf ''read votedFor'')
              else Inr \<lparr>hs_CurrentTerm = term, hs_VotedFor = subslice f 14 votedLen\<rparr>
            else Inr \<lparr>hs_CurrentTerm = term, hs_VotedFor = []\<rparr>)"

text \<open>\<^verbatim>\<open>saveHardState\<close> writes a temporary file, flushes it and renames it over the file: the rename is atomic, so
  a failed call leaves the old file (\<^term>\<open>IoLost\<close>) or, when only the flush of the directory failed, the new one
  (\<^term>\<open>IoKept\<close>).\<close>

definition saveHardState :: "io \<Rightarrow> HardState \<Rightarrow> bytes option \<Rightarrow> bytes option \<times> unit result" where
  "saveHardState out hs file =
     (case writeHardState hs of
        Inl e \<Rightarrow> (file, Inl e)
      | Inr f \<Rightarrow>
          (case out of
             IoOk \<Rightarrow> (Some f, Inr ())
           | IoLost \<Rightarrow> (file, Inl (Errorf ''fsync hardstate''))
           | IoKept \<Rightarrow> (Some f, Inl (Errorf ''fsync hardstate dir''))))"

lemma hardstate_header:
  assumes "f = a @ b @ c @ d" "length a = 4" "length b = 8" "length c = 2"
  shows "subslice f 0 4 = a" "subslice f 4 8 = b" "subslice f 12 2 = c" "subslice f 14 (length d) = d"
  using assms by (simp_all add: subslice_def)

lemma loadHardState_written:
  assumes "writeHardState hs = Inr f" "hs_CurrentTerm hs < 2 ^ 64"
  shows "loadHardState (Some f) = Inr hs"
proof -
  have len: "length (hs_VotedFor hs) \<le> 256"
    and f: "f = be_bytes 4 hardStateMagic @ be_bytes 8 (hs_CurrentTerm hs) @ be_bytes 2 (length (hs_VotedFor hs)) @ hs_VotedFor hs"
    using assms(1) by (auto simp: writeHardState_def Let_def maxHardStateVotedForLen_def split: if_splits)
  note h = hardstate_header [OF f]
  have "length f = 14 + length (hs_VotedFor hs)"
    unfolding f by simp
  then show ?thesis
    using h len assms(2) by (simp add: loadHardState_def Let_def hardStateMagic_def maxHardStateVotedForLen_def)
qed

subsection \<open>The write-ahead log\<close>

record entry =
  e_Index :: nat
  e_Term :: nat
  e_Command :: bytes
  e_Type :: byte
  e_Commitment :: nat

definition maxWALCommandBytes :: nat where "maxWALCommandBytes = 64 * 1024 * 1024"
definition walMagic :: bytes where "walMagic = [0x52, 0x57, 0x41, 0x4C, 1, 0, 0, 0]"
definition walRecordHeaderSize :: nat where "walRecordHeaderSize = 28"

text \<open>\<^verbatim>\<open>hash/crc32\<close> with the IEEE polynomial, bit by bit instead of by table.\<close>

definition crc_bit :: "uint32 \<Rightarrow> uint32" where
  "crc_bit c = (if bit c 0 then drop_bit 1 c XOR 0xEDB88320 else drop_bit 1 c)"

definition crc_byte :: "byte \<Rightarrow> uint32 \<Rightarrow> uint32" where
  "crc_byte b c = (crc_bit ^^ 8) (c XOR ucast b)"

definition crc_Update :: "uint32 \<Rightarrow> bytes \<Rightarrow> uint32" where
  "crc_Update crc p = NOT (fold crc_byte p (NOT crc))"

definition ChecksumIEEE :: "bytes \<Rightarrow> uint32" where
  "ChecksumIEEE data = crc_Update 0 data"

definition encodeWALEntry :: "entry \<Rightarrow> bytes" where
  "encodeWALEntry e =
     (let body = be_bytes 8 (e_Index e) @ be_bytes 8 (e_Term e) @ be_bytes 8 (length (e_Command e)) @
            e_Command e @ [e_Type e]
      in be_bytes 4 (unat (ChecksumIEEE body)) @ body)"

text \<open>The loop of \<^verbatim>\<open>readAllLocked\<close> over the octets that follow the last intact record; the result is the entries
  and, when the tail is torn, the offset to cut the file at.\<close>

function read_records :: "bytes \<Rightarrow> nat \<Rightarrow> entry list \<Rightarrow> (entry list \<times> nat option) result" where
  "read_records rest goodOffset entries =
     (if rest = [] then Inr (entries, None)
      else if length rest < walRecordHeaderSize then Inr (entries, Some goodOffset)
      else
        let header = take walRecordHeaderSize rest;
            wantCRC = be_val (subslice header 0 4);
            index = be_val (subslice header 4 8); term = be_val (subslice header 12 8);
            cmdLen = be_val (subslice header 20 8)
        in if cmdLen > maxWALCommandBytes then Inl (Errorf ''raft: WAL corruption detected: impossible cmdLen'')
           else if length rest < walRecordHeaderSize + cmdLen + 1 then Inr (entries, Some goodOffset)
           else
             let body = subslice rest walRecordHeaderSize (cmdLen + 1);
                 crc = crc_Update (ChecksumIEEE (drop 4 header)) body
             in if unat crc \<noteq> wantCRC then Inl (Errorf ''raft: WAL corruption detected: CRC mismatch'')
                else read_records (drop (walRecordHeaderSize + cmdLen + 1) rest)
                       (goodOffset + walRecordHeaderSize + cmdLen + 1)
                       (entries @ [\<lparr>e_Index = index, e_Term = term, e_Command = take cmdLen body,
                                    e_Type = body ! cmdLen, e_Commitment = 0\<rparr>]))"
  by pat_completeness auto
termination
  by (relation "measure (\<lambda>(rest, goodOffset, entries). length rest)") auto

declare read_records.simps [simp del]

definition readAllLocked :: "bytes \<Rightarrow> (entry list \<times> bytes) result" where
  "readAllLocked file =
     (if file = [] then Inr ([], file)
      else if length file < length walMagic then Inl (Errorf ''read WAL magic'')
      else if take (length walMagic) file \<noteq> walMagic then Inl (Errorf ''WAL missing v1 magic'')
      else
        case read_records (drop (length walMagic) file) (length walMagic) [] of
          Inl e \<Rightarrow> Inl e
        | Inr (entries, None) \<Rightarrow> Inr (entries, file)
        | Inr (entries, Some goodOffset) \<Rightarrow> Inr (entries, take goodOffset file))"

datatype wal_io = WalOk | WalFail bytes

definition wal_file :: "entry list \<Rightarrow> bytes" where
  "wal_file es = walMagic @ concat (map encodeWALEntry es)"

definition rewriteLocked :: "wal_io \<Rightarrow> entry list \<Rightarrow> bytes \<times> unit result" where
  "rewriteLocked out kept =
     (case out of WalOk \<Rightarrow> (wal_file kept, Inr ()) | WalFail f \<Rightarrow> (f, Inl (Errorf ''rewrite WAL'')))"

definition WAL_Write :: "wal_io \<Rightarrow> entry list \<Rightarrow> bytes \<Rightarrow> bytes \<times> unit result" where
  "WAL_Write out es file =
     (case out of WalOk \<Rightarrow> (file @ concat (map encodeWALEntry es), Inr ()) | WalFail f \<Rightarrow> (f, Inl (Errorf ''wal write'')))"

definition TruncateAfter :: "wal_io \<Rightarrow> nat \<Rightarrow> bytes \<Rightarrow> bytes \<times> unit result" where
  "TruncateAfter out keepThrough file =
     (case readAllLocked file of
        Inl e \<Rightarrow> (file, Inl e)
      | Inr (all, file) \<Rightarrow> rewriteLocked out (filter (\<lambda>e. e_Index e \<le> keepThrough) all))"

definition CompactBefore :: "wal_io \<Rightarrow> nat \<Rightarrow> bytes \<Rightarrow> bytes \<times> unit result" where
  "CompactBefore out through file =
     (case readAllLocked file of
        Inl e \<Rightarrow> (file, Inl e)
      | Inr (all, file) \<Rightarrow> rewriteLocked out (filter (\<lambda>e. e_Index e > through) all))"

subsection \<open>Recovery of the log\<close>

definition entry_ok :: "entry \<Rightarrow> bool" where
  "entry_ok e \<longleftrightarrow> e_Index e < 2 ^ 64 \<and> e_Term e < 2 ^ 64 \<and> length (e_Command e) \<le> maxWALCommandBytes \<and>
     e_Commitment e = 0"

lemma crc_Update_append: "crc_Update (crc_Update c a) b = crc_Update c (a @ b)"
  by (simp add: crc_Update_def)

lemma length_encodeWALEntry: "length (encodeWALEntry e) = 29 + length (e_Command e)"
  by (simp add: encodeWALEntry_def Let_def)

lemma encodeWALEntry_nonempty [simp]: "encodeWALEntry e \<noteq> []"
  using length_encodeWALEntry [of e] by auto

lemma unat_crc [simp]: "unat (c :: uint32) < 4294967296"
  using unsigned_less [of c] by simp

text \<open>The header and the body of a record, when at least the header is there.\<close>

lemma record_header:
  assumes "28 \<le> k" "k \<le> length (encodeWALEntry e)" "rest = take k (encodeWALEntry e) \<or> rest = encodeWALEntry e @ tail"
    "entry_ok e"
  shows "be_val (subslice (take 28 rest) 0 4) = unat (ChecksumIEEE (drop 4 (encodeWALEntry e)))"
    "be_val (subslice (take 28 rest) 4 8) = e_Index e" "be_val (subslice (take 28 rest) 12 8) = e_Term e"
    "be_val (subslice (take 28 rest) 20 8) = length (e_Command e)"
proof -
  define c where "c = unat (ChecksumIEEE (drop 4 (encodeWALEntry e)))"
  have enc: "encodeWALEntry e = be_bytes 4 c @ be_bytes 8 (e_Index e) @ be_bytes 8 (e_Term e) @
      be_bytes 8 (length (e_Command e)) @ e_Command e @ [e_Type e]"
    unfolding c_def by (simp add: encodeWALEntry_def Let_def)
  have h: "take 28 rest = be_bytes 4 c @ be_bytes 8 (e_Index e) @ be_bytes 8 (e_Term e) @ be_bytes 8 (length (e_Command e))"
    using assms(1-3) by (auto simp: enc min_def)
  have "c < 2 ^ 32" "length (e_Command e) < 2 ^ 64"
    using assms(4) by (simp_all add: c_def entry_ok_def maxWALCommandBytes_def)
  then show "be_val (subslice (take 28 rest) 0 4) = c" "be_val (subslice (take 28 rest) 4 8) = e_Index e"
    "be_val (subslice (take 28 rest) 12 8) = e_Term e" "be_val (subslice (take 28 rest) 20 8) = length (e_Command e)"
    using assms(4) unfolding h by (simp_all add: subslice_def entry_ok_def)
qed

lemma read_record:
  assumes "entry_ok e"
  shows "read_records (encodeWALEntry e @ tail) off es = read_records tail (off + length (encodeWALEntry e)) (es @ [e])"
proof -
  let ?r = "encodeWALEntry e @ tail" and ?n = "length (e_Command e)"
  define c where "c = unat (ChecksumIEEE (drop 4 (encodeWALEntry e)))"
  have enc: "encodeWALEntry e = be_bytes 4 c @ be_bytes 8 (e_Index e) @ be_bytes 8 (e_Term e) @ be_bytes 8 ?n @ e_Command e @ [e_Type e]"
    unfolding c_def by (simp add: encodeWALEntry_def Let_def)
  note h = record_header [of 28 e ?r tail, OF _ _ _ assms, simplified length_encodeWALEntry, simplified]
  have b: "subslice ?r 28 (Suc ?n) = e_Command e @ [e_Type e]"
    unfolding enc by (simp add: subslice_def)
  have "drop 4 (take 28 ?r) @ subslice ?r 28 (Suc ?n) = drop 4 (encodeWALEntry e)"
    unfolding b unfolding enc by simp
  then have crc: "crc_Update (ChecksumIEEE (drop 4 (take 28 ?r))) (subslice ?r 28 (Suc ?n)) = ChecksumIEEE (drop 4 (encodeWALEntry e))"
    by (simp add: ChecksumIEEE_def crc_Update_append)
  have e: "\<lparr>e_Index = e_Index e, e_Term = e_Term e, e_Command = e_Command e, e_Type = e_Type e, e_Commitment = 0\<rparr> = e"
    using assms by (simp add: entry_ok_def)
  show ?thesis
    using h crc assms by (subst read_records.simps)
      (simp add: Let_def walRecordHeaderSize_def length_encodeWALEntry entry_ok_def b e [simplified] add_ac)
qed

lemma read_torn:
  assumes "entry_ok e" "0 < k" "k < length (encodeWALEntry e)"
  shows "read_records (take k (encodeWALEntry e)) off es = Inr (es, Some off)"
proof (cases "k < 28")
  case True
  with assms show ?thesis
    by (subst read_records.simps) (auto simp: walRecordHeaderSize_def length_encodeWALEntry)
next
  case False
  note h = record_header [of k e "take k (encodeWALEntry e)", OF _ _ _ assms(1)]
  show ?thesis
    using False assms h by (subst read_records.simps)
      (auto simp: walRecordHeaderSize_def length_encodeWALEntry Let_def entry_ok_def)
qed

definition records :: "entry list \<Rightarrow> bytes" where
  "records es = concat (map encodeWALEntry es)"

lemma records_simps [simp]: "records [] = []" "records (e # es) = encodeWALEntry e @ records es"
  "records (es @ es') = records es @ records es'"
  by (simp_all add: records_def)

lemma read_prefix:
  assumes "list_all entry_ok es" "k \<le> length (records es)"
  shows "\<exists>j \<le> length es. length (records (take j es)) \<le> k \<and>
    (j < length es \<longrightarrow> k < length (records (take (Suc j) es))) \<and>
    read_records (take k (records es)) off acc =
      Inr (acc @ take j es,
           if k = length (records (take j es)) then None else Some (off + length (records (take j es))))"
  using assms
proof (induction es arbitrary: k off acc)
  case Nil
  then show ?case
    by (simp add: read_records.simps)
next
  case (Cons e es)
  show ?case
  proof (cases "length (encodeWALEntry e) \<le> k")
    case True
    let ?k = "k - length (encodeWALEntry e)"
    have "?k \<le> length (records es)" "list_all entry_ok es"
      using Cons.prems True by simp_all
    from Cons.IH [OF this(2,1), of "off + length (encodeWALEntry e)" "acc @ [e]"] obtain j where j: "j \<le> length es" "length (records (take j es)) \<le> ?k"
      "j < length es \<longrightarrow> ?k < length (records (take (Suc j) es))"
      "read_records (take ?k (records es)) (off + length (encodeWALEntry e)) (acc @ [e]) =
        Inr ((acc @ [e]) @ take j es, if ?k = length (records (take j es)) then None
             else Some (off + length (encodeWALEntry e) + length (records (take j es))))"
      by blast
    have "take k (records (e # es)) = encodeWALEntry e @ take ?k (records es)"
      using True by simp
    with j True Cons.prems show ?thesis
      by (intro exI [of _ "Suc j"]) (auto simp: read_record)
  next
    case False
    then have t: "take k (records (e # es)) = take k (encodeWALEntry e)"
      by simp
    show ?thesis
    proof (cases "k = 0")
      case True
      then show ?thesis
        by (intro exI [of _ 0]) (simp add: read_records.simps)
    next
      case k: False
      have "read_records (take k (records (e # es))) off acc = Inr (acc, Some off)"
        unfolding t using Cons.prems False k by (intro read_torn) simp_all
      with False k show ?thesis
        by (intro exI [of _ 0]) simp
    qed
  qed
qed

lemma wal_file_records: "wal_file es = walMagic @ records es"
  by (simp add: wal_file_def records_def)

lemma readAllLocked_file:
  assumes "list_all entry_ok es"
  shows "readAllLocked (wal_file es) = Inr (es, wal_file es)"
proof -
  obtain j where j: "j \<le> length es" "j < length es \<longrightarrow> length (records es) < length (records (take (Suc j) es))"
    "read_records (records es) (length walMagic) [] = Inr (take j es,
       if length (records es) = length (records (take j es)) then None else Some (length walMagic + length (records (take j es))))"
    using read_prefix [OF assms order_refl, of "length walMagic" "[]"] by auto
  have "length (records (take (Suc j) es)) \<le> length (records es)"
    using arg_cong [OF append_take_drop_id [of "Suc j" es], of "\<lambda>xs. length (records xs)"] unfolding records_simps by simp
  with j have "j = length es"
    by linarith
  with j(3) show ?thesis
    by (simp add: readAllLocked_def wal_file_records walMagic_def)
qed

text \<open>C17: After a crash that cut the log file anywhere behind its magic number, the entries whose records were
  completely written are read back, all of them and in order, and the file is left as the log of exactly
  those entries, ready for the next append.\<close>

theorem wal_recovery:
  assumes "list_all entry_ok es" "length walMagic \<le> k" "k \<le> length (wal_file es)"
  shows "\<exists>j \<le> length es. readAllLocked (take k (wal_file es)) = Inr (take j es, wal_file (take j es)) \<and>
    length (wal_file (take j es)) \<le> k \<and> (j < length es \<longrightarrow> k < length (wal_file (take (Suc j) es)))"
proof -
  let ?k = "k - length walMagic"
  have "?k \<le> length (records es)"
    using assms(3) by (simp add: wal_file_records)
  from read_prefix [OF assms(1) this, of "length walMagic" "[]"] obtain j where j: "j \<le> length es"
    "length (records (take j es)) \<le> ?k" "j < length es \<longrightarrow> ?k < length (records (take (Suc j) es))"
    "read_records (take ?k (records es)) (length walMagic) [] =
       Inr (take j es, if ?k = length (records (take j es)) then None else Some (length walMagic + length (records (take j es))))"
    by auto
  have f: "take k (wal_file es) = walMagic @ take ?k (records es)"
    using assms(2) by (simp add: wal_file_records)
  have r: "records es = records (take j es) @ records (drop j es)"
    by (metis append_take_drop_id records_simps(3))
  have t: "take (length (records (take j es))) (take ?k (records es)) = records (take j es)"
    using j(2) by (subst r) (simp add: min_def)
  have "readAllLocked (take k (wal_file es)) = Inr (take j es, wal_file (take j es))"
  proof (cases "?k = length (records (take j es))")
    case True
    with t j(4) show ?thesis
      unfolding f by (simp add: readAllLocked_def wal_file_records walMagic_def)
  next
    case False
    with j(4) t show ?thesis
      unfolding f by (simp add: readAllLocked_def wal_file_records walMagic_def)
  qed
  with j assms(2) show ?thesis
    by (auto simp: wal_file_records)
qed

theorem wal_recovery_witness:
  "\<exists>j \<le> 1. readAllLocked (take 20 (wal_file [\<lparr>e_Index = 1, e_Term = 1, e_Command = [7], e_Type = 0, e_Commitment = 0\<rparr>])) =
     Inr (take j [\<lparr>e_Index = 1, e_Term = 1, e_Command = [7], e_Type = 0, e_Commitment = 0\<rparr>],
          wal_file (take j [\<lparr>e_Index = 1, e_Term = 1, e_Command = [7], e_Type = 0, e_Commitment = 0\<rparr>]))"
  using wal_recovery [of "[\<lparr>e_Index = 1, e_Term = 1, e_Command = [7], e_Type = 0, e_Commitment = 0\<rparr>]" 20]
  by (auto simp: entry_ok_def maxWALCommandBytes_def walMagic_def wal_file_records length_encodeWALEntry)

end
