(* ===== verification/RaftNode.thy ===== *)
theory RaftNode
  imports RaftStore
begin

text \<open>
  A Raft node, \<^verbatim>\<open>internal/cluster/raft\<close>: the struct \<^verbatim>\<open>Node\<close> of \<^verbatim>\<open>types.go\<close> with its persistent and volatile
  fields, the index helpers and transitions of \<^verbatim>\<open>state.go\<close>, the RPC handlers of \<^verbatim>\<open>handlers.go\<close> and the leader's
  side of \<^verbatim>\<open>replication.go\<close>.  A handler runs under the node's lock, so it is a function from the node to
  the node and its response.  The outcomes of the disk operations it makes are its first argument.
  Peers are their identifiers, without repetition; a missing entry of a progress map reads as 0.
  The channels that wake the run loop carry no data and are left out, as are the fields of \<^verbatim>\<open>Node\<close> that no handler
  below reads: timers, callbacks, the transport, the joint configuration and the marks of snapshots being sent.
\<close>

subsection \<open>State\<close>

datatype State = StateFollower | StateCandidate | StateLeader

record VoteRequest =
  vr_Term :: nat
  vr_CandidateID :: NodeID
  vr_LastLogIndex :: nat
  vr_LastLogTerm :: nat

record VoteResponse =
  vs_Term :: nat
  vs_VoteGranted :: bool
  vs_From :: NodeID

record AppendRequest =
  ar_Term :: nat
  ar_LeaderID :: NodeID
  ar_PrevLogIndex :: nat
  ar_PrevLogTerm :: nat
  ar_Entries :: "entry list"
  ar_LeaderCommit :: nat

record AppendResponse =
  as_Term :: nat
  as_Success :: bool
  as_From :: NodeID
  as_MatchIndex :: nat
  as_Commitment :: nat

record SnapshotRequest =
  sr_Term :: nat
  sr_LeaderID :: NodeID
  sr_Data :: bytes
  sr_LastIndex :: nat
  sr_LastTerm :: nat

record SnapshotResponse =
  ss_Term :: nat
  ss_Success :: bool

record Node =
  n_NodeID :: NodeID
  n_DataDir :: bool
  n_currentTerm :: nat
  n_votedFor :: NodeID
  n_log :: "entry list"
  n_state :: State
  n_commitIndex :: nat
  n_lastApplied :: nat
  n_lastSnapshot :: nat
  n_lastSnapshotTerm :: nat
  n_leaderID :: NodeID
  n_nextIndex :: "NodeID \<Rightarrow> nat"
  n_matchIndex :: "NodeID \<Rightarrow> nat"
  n_peers :: "NodeID list"
  n_snapshotBytes :: bytes
  n_hardState :: "bytes option"
  n_wal :: "bytes option"

text \<open>The outcomes of the disk operations a handler makes.\<close>

record disk =
  d_hardState :: io
  d_truncate :: wal_io
  d_write :: wal_io
  d_compact :: wal_io

definition NewNode :: "NodeID \<Rightarrow> bool \<Rightarrow> NodeID list \<Rightarrow> bytes option \<Rightarrow> Node" where
  "NewNode ident dataDir peers hardState =
     (let n = \<lparr>n_NodeID = ident, n_DataDir = dataDir, n_currentTerm = 0, n_votedFor = [], n_log = [],
               n_state = StateFollower, n_commitIndex = 0, n_lastApplied = 0, n_lastSnapshot = 0,
               n_lastSnapshotTerm = 0, n_leaderID = [], n_nextIndex = (\<lambda>_. 0), n_matchIndex = (\<lambda>_. 0),
               n_peers = peers, n_snapshotBytes = [], n_hardState = hardState, n_wal = None\<rparr>
      in if dataDir then
           case loadHardState hardState of
             Inl e \<Rightarrow> n
           | Inr hs \<Rightarrow> n\<lparr>n_currentTerm := hs_CurrentTerm hs, n_votedFor := hs_VotedFor hs\<rparr>
         else n)"

subsection \<open>Indices\<close>

definition lastIndex :: "Node \<Rightarrow> nat" where
  "lastIndex n = u64 (n_lastSnapshot n + length (n_log n))"

definition entryTerm :: "Node \<Rightarrow> nat \<Rightarrow> nat option" where
  "entryTerm n i =
     (if i = 0 then Some 0
      else if i = n_lastSnapshot n then Some (n_lastSnapshotTerm n)
      else if i < n_lastSnapshot n \<or> i > lastIndex n then None
      else Some (e_Term (n_log n ! (i - n_lastSnapshot n - 1))))"

definition entriesFrom :: "Node \<Rightarrow> nat \<Rightarrow> entry list" where
  "entriesFrom n from =
     (let from = (if from \<le> n_lastSnapshot n then n_lastSnapshot n + 1 else from);
          startArr = from - n_lastSnapshot n - 1
      in if startArr \<ge> length (n_log n) then [] else drop startArr (n_log n))"

definition truncateFrom :: "Node \<Rightarrow> nat \<Rightarrow> Node" where
  "truncateFrom n idx =
     (if idx \<le> n_lastSnapshot n + 1 then n\<lparr>n_log := []\<rparr>
      else
        let keep = idx - n_lastSnapshot n - 1
        in if keep < length (n_log n) then n\<lparr>n_log := take keep (n_log n)\<rparr> else n)"

definition lastLogInfo :: "Node \<Rightarrow> nat \<times> nat" where
  "lastLogInfo n = (lastIndex n, case entryTerm n (lastIndex n) of Some t \<Rightarrow> t | None \<Rightarrow> 0)"

definition isLogUpToDate :: "Node \<Rightarrow> nat \<Rightarrow> nat \<Rightarrow> bool" where
  "isLogUpToDate n candidateLastIndex candidateLastTerm =
     (let (lastIdx, lastTerm) = lastLogInfo n in
      if lastTerm \<noteq> candidateLastTerm then candidateLastTerm > lastTerm
      else candidateLastIndex \<ge> lastIdx)"

subsection \<open>Persistence and transitions\<close>

definition persistHardStateLocked :: "disk \<Rightarrow> HardState \<Rightarrow> Node \<Rightarrow> Node \<times> unit result" where
  "persistHardStateLocked d hs n =
     (if \<not> n_DataDir n then (n, Inr ())
      else
        let (file, r) = saveHardState (d_hardState d) hs (n_hardState n)
        in (n\<lparr>n_hardState := file\<rparr>, wrap_err ''raft: persisting HardState failed'' r))"

definition setVotedForLocked :: "disk \<Rightarrow> NodeID \<Rightarrow> Node \<Rightarrow> Node \<times> unit result" where
  "setVotedForLocked d v n =
     (if v = n_votedFor n then (n, Inr ())
      else
        case persistHardStateLocked d \<lparr>hs_CurrentTerm = n_currentTerm n, hs_VotedFor = v\<rparr> n of
          (n, Inl e) \<Rightarrow> (n, Inl e)
        | (n, Inr _) \<Rightarrow> (n\<lparr>n_votedFor := v\<rparr>, Inr ()))"

definition advanceTermLocked :: "disk \<Rightarrow> nat \<Rightarrow> Node \<Rightarrow> Node \<times> unit result" where
  "advanceTermLocked d t n =
     (if t \<le> n_currentTerm n then (n, Inr ())
      else
        case persistHardStateLocked d \<lparr>hs_CurrentTerm = t, hs_VotedFor = []\<rparr> n of
          (n, Inl e) \<Rightarrow> (n, Inl e)
        | (n, Inr _) \<Rightarrow> (n\<lparr>n_currentTerm := t, n_state := StateFollower, n_votedFor := []\<rparr>, Inr ()))"

text \<open>Every RPC handler first moves to the term of its request when that is newer.\<close>

definition adoptTerm :: "disk \<Rightarrow> nat \<Rightarrow> Node \<Rightarrow> Node \<times> unit result" where
  "adoptTerm d t n = (if t > n_currentTerm n then advanceTermLocked d t n else (n, Inr ()))"

definition persistEntriesLocked :: "disk \<Rightarrow> entry list \<Rightarrow> Node \<Rightarrow> Node \<times> unit result" where
  "persistEntriesLocked d entries n =
     (case n_wal n of None \<Rightarrow> (n, Inr ())
      | Some file \<Rightarrow>
          if entries = [] then (n, Inr ())
          else let (file, r) = WAL_Write (d_write d) entries file in (n\<lparr>n_wal := Some file\<rparr>, r))"

definition persistTruncateLocked :: "disk \<Rightarrow> nat \<Rightarrow> Node \<Rightarrow> Node \<times> unit result" where
  "persistTruncateLocked d keepThrough n =
     (case n_wal n of None \<Rightarrow> (n, Inr ())
      | Some file \<Rightarrow>
          let (file, r) = TruncateAfter (d_truncate d) keepThrough file
          in (n\<lparr>n_wal := Some file\<rparr>, wrap_err ''wal truncate'' r))"

definition compact_wal :: "disk \<Rightarrow> nat \<Rightarrow> Node \<Rightarrow> Node" where
  "compact_wal d through n =
     (case n_wal n of None \<Rightarrow> n
      | Some file \<Rightarrow> n\<lparr>n_wal := Some (fst (CompactBefore (d_compact d) through file))\<rparr>)"

subsection \<open>Votes\<close>

definition vote_response :: "Node \<Rightarrow> bool \<Rightarrow> VoteResponse" where
  "vote_response n granted = \<lparr>vs_Term = n_currentTerm n, vs_VoteGranted = granted, vs_From = n_NodeID n\<rparr>"

definition HandleVoteRequest :: "disk \<Rightarrow> disk \<Rightarrow> VoteRequest \<Rightarrow> Node \<Rightarrow> Node \<times> VoteResponse" where
  "HandleVoteRequest d d' req n =
     (if vr_Term req < n_currentTerm n then (n, vote_response n False)
      else
        case adoptTerm d (vr_Term req) n of
          (n, Inl e) \<Rightarrow> (n, vote_response n False)
        | (n, Inr _) \<Rightarrow>
            if (n_votedFor n = [] \<or> n_votedFor n = vr_CandidateID req) \<and>
               isLogUpToDate n (vr_LastLogIndex req) (vr_LastLogTerm req)
            then
              case setVotedForLocked d' (vr_CandidateID req) n of
                (n, Inl e) \<Rightarrow> (n, vote_response n False)
              | (n, Inr _) \<Rightarrow> (n, vote_response n True)
            else (n, vote_response n False))"

subsection \<open>Receiving entries\<close>

text \<open>The loop over the entries of a request: the first one that the log does not hold with the same term
  starts the part to append, after cutting the log where an entry conflicts.  The result is the
  node, the entries to append and, after a cut, the index to keep through.\<close>

fun reconcile :: "nat \<Rightarrow> nat \<Rightarrow> entry list \<Rightarrow> Node \<Rightarrow> Node \<times> entry list \<times> nat option" where
  "reconcile prev j [] n = (n, [], None)"
| "reconcile prev j (e # es) n =
     (let idx = u64 (prev + 1 + j) in
      if idx \<le> n_lastSnapshot n then reconcile prev (Suc j) es n
      else if idx \<le> lastIndex n then
        if (case entryTerm n idx of Some t \<Rightarrow> t | None \<Rightarrow> 0) \<noteq> e_Term e then
          let n = truncateFrom n idx
          in (n\<lparr>n_log := n_log n @ e # es\<rparr>, e # es, Some (idx - 1))
        else reconcile prev (Suc j) es n
      else (n\<lparr>n_log := n_log n @ e # es\<rparr>, e # es, None))"

definition append_response :: "Node \<Rightarrow> bool \<Rightarrow> nat \<Rightarrow> AppendResponse" where
  "append_response n success match =
     \<lparr>as_Term = n_currentTerm n, as_Success = success, as_From = n_NodeID n, as_MatchIndex = match, as_Commitment = 0\<rparr>"

text \<open>The part of \<^verbatim>\<open>appendEntriesLocked\<close> after the term is settled: the check at \<^verbatim>\<open>PrevLogIndex\<close>, the
  reconciliation of the log, its durable record, and the commit index.\<close>

definition commit_up_to :: "nat \<Rightarrow> nat \<Rightarrow> Node \<Rightarrow> Node" where
  "commit_up_to leaderCommit lastConsistent n =
     (let newCommit = min leaderCommit lastConsistent in
      if leaderCommit > n_commitIndex n \<and> newCommit > n_commitIndex n then n\<lparr>n_commitIndex := newCommit\<rparr> else n)"

definition append_checked :: "disk \<Rightarrow> AppendRequest \<Rightarrow> Node \<Rightarrow> Node \<times> AppendResponse" where
  "append_checked d req n =
     (if ar_PrevLogIndex req > lastIndex n then (n, append_response n False (lastIndex n))
      else if ar_PrevLogIndex req > n_lastSnapshot n \<and> entryTerm n (ar_PrevLogIndex req) \<noteq> Some (ar_PrevLogTerm req)
      then
        case persistTruncateLocked d (ar_PrevLogIndex req - 1) (truncateFrom n (ar_PrevLogIndex req)) of
          (n, Inl e) \<Rightarrow> (n, append_response n False 0)
        | (n, Inr _) \<Rightarrow> (n, append_response n False (ar_PrevLogIndex req - 1))
      else
        case reconcile (ar_PrevLogIndex req) 0 (ar_Entries req) n of (n, toAppend, keepThrough) \<Rightarrow>
        case (case keepThrough of None \<Rightarrow> (n, Inr ()) | Some k \<Rightarrow> persistTruncateLocked d k n) of
          (n, Inl e) \<Rightarrow> (n, append_response n False 0)
        | (n, Inr _) \<Rightarrow>
            case persistEntriesLocked d toAppend n of
              (n, Inl e) \<Rightarrow> (n, append_response n False 0)
            | (n, Inr _) \<Rightarrow>
                let lastConsistent = u64 (ar_PrevLogIndex req + length (ar_Entries req));
                    n = commit_up_to (ar_LeaderCommit req) lastConsistent n
                in (n, append_response n True lastConsistent))"

definition appendEntriesLocked :: "disk \<Rightarrow> AppendRequest \<Rightarrow> Node \<Rightarrow> Node \<times> AppendResponse" where
  "appendEntriesLocked d req n =
     (if ar_Term req < n_currentTerm n then (n, append_response n False 0)
      else
        case adoptTerm d (ar_Term req) n of
          (n, Inl e) \<Rightarrow> (n, append_response n False 0)
        | (n, Inr _) \<Rightarrow>
            append_checked d req
              (n\<lparr>n_state := StateFollower,
                 n_leaderID := if ar_LeaderID req \<noteq> [] then ar_LeaderID req else n_leaderID n\<rparr>))"

subsection \<open>Snapshots\<close>

text \<open>The state machine is behind an interface: \<open>restore data\<close> tells whether \<^verbatim>\<open>Restore\<close> accepted the data.\<close>

definition install_snapshot :: "disk \<Rightarrow> SnapshotRequest \<Rightarrow> Node \<Rightarrow> Node" where
  "install_snapshot d req n =
     compact_wal d (sr_LastIndex req)
       (n\<lparr>n_lastSnapshot := sr_LastIndex req, n_lastSnapshotTerm := sr_LastTerm req, n_lastApplied := sr_LastIndex req,
          n_commitIndex := sr_LastIndex req, n_log := [], n_snapshotBytes := sr_Data req\<rparr>)"

definition HandleSnapshotRequest ::
  "(bytes \<Rightarrow> bool) option \<Rightarrow> disk \<Rightarrow> SnapshotRequest \<Rightarrow> Node \<Rightarrow> Node \<times> SnapshotResponse"
where
  "HandleSnapshotRequest restore d req n =
     (let resp = (\<lambda>n ok. \<lparr>ss_Term = n_currentTerm n, ss_Success = ok\<rparr>) in
      if sr_Term req < n_currentTerm n then (n, resp n False)
      else
        case adoptTerm d (sr_Term req) n of
          (n, Inl e) \<Rightarrow> (n, resp n False)
        | (n, Inr _) \<Rightarrow>
            if sr_LastIndex req \<le> n_lastSnapshot n \<or> sr_LastIndex req \<le> n_commitIndex n then (n, resp n True)
            else if sr_Data req \<noteq> [] \<and> (case restore of None \<Rightarrow> False | Some f \<Rightarrow> \<not> f (sr_Data req)) then (n, resp n False)
            else let n = install_snapshot d req n in (n, resp n True))"

text \<open>The variant the run loop uses for requests from inside the process has no guard against an old snapshot.\<close>

definition handleSnapshotRequest :: "(bytes \<Rightarrow> bool) option \<Rightarrow> disk \<Rightarrow> SnapshotRequest \<Rightarrow> Node \<Rightarrow> Node" where
  "handleSnapshotRequest restore d req n =
     (if sr_Term req < n_currentTerm n then n
      else
        case adoptTerm d (sr_Term req) n of
          (n, Inl e) \<Rightarrow> n
        | (n, Inr _) \<Rightarrow>
            if sr_Data req \<noteq> [] \<and> (case restore of None \<Rightarrow> False | Some f \<Rightarrow> \<not> f (sr_Data req)) then n
            else install_snapshot d req n)"

definition installLeaderSnapshot :: "disk \<Rightarrow> nat \<Rightarrow> nat \<Rightarrow> bytes \<Rightarrow> Node \<Rightarrow> Node" where
  "installLeaderSnapshot d index term data n =
     (if index \<le> n_lastSnapshot n \<or> index > lastIndex n then n
      else
        let remove = index - n_lastSnapshot n
        in compact_wal d index
             (n\<lparr>n_log := (if remove \<ge> length (n_log n) then [] else drop remove (n_log n)),
                n_lastSnapshot := index, n_lastSnapshotTerm := term, n_snapshotBytes := data\<rparr>))"

definition snapshotAcknowledged :: "disk \<Rightarrow> NodeID \<Rightarrow> SnapshotRequest \<Rightarrow> SnapshotResponse \<Rightarrow> Node \<Rightarrow> Node" where
  "snapshotAcknowledged d peerID req resp n =
     (if ss_Term resp > n_currentTerm n then (fst (advanceTermLocked d (ss_Term resp) n))\<lparr>n_state := StateFollower\<rparr>
      else if \<not> ss_Success resp then n
      else if n_state n = StateLeader \<and> n_currentTerm n = sr_Term req then
        n\<lparr>n_matchIndex := (n_matchIndex n)(peerID := max (n_matchIndex n peerID) (sr_LastIndex req)),
          n_nextIndex := (n_nextIndex n)(peerID := max (n_nextIndex n peerID) (u64 (sr_LastIndex req + 1)))\<rparr>
      else n)"

subsection \<open>Leading\<close>

definition quorumSize :: "Node \<Rightarrow> nat" where
  "quorumSize n = (length (n_peers n) + 1) div 2 + 1"

definition replicas :: "Node \<Rightarrow> nat \<Rightarrow> nat" where
  "replicas n i = 1 + length (filter (\<lambda>p. n_matchIndex n p \<ge> i) (n_peers n))"

definition commit_candidate :: "Node \<Rightarrow> nat \<Rightarrow> bool" where
  "commit_candidate n i \<longleftrightarrow>
     i > n_lastSnapshot n \<and> entryTerm n i = Some (n_currentTerm n) \<and> replicas n i \<ge> quorumSize n"

definition maybeAdvanceCommitIndex :: "Node \<Rightarrow> Node" where
  "maybeAdvanceCommitIndex n =
     (if n_state n \<noteq> StateLeader then n
      else
        let newCommit = fold (\<lambda>i c. if commit_candidate n i then i else c)
              [u64 (n_commitIndex n + 1) ..< lastIndex n + 1] (n_commitIndex n)
        in if newCommit > n_commitIndex n then n\<lparr>n_commitIndex := newCommit\<rparr> else n)"

definition ProposeEntry :: "disk \<Rightarrow> bytes \<Rightarrow> byte \<Rightarrow> Node \<Rightarrow> Node \<times> nat result" where
  "ProposeEntry d command entryType n =
     (if n_state n \<noteq> StateLeader then (n, Inl (Errorf ''not leader''))
      else
        let e = \<lparr>e_Index = u64 (lastIndex n + 1), e_Term = n_currentTerm n, e_Command = command, e_Type = entryType,
                 e_Commitment = 0\<rparr>;
            n = n\<lparr>n_log := n_log n @ [e]\<rparr> in
        case persistEntriesLocked d [e] n of
          (n, Inl err) \<Rightarrow> (n\<lparr>n_log := butlast (n_log n)\<rparr>, Inl (Wrapf ''persist proposed entry'' err))
        | (n, Inr _) \<Rightarrow> (maybeAdvanceCommitIndex n, Inr (e_Index e)))"

definition EntryNoOp :: byte where "EntryNoOp = 1"

definition becomeLeader :: "disk \<Rightarrow> Node \<Rightarrow> Node" where
  "becomeLeader d n =
     (let n = n\<lparr>n_state := StateLeader, n_leaderID := n_NodeID n,
               n_nextIndex := (\<lambda>p. if p \<in> set (n_peers n) then u64 (lastIndex n + 1) else n_nextIndex n p),
               n_matchIndex := (\<lambda>p. if p \<in> set (n_peers n) then 0 else n_matchIndex n p)\<rparr>
      in fst (ProposeEntry d [] EntryNoOp n))"

definition becomeFollower :: "disk \<Rightarrow> nat \<Rightarrow> Node \<Rightarrow> Node" where
  "becomeFollower d term n =
     (if term > n_currentTerm n then fst (advanceTermLocked d term n) else n\<lparr>n_state := StateFollower\<rparr>)"

definition buildAppendRequestLocked :: "NodeID \<Rightarrow> nat \<Rightarrow> Node \<Rightarrow> AppendRequest option" where
  "buildAppendRequestLocked peerID term n =
     (let nextIdx = max 1 (n_nextIndex n peerID); prevLogIndex = nextIdx - 1 in
      if prevLogIndex < n_lastSnapshot n then None
      else
        case entryTerm n prevLogIndex of
          None \<Rightarrow> None
        | Some prevLogTerm \<Rightarrow>
            Some \<lparr>ar_Term = term, ar_LeaderID = n_NodeID n, ar_PrevLogIndex = prevLogIndex, ar_PrevLogTerm = prevLogTerm,
                  ar_Entries = entriesFrom n nextIdx, ar_LeaderCommit = n_commitIndex n\<rparr>)"

definition handleAppendResponse :: "disk \<Rightarrow> AppendResponse \<Rightarrow> Node \<Rightarrow> Node" where
  "handleAppendResponse d resp n =
     (if n_state n \<noteq> StateLeader then n
      else if as_Term resp > n_currentTerm n then
        (case advanceTermLocked d (as_Term resp) n of
           (n, Inl e) \<Rightarrow> n\<lparr>n_state := StateFollower\<rparr>
         | (n, Inr _) \<Rightarrow> n)
      else if as_Term resp \<noteq> n_currentTerm n then n
      else
        let p = as_From resp in
        if as_Success resp then
          let n = (if as_MatchIndex resp > n_matchIndex n p
                   then n\<lparr>n_matchIndex := (n_matchIndex n)(p := as_MatchIndex resp)\<rparr> else n);
              n = n\<lparr>n_nextIndex := (n_nextIndex n)(p := u64 (n_matchIndex n p + 1))\<rparr>
          in maybeAdvanceCommitIndex n
        else
          let hintNext = u64 (as_MatchIndex resp + 1) in
          if hintNext \<ge> 1 \<and> hintNext < n_nextIndex n p then n\<lparr>n_nextIndex := (n_nextIndex n)(p := hintNext)\<rparr>
          else if n_nextIndex n p > 1 then n\<lparr>n_nextIndex := (n_nextIndex n)(p := n_nextIndex n p - 1)\<rparr>
          else n)"

subsection \<open>Campaigning\<close>

text \<open>\<^verbatim>\<open>runCandidate\<close> keeps the term, the number of votes and the quorum in local variables: a campaign.\<close>

record campaign =
  c_term :: nat
  c_voteCount :: nat
  c_quorum :: nat

definition electionTimeout :: "disk \<Rightarrow> Node \<Rightarrow> Node" where
  "electionTimeout d n =
     (case advanceTermLocked d (u64 (n_currentTerm n + 1)) n of
        (n, Inl e) \<Rightarrow> (if n_state n = StateCandidate then n\<lparr>n_state := StateFollower\<rparr> else n)
      | (n, Inr _) \<Rightarrow> n\<lparr>n_state := StateCandidate\<rparr>)"

definition startCampaign :: "disk \<Rightarrow> disk \<Rightarrow> Node \<Rightarrow> Node \<times> campaign option" where
  "startCampaign d d' n =
     (case setVotedForLocked d (n_NodeID n) n of
        (n, Inl e) \<Rightarrow> (n\<lparr>n_state := StateFollower\<rparr>, None)
      | (n, Inr _) \<Rightarrow>
          let c = \<lparr>c_term = n_currentTerm n, c_voteCount = 1, c_quorum = quorumSize n\<rparr> in
          if c_voteCount c \<ge> c_quorum c then (becomeLeader d' n, None) else (n, Some c))"

definition campaignVote :: "disk \<Rightarrow> VoteResponse \<Rightarrow> campaign \<Rightarrow> Node \<Rightarrow> Node \<times> campaign option" where
  "campaignVote d resp c n =
     (if vs_Term resp > c_term c then (becomeFollower d (vs_Term resp) n, None)
      else if vs_VoteGranted resp then
        let c = c\<lparr>c_voteCount := c_voteCount c + 1\<rparr> in
        if c_voteCount c \<ge> c_quorum c then (becomeLeader d n, None) else (n, Some c)
      else (n, Some c))"

definition voteRequest :: "Node \<Rightarrow> VoteRequest" where
  "voteRequest n =
     \<lparr>vr_Term = n_currentTerm n, vr_CandidateID = n_NodeID n, vr_LastLogIndex = fst (lastLogInfo n),
      vr_LastLogTerm = snd (lastLogInfo n)\<rparr>"

end
