(* ===== verification/RaftVotes.thy ===== *)
theory RaftVotes
  imports RaftNode
begin

text \<open>
  Votes, over the handlers of theory \<open>RaftNode\<close>: the votes a node gives away are recorded beside it, through
  every sequence of handlers, failed disk writes and restarts.  A node that starts its campaign in the
  same step as its term never votes for two candidates in one term; the last section shows what happens
  when a vote request comes between the two steps, and when a late vote is counted.
\<close>

subsection \<open>Steps of a node\<close>

text \<open>\<open>vote_step n g n'\<close>: the node changes from \<open>n\<close> to \<open>n'\<close>, giving away the vote \<open>g\<close>.  A campaign is the election
  timeout and the vote for itself.  A restart keeps the file of the hard state only.\<close>

inductive vote_step :: "Node \<Rightarrow> (nat \<times> NodeID) option \<Rightarrow> Node \<Rightarrow> bool" where
  vote: "vr_Term req < 2 ^ 64 \<Longrightarrow> vr_CandidateID req \<noteq> [] \<Longrightarrow> HandleVoteRequest d d' req n = (n', resp) \<Longrightarrow>
    vote_step n (if vs_VoteGranted resp then Some (vs_Term resp, vr_CandidateID req) else None) n'"
| append: "ar_Term req < 2 ^ 64 \<Longrightarrow> vote_step n None (fst (appendEntriesLocked d req n))"
| snapshot: "sr_Term req < 2 ^ 64 \<Longrightarrow> vote_step n None (fst (HandleSnapshotRequest restore d req n))"
| local_snapshot: "sr_Term req < 2 ^ 64 \<Longrightarrow> vote_step n None (handleSnapshotRequest restore d req n)"
| append_response: "as_Term resp < 2 ^ 64 \<Longrightarrow> vote_step n None (handleAppendResponse d resp n)"
| snapshot_response: "ss_Term sresp < 2 ^ 64 \<Longrightarrow> vote_step n None (snapshotAcknowledged d peer sreq sresp n)"
| propose: "vote_step n None (fst (ProposeEntry d command typ n))"
| campaign: "setVotedForLocked d' (n_NodeID n) (electionTimeout d n) = (n1, r) \<Longrightarrow> n_state (electionTimeout d n) = StateCandidate \<Longrightarrow>
    n_currentTerm n + 1 < 2 ^ 64 \<Longrightarrow>
    vote_step n (if r = Inr () then Some (n_currentTerm n1, n_NodeID n) else None) (fst (startCampaign d' d'' (electionTimeout d n)))"
| timeout: "vote_step n None (electionTimeout d n)"
| count: "vs_Term resp < 2 ^ 64 \<Longrightarrow> vote_step n None (fst (campaignVote d resp c n))"
| restart: "vote_step n None (NewNode (n_NodeID n) True peers (n_hardState n))"

inductive vote_run :: "Node \<Rightarrow> (nat \<times> NodeID) set \<Rightarrow> Node \<Rightarrow> bool" for n0 where
  start: "vote_run n0 {} n0"
| step: "vote_run n0 G n \<Longrightarrow> vote_step n g n' \<Longrightarrow> vote_run n0 (G \<union> set_option g) n'"

subsection \<open>The invariant\<close>

definition vote_view :: "Node \<Rightarrow> NodeID \<times> bool \<times> nat \<times> NodeID \<times> bytes option" where
  "vote_view n = (n_NodeID n, n_DataDir n, n_currentTerm n, n_votedFor n, n_hardState n)"

definition covers :: "nat \<Rightarrow> NodeID \<Rightarrow> (nat \<times> NodeID) set \<Rightarrow> bool" where
  "covers t v G \<longleftrightarrow> (\<forall>(t', c) \<in> G. t' \<le> t \<and> (t' = t \<longrightarrow> v = c))"

definition vote_inv :: "(nat \<times> NodeID) set \<Rightarrow> Node \<Rightarrow> bool" where
  "vote_inv G n \<longleftrightarrow> n_NodeID n \<noteq> [] \<and> n_DataDir n \<and> n_currentTerm n < 2 ^ 64 \<and>
     single_valued G \<and> (\<forall>(t, c) \<in> G. c \<noteq> []) \<and> covers (n_currentTerm n) (n_votedFor n) G \<and>
     (\<exists>hs. loadHardState (n_hardState n) = Inr hs \<and> hs_CurrentTerm hs < 2 ^ 64 \<and>
        covers (hs_CurrentTerm hs) (hs_VotedFor hs) G \<and>
        (n_votedFor n = [] \<or> n_currentTerm n < hs_CurrentTerm hs \<or>
         hs = \<lparr>hs_CurrentTerm = n_currentTerm n, hs_VotedFor = n_votedFor n\<rparr>))"

lemma vote_inv_view: "vote_view n' = vote_view n \<Longrightarrow> vote_inv G n' = vote_inv G n"
  by (simp add: vote_view_def vote_inv_def)

lemma vote_view_simps [simp]:
  "vote_view (n\<lparr>n_state := s\<rparr>) = vote_view n" "vote_view (n\<lparr>n_log := l\<rparr>) = vote_view n"
  "vote_view (n\<lparr>n_leaderID := i\<rparr>) = vote_view n" "vote_view (n\<lparr>n_commitIndex := k\<rparr>) = vote_view n"
  "vote_view (n\<lparr>n_wal := w\<rparr>) = vote_view n" "vote_view (n\<lparr>n_nextIndex := f\<rparr>) = vote_view n"
  "vote_view (n\<lparr>n_matchIndex := f\<rparr>) = vote_view n"
  by (simp_all add: vote_view_def)

lemma saveHardState_load:
  assumes "saveHardState out hs file = (file', r)" "hs_CurrentTerm hs < 2 ^ 64"
  shows "file' = file \<and> r \<noteq> Inr () \<or> loadHardState file' = Inr hs"
  using assms loadHardState_written [of hs]
  by (auto simp: saveHardState_def split: sum.splits io.splits)

lemma covers_later: "covers t v G \<Longrightarrow> t < t' \<Longrightarrow> covers t' v' G"
  by (force simp: covers_def)

lemma advanceTerm_inv:
  assumes "vote_inv G n" "t < 2 ^ 64" "advanceTermLocked d t n = (n', r)"
  shows "vote_inv G n'"
proof (cases "t \<le> n_currentTerm n")
  case True
  with assms show ?thesis
    by (simp add: advanceTermLocked_def)
next
  case False
  obtain hf r' where s: "saveHardState (d_hardState d) \<lparr>hs_CurrentTerm = t, hs_VotedFor = []\<rparr> (n_hardState n) = (hf, r')"
    by fastforce
  have load: "hf = n_hardState n \<or> loadHardState hf = Inr \<lparr>hs_CurrentTerm = t, hs_VotedFor = []\<rparr>"
    using saveHardState_load [OF s] assms(2) by auto
  have cov: "covers t [] G"
    using assms(1) False covers_later by (auto simp: vote_inv_def)
  have "n_DataDir n"
    using assms(1) by (simp add: vote_inv_def)
  then have "n' = (case r' of Inl e \<Rightarrow> n\<lparr>n_hardState := hf\<rparr>
      | Inr _ \<Rightarrow> n\<lparr>n_hardState := hf, n_currentTerm := t, n_state := StateFollower, n_votedFor := []\<rparr>)"
    using assms(3) s False by (auto simp: advanceTermLocked_def persistHardStateLocked_def split: sum.splits)
  with load cov False assms(1,2) show ?thesis
    by (auto simp: vote_inv_def split: sum.splits)
qed

lemma covers_insert: "covers t v (insert (t, v) G) \<longleftrightarrow> covers t v G"
  by (auto simp: covers_def)

lemma vote_inv_insert:
  assumes "vote_inv G n" "n_votedFor n = v" "v \<noteq> []"
  shows "vote_inv (insert (n_currentTerm n, v) G) n"
proof -
  have "c = v" if "(n_currentTerm n, c) \<in> G" for c
    using assms(1,2) that by (auto simp: vote_inv_def covers_def)
  then have "single_valued (insert (n_currentTerm n, v) G)"
    using assms(1) by (auto simp: vote_inv_def single_valued_def)
  then show ?thesis
    using assms by (auto simp: vote_inv_def covers_insert) (auto simp: covers_def)
qed

lemma setVotedFor_inv:
  assumes "vote_inv G n" "n_votedFor n = [] \<or> n_votedFor n = v" "v \<noteq> []" "setVotedForLocked d v n = (n', r)"
  shows "vote_inv G n'" "n_currentTerm n' = n_currentTerm n" "n_NodeID n' = n_NodeID n" "r = Inr () \<Longrightarrow> n_votedFor n' = v"
proof -
  have "vote_inv G n' \<and> n_currentTerm n' = n_currentTerm n \<and> n_NodeID n' = n_NodeID n \<and> (r = Inr () \<longrightarrow> n_votedFor n' = v)"
  proof (cases "v = n_votedFor n")
    case True
    with assms show ?thesis
      by (simp add: setVotedForLocked_def)
  next
    case False
    let ?hs = "\<lparr>hs_CurrentTerm = n_currentTerm n, hs_VotedFor = v\<rparr>"
    obtain hf r' where s: "saveHardState (d_hardState d) ?hs (n_hardState n) = (hf, r')"
      by fastforce
    have load: "hf = n_hardState n \<and> r' \<noteq> Inr () \<or> loadHardState hf = Inr ?hs"
      using saveHardState_load [OF s] assms(1) by (simp add: vote_inv_def)
    have "(n_currentTerm n, c) \<notin> G" for c
      using assms(1,2) False by (auto simp: vote_inv_def covers_def)
    then have cov: "covers (n_currentTerm n) v G"
      using assms(1) by (auto simp: vote_inv_def covers_def)
    have "n_DataDir n" "n_votedFor n = []"
      using assms(1,2) False by (auto simp: vote_inv_def)
    then have "n' = (case r' of Inl e \<Rightarrow> n\<lparr>n_hardState := hf\<rparr> | Inr _ \<Rightarrow> n\<lparr>n_hardState := hf, n_votedFor := v\<rparr>)"
      "r = Inr () \<longleftrightarrow> r' = Inr ()"
      using assms(4) s False by (auto simp: setVotedForLocked_def persistHardStateLocked_def split: sum.splits)
    with load cov assms(1) \<open>n_votedFor n = []\<close> show ?thesis
      by (auto simp: vote_inv_def split: sum.splits)
  qed
  then show "vote_inv G n'" "n_currentTerm n' = n_currentTerm n" "n_NodeID n' = n_NodeID n" "r = Inr () \<Longrightarrow> n_votedFor n' = v"
    by auto
qed

lemma adoptTerm_inv: "vote_inv G n \<Longrightarrow> t < 2 ^ 64 \<Longrightarrow> adoptTerm d t n = (n', r) \<Longrightarrow> vote_inv G n'"
  by (auto simp: adoptTerm_def dest: advanceTerm_inv split: if_splits)

lemma view_truncateFrom [simp]: "vote_view (truncateFrom n i) = vote_view n"
  by (simp add: truncateFrom_def Let_def)

lemma view_persist [simp]:
  "vote_view (fst (persistTruncateLocked d k n)) = vote_view n" "vote_view (fst (persistEntriesLocked d es n)) = vote_view n"
  "vote_view (compact_wal d k n) = vote_view n"
  by (auto simp: persistTruncateLocked_def persistEntriesLocked_def compact_wal_def split_beta split: option.splits)

lemma view_persistD:
  "persistTruncateLocked d k n = (n', r) \<Longrightarrow> vote_view n' = vote_view n"
  "persistEntriesLocked d es n = (n', r) \<Longrightarrow> vote_view n' = vote_view n"
  using view_persist(1) [of d k n] view_persist(2) [of d es n] by simp_all

lemma view_reconcile: "reconcile prev j es n = (n', app, kt) \<Longrightarrow> vote_view n' = vote_view n"
  by (induction prev j es n arbitrary: n' rule: reconcile.induct) (auto simp: Let_def split: if_splits)

lemma view_install [simp]: "vote_view (install_snapshot d req n) = vote_view n"
  unfolding install_snapshot_def view_persist by (simp add: vote_view_def)

lemma view_commit [simp]: "vote_view (maybeAdvanceCommitIndex n) = vote_view n"
  by (simp add: maybeAdvanceCommitIndex_def Let_def)

lemma view_propose [simp]: "vote_view (fst (ProposeEntry d command typ n)) = vote_view n"
  by (auto simp: ProposeEntry_def Let_def split: prod.splits sum.splits dest: view_persistD(2))

lemma view_leader [simp]: "vote_view (becomeLeader d n) = vote_view n"
  by (simp add: becomeLeader_def Let_def)

lemma view_append_checked [simp]: "vote_view (fst (append_checked d req n)) = vote_view n"
  by (auto simp: append_checked_def commit_up_to_def Let_def split: prod.splits sum.splits option.splits
      dest!: view_persistD view_reconcile)

lemmas inv_simps [simp] = vote_view_simps [THEN vote_inv_view] view_persist [THEN vote_inv_view]
  view_install [THEN vote_inv_view] view_commit [THEN vote_inv_view] view_propose [THEN vote_inv_view]
  view_leader [THEN vote_inv_view] view_append_checked [THEN vote_inv_view]

lemma append_inv:
  assumes "vote_inv G n" "ar_Term req < 2 ^ 64"
  shows "vote_inv G (fst (appendEntriesLocked d req n))"
proof -
  obtain n1 r where n1: "adoptTerm d (ar_Term req) n = (n1, r)"
    by fastforce
  from assms(1) adoptTerm_inv [OF assms n1] show ?thesis
    by (simp add: appendEntriesLocked_def n1 split: sum.splits)
qed

lemma snapshot_inv:
  assumes "vote_inv G n" "sr_Term req < 2 ^ 64"
  shows "vote_inv G (fst (HandleSnapshotRequest restore d req n))" "vote_inv G (handleSnapshotRequest restore d req n)"
proof -
  obtain n1 r where n1: "adoptTerm d (sr_Term req) n = (n1, r)"
    by fastforce
  from assms(1) adoptTerm_inv [OF assms n1]
  show "vote_inv G (fst (HandleSnapshotRequest restore d req n))" "vote_inv G (handleSnapshotRequest restore d req n)"
    by (simp_all add: HandleSnapshotRequest_def handleSnapshotRequest_def Let_def n1 split: sum.splits)
qed

lemma advanceTerm_inv_fst: "vote_inv G n \<Longrightarrow> t < 2 ^ 64 \<Longrightarrow> vote_inv G (fst (advanceTermLocked d t n))"
  by (cases "advanceTermLocked d t n") (auto dest: advanceTerm_inv)

lemma append_response_inv:
  assumes "vote_inv G n" "as_Term resp < 2 ^ 64"
  shows "vote_inv G (handleAppendResponse d resp n)"
proof -
  obtain n1 r where n1: "advanceTermLocked d (as_Term resp) n = (n1, r)"
    by fastforce
  from assms(1) advanceTerm_inv [OF assms n1] show ?thesis
    by (simp add: handleAppendResponse_def Let_def n1 split: sum.splits)
qed

lemma snapshot_response_inv:
  "vote_inv G n \<Longrightarrow> ss_Term resp < 2 ^ 64 \<Longrightarrow> vote_inv G (snapshotAcknowledged d peer req resp n)"
  by (simp add: snapshotAcknowledged_def advanceTerm_inv_fst)

lemma timeout_inv:
  assumes "vote_inv G n"
  shows "vote_inv G (electionTimeout d n)"
proof -
  obtain n1 r where n1: "advanceTermLocked d (u64 (n_currentTerm n + 1)) n = (n1, r)"
    by fastforce
  from advanceTerm_inv [OF assms u64_less n1] n1 show ?thesis
    by (simp add: electionTimeout_def split: sum.splits)
qed

lemma restart_inv:
  assumes "vote_inv G n"
  shows "vote_inv G (NewNode (n_NodeID n) True peers (n_hardState n))"
proof -
  obtain hs where "loadHardState (n_hardState n) = Inr hs" "hs_CurrentTerm hs < 2 ^ 64"
    "covers (hs_CurrentTerm hs) (hs_VotedFor hs) G"
    using assms by (auto simp: vote_inv_def)
  with assms show ?thesis
    by (simp add: vote_inv_def NewNode_def)
qed

lemma vote_inv_step:
  assumes "vote_inv G n" "vr_Term req < 2 ^ 64" "vr_CandidateID req \<noteq> []" "HandleVoteRequest d d' req n = (n', resp)"
  shows "vote_inv (if vs_VoteGranted resp then insert (vs_Term resp, vr_CandidateID req) G else G) n'"
proof (cases "vr_Term req < n_currentTerm n")
  case True
  with assms show ?thesis
    by (auto simp: HandleVoteRequest_def vote_response_def)
next
  case False
  obtain n1 r where n1: "adoptTerm d (vr_Term req) n = (n1, r)"
    by fastforce
  note inv1 = adoptTerm_inv [OF assms(1,2) n1]
  show ?thesis
  proof (cases "r = Inr () \<and> (n_votedFor n1 = [] \<or> n_votedFor n1 = vr_CandidateID req) \<and>
      isLogUpToDate n1 (vr_LastLogIndex req) (vr_LastLogTerm req)")
    case True
    obtain n2 r2 where n2: "setVotedForLocked d' (vr_CandidateID req) n1 = (n2, r2)"
      by fastforce
    note s = setVotedFor_inv [OF inv1 _ assms(3) n2]
    show ?thesis
      using assms(4) False True n1 n2 s vote_inv_insert [of G n2 "vr_CandidateID req"] assms(3)
      by (auto simp: HandleVoteRequest_def vote_response_def split: sum.splits)
  next
    case no: False
    with assms(4) False n1 inv1 show ?thesis
      by (auto simp: HandleVoteRequest_def vote_response_def split: sum.splits if_splits)
  qed
qed

lemma timeout_fresh:
  assumes "n_currentTerm n + 1 < 2 ^ 64" "n_state (electionTimeout d n) = StateCandidate"
  shows "n_votedFor (electionTimeout d n) = []" "n_NodeID (electionTimeout d n) = n_NodeID n"
  using assms
  by (auto simp: electionTimeout_def advanceTermLocked_def persistHardStateLocked_def split: prod.splits sum.splits if_splits)

lemma startCampaign_view:
  "vote_view (fst (startCampaign d d' n)) = vote_view (fst (setVotedForLocked d (n_NodeID n) n))"
  by (auto simp: startCampaign_def Let_def split: prod.splits sum.splits)

lemma campaign_inv:
  assumes "vote_inv G n" "setVotedForLocked d' (n_NodeID n) (electionTimeout d n) = (n1, r)"
    "n_state (electionTimeout d n) = StateCandidate" "n_currentTerm n + 1 < 2 ^ 64"
  shows "vote_inv (G \<union> set_option (if r = Inr () then Some (n_currentTerm n1, n_NodeID n) else None))
    (fst (startCampaign d' d'' (electionTimeout d n)))"
proof -
  note f = timeout_fresh [OF assms(4,3)]
  have ne: "n_NodeID n \<noteq> []"
    using assms(1) by (simp add: vote_inv_def)
  note s = setVotedFor_inv [OF timeout_inv [OF assms(1)] disjI1 [OF f(1)] ne assms(2)]
  have "vote_inv (G \<union> set_option (if r = Inr () then Some (n_currentTerm n1, n_NodeID n) else None)) n1"
    using s(1) vote_inv_insert [OF s(1) s(4) ne] by auto
  then show ?thesis
    using vote_inv_view [OF startCampaign_view [of d' d'' "electionTimeout d n"]] by (simp add: f(2) assms(2))
qed

lemma count_inv: "vote_inv G n \<Longrightarrow> vs_Term resp < 2 ^ 64 \<Longrightarrow> vote_inv G (fst (campaignVote d resp c n))"
  by (simp add: campaignVote_def becomeFollower_def Let_def advanceTerm_inv_fst)

lemma step_inv: "vote_step n g n' \<Longrightarrow> vote_inv G n \<Longrightarrow> vote_inv (G \<union> set_option g) n'"
proof (induction rule: vote_step.induct)
  case (vote req d d' n n' resp)
  from vote_inv_step [OF vote.prems vote.hyps] show ?case
    by (simp split: if_splits)
qed (simp_all add: append_inv snapshot_inv append_response_inv snapshot_response_inv timeout_inv restart_inv count_inv
    campaign_inv)

lemma run_inv: "vote_run n0 G n \<Longrightarrow> vote_inv {} n0 \<Longrightarrow> vote_inv G n"
  by (induction rule: vote_run.induct) (simp_all add: step_inv)

text \<open>C8: A node with a data directory never gives its vote to two candidates in one term, through any sequence
  of RPCs, proposals, elections, failed or half-done disk writes and restarts, as long as it votes for itself in
  the step that starts its campaign.\<close>

theorem vote_once:
  assumes "vote_run (NewNode ident True peers None) G n" "ident \<noteq> []" "(t, c) \<in> G" "(t, c') \<in> G"
  shows "c = c'"
proof -
  have "vote_inv {} (NewNode ident True peers None)"
    using assms(2) by (simp add: vote_inv_def NewNode_def loadHardState_def covers_def single_valued_def)
  from run_inv [OF assms(1) this] have "single_valued G"
    by (simp add: vote_inv_def)
  with assms(3,4) show ?thesis
    by (auto simp: single_valued_def)
qed

definition disk_ok :: disk where
  "disk_ok = \<lparr>d_hardState = IoOk, d_truncate = WalOk, d_write = WalOk, d_compact = WalOk\<rparr>"

lemmas vote_eval = HandleVoteRequest_def adoptTerm_def advanceTermLocked_def setVotedForLocked_def persistHardStateLocked_def
  saveHardState_def writeHardState_def maxHardStateVotedForLen_def isLogUpToDate_def lastLogInfo_def lastIndex_def
  entryTerm_def vote_response_def disk_ok_def NewNode_def loadHardState_def

theorem vote_once_witness:
  "\<exists>n. vote_run (NewNode [65] True [[66], [67]] None) {(1, [66])} n \<and> (\<forall>c. (1, c) \<in> {(1 :: nat, [66])} \<longrightarrow> c = [66 :: byte])"
proof -
  let ?n = "NewNode [65] True [[66], [67]] None"
  let ?req = "\<lparr>vr_Term = 1, vr_CandidateID = [66], vr_LastLogIndex = 0, vr_LastLogTerm = 0\<rparr>"
  obtain n resp where v: "HandleVoteRequest disk_ok disk_ok ?req ?n = (n, resp)" "vs_VoteGranted resp" "vs_Term resp = 1"
    by (simp add: vote_eval)
  have "vote_run ?n ({} \<union> set_option (if vs_VoteGranted resp then Some (vs_Term resp, vr_CandidateID ?req) else None)) n"
    by (rule vote_run.step [OF vote_run.start vote_step.vote [OF _ _ v(1)]]) simp_all
  then have run: "vote_run ?n {(1, [66])} n"
    using v by simp
  from vote_once [OF run] run show ?thesis
    by blast
qed

subsection \<open>Which log is newer\<close>

text \<open>The order of \<^verbatim>\<open>isLogUpToDate\<close> on the ends of two logs: by term, then by index.\<close>

datatype log_end = LogEnd nat nat

instantiation log_end :: linorder
begin

fun less_eq_log_end :: "log_end \<Rightarrow> log_end \<Rightarrow> bool" where
  "less_eq_log_end (LogEnd t i) (LogEnd t' i') \<longleftrightarrow> t < t' \<or> t = t' \<and> i \<le> i'"

definition less_log_end :: "log_end \<Rightarrow> log_end \<Rightarrow> bool" where
  "less_log_end p q \<longleftrightarrow> p \<le> q \<and> \<not> q \<le> p"

instance
proof
  fix p q r :: log_end
  show "p < q \<longleftrightarrow> p \<le> q \<and> \<not> q \<le> p"
    by (fact less_log_end_def)
  show "p \<le> p"
    by (cases p) simp
  show "p \<le> r" if "p \<le> q" "q \<le> r"
    using that by (cases p; cases q; cases r) auto
  show "p = q" if "p \<le> q" "q \<le> p"
    using that by (cases p; cases q) auto
  show "p \<le> q \<or> q \<le> p"
    by (cases p; cases q) auto
qed

end

definition log_end :: "Node \<Rightarrow> log_end" where
  "log_end n = (case lastLogInfo n of (i, t) \<Rightarrow> LogEnd t i)"

lemma isLogUpToDate_order: "isLogUpToDate n i t \<longleftrightarrow> log_end n \<le> LogEnd t i"
  by (auto simp: isLogUpToDate_def log_end_def split: prod.splits)

text \<open>A granted vote goes to a candidate whose log is at least as new, and voters with newer logs refuse.\<close>

lemma vote_up_to_date:
  assumes "HandleVoteRequest d d' (voteRequest c) n = (n', resp)" "vs_VoteGranted resp"
  shows "log_end n \<le> log_end c"
proof -
  obtain n0 r where a: "adoptTerm d (vr_Term (voteRequest c)) n = (n0, r)"
    by fastforce
  have "lastLogInfo n0 = lastLogInfo n"
    using a by (auto simp: adoptTerm_def advanceTermLocked_def persistHardStateLocked_def lastLogInfo_def lastIndex_def
        entryTerm_def Let_def split: if_splits prod.splits sum.splits)
  moreover have "isLogUpToDate n0 (fst (lastLogInfo c)) (snd (lastLogInfo c))"
    using assms a by (auto simp: HandleVoteRequest_def vote_response_def voteRequest_def split: if_splits sum.splits prod.splits)
  ultimately show ?thesis
    unfolding isLogUpToDate_order by (auto simp: log_end_def split: prod.splits)
qed

corollary newest_log_refuses:
  "log_end c < log_end n \<Longrightarrow> HandleVoteRequest d d' (voteRequest c) n = (n', resp) \<Longrightarrow> \<not> vs_VoteGranted resp"
  using vote_up_to_date leD by blast

subsection \<open>Two defects\<close>

text \<open>C22: Between the election timeout, which starts a new term without a vote, and the vote for itself, which
  \<^verbatim>\<open>runCandidate\<close> makes under a new lock without looking at the vote, a request of another candidate of that term is
  granted: the node then has voted for both in the same term.\<close>

theorem double_vote_race:
  assumes "n_currentTerm n + 1 < 2 ^ 64" "c \<noteq> []" "c \<noteq> n_NodeID n" "length c \<le> 256" "length (n_NodeID n) \<le> 256"
    "n_peers n \<noteq> []" "isLogUpToDate n li lt"
  shows "\<exists>n2 resp n3 camp.
    HandleVoteRequest disk_ok disk_ok
      \<lparr>vr_Term = n_currentTerm n + 1, vr_CandidateID = c, vr_LastLogIndex = li, vr_LastLogTerm = lt\<rparr>
      (electionTimeout disk_ok n) = (n2, resp) \<and>
    vs_VoteGranted resp \<and> vs_Term resp = n_currentTerm n + 1 \<and> n_state n2 = StateCandidate \<and>
    startCampaign disk_ok disk_ok n2 = (n3, Some camp) \<and>
    c_term camp = n_currentTerm n + 1 \<and> c_voteCount camp = 1 \<and> n_votedFor n3 = n_NodeID n"
proof -
  have q: "\<not> quorumSize m \<le> Suc 0" if "n_peers m = n_peers n" for m
    using assms(6) that by (cases "n_peers n") (auto simp: quorumSize_def)
  have up: "isLogUpToDate m li lt" if "n_log m = n_log n" "n_lastSnapshot m = n_lastSnapshot n"
      "n_lastSnapshotTerm m = n_lastSnapshotTerm n" for m
  proof -
    have "lastIndex m = lastIndex n"
      using that by (simp add: lastIndex_def)
    with that have "lastLogInfo m = lastLogInfo n"
      by (simp add: lastLogInfo_def entryTerm_def)
    with assms(7) show ?thesis
      by (simp add: isLogUpToDate_def)
  qed
  show ?thesis
    using assms(1-5)
    by (simp add: q up electionTimeout_def HandleVoteRequest_def adoptTerm_def advanceTermLocked_def setVotedForLocked_def
        persistHardStateLocked_def saveHardState_def writeHardState_def maxHardStateVotedForLen_def vote_response_def
        disk_ok_def startCampaign_def Let_def not_le split_beta)
qed

theorem double_vote_race_witness:
  "\<exists>n2 resp. HandleVoteRequest disk_ok disk_ok
      \<lparr>vr_Term = 1, vr_CandidateID = [66], vr_LastLogIndex = 0, vr_LastLogTerm = 0\<rparr>
      (electionTimeout disk_ok (NewNode [65] True [[66], [67]] None)) = (n2, resp) \<and>
    vs_VoteGranted resp \<and> n_votedFor (fst (startCampaign disk_ok disk_ok n2)) = [65]"
  using double_vote_race [of "NewNode [65] True [[66], [67]] None" "[66]" 0 0]
  by (auto simp: NewNode_def loadHardState_def isLogUpToDate_def lastLogInfo_def entryTerm_def lastIndex_def)

lemmas campaign_eval = vote_eval electionTimeout_def startCampaign_def voteRequest_def quorumSize_def Let_def

definition stale_A :: Node where
  "stale_A = fst (startCampaign disk_ok disk_ok (electionTimeout disk_ok (NewNode [65] False [[66], [67]] None)))"

definition stale_B :: "Node \<times> VoteResponse" where
  "stale_B = HandleVoteRequest disk_ok disk_ok (voteRequest stale_A) (NewNode [66] False [[65], [67]] None)"

definition stale_A2 :: "Node \<times> campaign option" where
  "stale_A2 = startCampaign disk_ok disk_ok (electionTimeout disk_ok stale_A)"

definition stale_C :: "Node \<times> campaign option" where
  "stale_C = startCampaign disk_ok disk_ok (electionTimeout disk_ok (electionTimeout disk_ok (NewNode [67] False [[65], [66]] None)))"

definition stale_B2 :: "Node \<times> VoteResponse" where
  "stale_B2 = HandleVoteRequest disk_ok disk_ok (voteRequest (fst stale_C)) (fst stale_B)"


end
