(* ===== verification/RaftLog.thy ===== *)
theory RaftLog
  imports RaftVotes
begin

text \<open>
  The replicated log, over the handlers of theory \<open>RaftNode\<close>: what a follower's log is after an accepted
  request, that an acknowledged entry is on disk, and what a retry after a failed write acknowledges.
\<close>

subsection \<open>Reconciling a log\<close>

definition log_fits :: "Node \<Rightarrow> bool" where
  "log_fits n \<longleftrightarrow> n_lastSnapshot n + length (n_log n) < 2 ^ 64"

lemma lastIndex_fits: "log_fits n \<Longrightarrow> lastIndex n = n_lastSnapshot n + length (n_log n)"
  by (simp add: log_fits_def lastIndex_def)

lemma entryTerm_log:
  assumes "log_fits n" "n_lastSnapshot n < i"
  shows "entryTerm n i =
    (if i \<le> n_lastSnapshot n + length (n_log n) then Some (e_Term (n_log n ! (i - n_lastSnapshot n - 1))) else None)"
  using assms by (simp add: entryTerm_def lastIndex_fits)

lemma truncateFrom_take:
  assumes "n_lastSnapshot n < i"
  shows "truncateFrom n i = n\<lparr>n_log := take (i - n_lastSnapshot n - 1) (n_log n)\<rparr>"
  using assms by (auto simp: truncateFrom_def Let_def)

text \<open>The first entry of a request from which the log differs from it.\<close>

definition agrees :: "Node \<Rightarrow> nat \<Rightarrow> entry list \<Rightarrow> nat \<Rightarrow> bool" where
  "agrees n i es k \<longleftrightarrow> (\<forall>l < k. n_lastSnapshot n < i + l \<longrightarrow> entryTerm n (i + l) = Some (e_Term (es ! l)))"

definition reconciled :: "Node \<Rightarrow> nat \<Rightarrow> entry list \<Rightarrow> nat \<Rightarrow> entry list" where
  "reconciled n i es k = (if k = length es then n_log n else take (i + k - n_lastSnapshot n - 1) (n_log n) @ drop k es)"

lemma agrees_Suc:
  "agrees n i (e # es) (Suc k) \<longleftrightarrow> (n_lastSnapshot n < i \<longrightarrow> entryTerm n i = Some (e_Term e)) \<and> agrees n (Suc i) es k"
  unfolding agrees_def by (auto simp: less_Suc_eq_0_disj)

lemma reconcile_spec:
  assumes "log_fits n" "prev + j \<le> lastIndex n" "prev + j + length es < 2 ^ 64"
  shows "\<exists>k \<le> length es. agrees n (prev + j + 1) es k \<and>
    (k < length es \<longrightarrow> n_lastSnapshot n < prev + j + 1 + k \<and> entryTerm n (prev + j + 1 + k) \<noteq> Some (e_Term (es ! k)) \<and>
       prev + j + k \<le> lastIndex n) \<and>
    reconcile prev j es n =
      (n\<lparr>n_log := reconciled n (prev + j + 1) es k\<rparr>, drop k es,
       if k < length es \<and> prev + j + 1 + k \<le> lastIndex n then Some (prev + j + k) else None)"
  using assms(2,3)
proof (induction es arbitrary: j)
  case Nil
  then show ?case
    by (simp add: agrees_def reconciled_def)
next
  case (Cons e es)
  let ?i = "prev + j + 1"
  have idx: "u64 (prev + 1 + j) = ?i"
    using Cons.prems by (simp add: add_ac)
  show ?case
  proof (cases "n_lastSnapshot n < ?i \<longrightarrow> entryTerm n ?i = Some (e_Term e)")
    case True
    then have le: "?i \<le> lastIndex n"
      using assms(1) Cons.prems by (cases "n_lastSnapshot n < ?i") (auto simp: entryTerm_log lastIndex_fits split: if_splits)
    with Cons.IH [of "Suc j"] Cons.prems obtain k where k: "k \<le> length es" "agrees n (?i + 1) es k"
      "k < length es \<longrightarrow> n_lastSnapshot n < ?i + 1 + k \<and> entryTerm n (?i + 1 + k) \<noteq> Some (e_Term (es ! k)) \<and> ?i + k \<le> lastIndex n"
      "reconcile prev (Suc j) es n = (n\<lparr>n_log := reconciled n (?i + 1) es k\<rparr>, drop k es,
         if k < length es \<and> ?i + 1 + k \<le> lastIndex n then Some (?i + k) else None)"
      by auto
    have "reconcile prev j (e # es) n = reconcile prev (Suc j) es n"
      using True le idx by (auto simp: Let_def)
    with k True show ?thesis
      by (intro exI [of _ "Suc k"]) (simp add: agrees_Suc reconciled_def)
  next
    case False
    then have s: "n_lastSnapshot n < ?i" "entryTerm n ?i \<noteq> Some (e_Term e)"
      by simp_all
    have "reconcile prev j (e # es) n = (n\<lparr>n_log := reconciled n ?i (e # es) 0\<rparr>, e # es, if ?i \<le> lastIndex n then Some (prev + j) else None)"
    proof (cases "?i \<le> lastIndex n")
      case True
      then have "(case entryTerm n ?i of Some t \<Rightarrow> t | None \<Rightarrow> 0) \<noteq> e_Term e"
        using s assms(1) by (auto simp: entryTerm_log lastIndex_fits)
      with True s idx show ?thesis
        by (simp add: Let_def truncateFrom_take reconciled_def)
    next
      case False
      with s idx assms(1) show ?thesis
        by (simp add: Let_def reconciled_def lastIndex_fits)
    qed
    with s Cons.prems show ?thesis
      by (intro exI [of _ 0]) (simp add: agrees_def)
  qed
qed

lemma reconciled_fits:
  assumes "log_fits n" "k \<le> length es" "k < length es \<longrightarrow> n_lastSnapshot n < i + k" "i + length es \<le> 2 ^ 64" "0 < i"
  shows "n_lastSnapshot n + length (reconciled n i es k) < 2 ^ 64"
  using assms by (auto simp: reconciled_def log_fits_def min_def)

subsection \<open>Accepted requests\<close>

text \<open>What the term, the role and the known leader do not touch.\<close>

definition log_view :: "Node \<Rightarrow> entry list \<times> nat \<times> nat \<times> nat \<times> bytes option \<times> NodeID" where
  "log_view n = (n_log n, n_lastSnapshot n, n_lastSnapshotTerm n, n_commitIndex n, n_wal n, n_NodeID n)"

lemma log_viewD:
  assumes "log_view m = log_view n"
  shows "n_log m = n_log n" "n_lastSnapshot m = n_lastSnapshot n" "n_lastSnapshotTerm m = n_lastSnapshotTerm n"
    "n_commitIndex m = n_commitIndex n" "n_wal m = n_wal n" "n_NodeID m = n_NodeID n"
    "lastIndex m = lastIndex n" "entryTerm m i = entryTerm n i" "log_fits m = log_fits n"
    "agrees m i es k = agrees n i es k" "reconciled m i es k = reconciled n i es k"
  using assms by (auto simp: log_view_def lastIndex_def entryTerm_def log_fits_def agrees_def reconciled_def)

lemma adoptTerm_view:
  assumes "adoptTerm d t n = (n', r)"
  shows "log_view n' = log_view n" "r = Inr () \<Longrightarrow> n_currentTerm n' = max t (n_currentTerm n)"
  using assms
  by (auto simp: adoptTerm_def advanceTermLocked_def persistHardStateLocked_def log_view_def Let_def
      split: if_splits prod.splits sum.splits)

text \<open>The log file after an accepted request: cut where the log was cut, and extended as the log was.\<close>

definition wal_accepted :: "disk \<Rightarrow> nat option \<Rightarrow> entry list \<Rightarrow> bytes option \<Rightarrow> bytes option \<Rightarrow> bool" where
  "wal_accepted d keep es w w' \<longleftrightarrow>
     (case w of None \<Rightarrow> w' = None
      | Some f \<Rightarrow> \<exists>f'. w' = Some (f' @ concat (map encodeWALEntry es)) \<and>
          (case keep of None \<Rightarrow> f' = f | Some k \<Rightarrow> TruncateAfter (d_truncate d) k f = (f', Inr ())))"

lemma persist_accepted:
  assumes "(case keep of None \<Rightarrow> (n, Inr ()) | Some k \<Rightarrow> persistTruncateLocked d k n) = (n1, Inr u)"
    "persistEntriesLocked d es n1 = (n2, Inr v)"
  obtains w where "n2 = n\<lparr>n_wal := w\<rparr>" "wal_accepted d keep es (n_wal n) w"
proof -
  have "n2 = n\<lparr>n_wal := n_wal n2\<rparr> \<and> wal_accepted d keep es (n_wal n) (n_wal n2)"
    using assms
    by (auto simp: persistTruncateLocked_def persistEntriesLocked_def wal_accepted_def WAL_Write_def Let_def
        split: option.splits prod.splits if_splits wal_io.splits)
  then show ?thesis
    using that by blast
qed

text \<open>The node that checks a request of its own or a later term, and the part of the check after the entry at
  \<^verbatim>\<open>PrevLogIndex\<close> is found to match.\<close>

definition following :: "AppendRequest \<Rightarrow> Node \<Rightarrow> Node" where
  "following req n = n\<lparr>n_state := StateFollower, n_leaderID := if ar_LeaderID req \<noteq> [] then ar_LeaderID req else n_leaderID n\<rparr>"

definition append_matching :: "disk \<Rightarrow> AppendRequest \<Rightarrow> Node \<Rightarrow> Node \<times> AppendResponse" where
  "append_matching d req n =
     (case reconcile (ar_PrevLogIndex req) 0 (ar_Entries req) n of (n, toAppend, keepThrough) \<Rightarrow>
      case (case keepThrough of None \<Rightarrow> (n, Inr ()) | Some k \<Rightarrow> persistTruncateLocked d k n) of
        (n, Inl e) \<Rightarrow> (n, append_response n False 0)
      | (n, Inr _) \<Rightarrow>
          case persistEntriesLocked d toAppend n of
            (n, Inl e) \<Rightarrow> (n, append_response n False 0)
          | (n, Inr _) \<Rightarrow>
              let n = commit_up_to (ar_LeaderCommit req) (ar_PrevLogIndex req + length (ar_Entries req)) n
              in (n, append_response n True (ar_PrevLogIndex req + length (ar_Entries req))))"

lemma following_view [simp]: "log_view (following req n) = log_view n"
  by (simp add: following_def log_view_def)

lemma following_simps [simp]:
  "n_state (following req n) = StateFollower" "n_currentTerm (following req n) = n_currentTerm n"
  by (simp_all add: following_def)

lemma appendEntriesLocked_adopted:
  assumes "n_currentTerm n \<le> ar_Term req" "adoptTerm d (ar_Term req) n = (n0, Inr u)"
  shows "appendEntriesLocked d req n = append_checked d req (following req n0)"
  using assms by (simp add: appendEntriesLocked_def following_def)

lemma append_checked_matching:
  assumes "ar_PrevLogIndex req \<le> lastIndex n"
    "n_lastSnapshot n < ar_PrevLogIndex req \<longrightarrow> entryTerm n (ar_PrevLogIndex req) = Some (ar_PrevLogTerm req)"
    "ar_PrevLogIndex req + length (ar_Entries req) < 2 ^ 64"
  shows "append_checked d req n = append_matching d req n"
  using assms by (auto simp: append_checked_def append_matching_def Let_def)

lemma append_accepted:
  assumes "appendEntriesLocked d req n = (n', resp)" "as_Success resp" "log_fits n"
    "ar_PrevLogIndex req + length (ar_Entries req) < 2 ^ 64"
  obtains m k w where "log_view m = log_view n" "n_state m = StateFollower" "n_currentTerm m = ar_Term req"
    "ar_PrevLogIndex req \<le> lastIndex n"
    "n_lastSnapshot n < ar_PrevLogIndex req \<longrightarrow> entryTerm n (ar_PrevLogIndex req) = Some (ar_PrevLogTerm req)"
    "k \<le> length (ar_Entries req)" "agrees n (ar_PrevLogIndex req + 1) (ar_Entries req) k"
    "k < length (ar_Entries req) \<longrightarrow> n_lastSnapshot n < ar_PrevLogIndex req + 1 + k \<and>
       entryTerm n (ar_PrevLogIndex req + 1 + k) \<noteq> Some (e_Term (ar_Entries req ! k)) \<and> ar_PrevLogIndex req + k \<le> lastIndex n"
    "wal_accepted d (if k < length (ar_Entries req) \<and> ar_PrevLogIndex req + 1 + k \<le> lastIndex n
       then Some (ar_PrevLogIndex req + k) else None) (drop k (ar_Entries req)) (n_wal n) w"
    "n' = commit_up_to (ar_LeaderCommit req) (ar_PrevLogIndex req + length (ar_Entries req))
       (m\<lparr>n_log := reconciled n (ar_PrevLogIndex req + 1) (ar_Entries req) k, n_wal := w\<rparr>)"
    "as_MatchIndex resp = ar_PrevLogIndex req + length (ar_Entries req)"
    "as_From resp = n_NodeID n" "as_Term resp = ar_Term req"
proof -
  let ?p = "ar_PrevLogIndex req" and ?es = "ar_Entries req"
  obtain n0 r where adopt: "adoptTerm d (ar_Term req) n = (n0, r)"
    by fastforce
  with assms(1,2) have r: "r = Inr ()" and le: "n_currentTerm n \<le> ar_Term req"
    by (auto simp: appendEntriesLocked_def append_response_def split: if_splits sum.splits)
  define m where "m = following req n0"
  have v: "log_view m = log_view n" and t: "n_state m = StateFollower" "n_currentTerm m = ar_Term req"
    using adoptTerm_view [OF adopt] r le by (simp_all add: m_def)
  note view = log_viewD [OF v]
  have chk: "append_checked d req m = (n', resp)"
    using assms(1) appendEntriesLocked_adopted [OF le adopt [unfolded r]] by (simp add: m_def)
  with assms(2) have p: "?p \<le> lastIndex m" "n_lastSnapshot m < ?p \<longrightarrow> entryTerm m ?p = Some (ar_PrevLogTerm req)"
    by (auto simp: append_checked_def append_response_def split: if_splits prod.splits sum.splits)
  from reconcile_spec [of m ?p 0 ?es] assms(3,4) p(1) view obtain k where k: "k \<le> length ?es" "agrees m (?p + 1) ?es k"
    "k < length ?es \<longrightarrow> n_lastSnapshot m < ?p + 1 + k \<and> entryTerm m (?p + 1 + k) \<noteq> Some (e_Term (?es ! k)) \<and> ?p + k \<le> lastIndex m"
    "reconcile ?p 0 ?es m = (m\<lparr>n_log := reconciled m (?p + 1) ?es k\<rparr>, drop k ?es,
       if k < length ?es \<and> ?p + 1 + k \<le> lastIndex m then Some (?p + k) else None)"
    by auto
  define keep where "keep = (if k < length ?es \<and> ?p + 1 + k \<le> lastIndex m then Some (?p + k) else None)"
  let ?m = "m\<lparr>n_log := reconciled m (?p + 1) ?es k\<rparr>"
  obtain n1 r1 where tr: "(case keep of None \<Rightarrow> (?m, Inr ()) | Some k \<Rightarrow> persistTruncateLocked d k ?m) = (n1, r1)"
    by fastforce
  obtain n2 r2 where en: "persistEntriesLocked d (drop k ?es) n1 = (n2, r2)"
    by fastforce
  have "(case r1 of Inl e \<Rightarrow> (n1, append_response n1 False 0) | Inr _ \<Rightarrow>
          (case r2 of Inl e \<Rightarrow> (n2, append_response n2 False 0) | Inr _ \<Rightarrow>
            (let m = commit_up_to (ar_LeaderCommit req) (?p + length ?es) n2 in (m, append_response m True (?p + length ?es))))) = (n', resp)"
  proof -
    have "append_checked d req m = append_matching d req m"
      using append_checked_matching [OF p] assms(4) by simp
    then show ?thesis
      unfolding chk append_matching_def k(4) keep_def [symmetric] prod.case tr en by (simp split: sum.splits)
  qed
  with assms(2) have rs: "r1 = Inr ()" "r2 = Inr ()" and n': "n' = commit_up_to (ar_LeaderCommit req) (?p + length ?es) n2"
    "resp = append_response n' True (?p + length ?es)"
    by (auto simp: append_response_def Let_def split: sum.splits)
  from persist_accepted [OF tr [unfolded rs] en [unfolded rs]] obtain w where w: "n2 = ?m\<lparr>n_wal := w\<rparr>"
    "wal_accepted d keep (drop k ?es) (n_wal m) w"
    by auto
  have "as_MatchIndex resp = ?p + length ?es" "as_From resp = n_NodeID n" "as_Term resp = ar_Term req"
    using n' w(1) view t by (simp_all add: append_response_def commit_up_to_def Let_def)
  then show ?thesis
    using that [OF v t p [unfolded view] k(1) k(2) [unfolded view] k(3) [unfolded view] w(2) [unfolded keep_def view]] n'(1) w(1)
    by (simp add: view)
qed

subsection \<open>The follower's log\<close>

lemma entryTerm_prefix:
  assumes "n_lastSnapshot m = n_lastSnapshot n" "n_lastSnapshotTerm m = n_lastSnapshotTerm n" "log_fits m" "log_fits n"
    "take l (n_log m) = take l (n_log n)" "i \<le> n_lastSnapshot n + l" "i \<le> lastIndex m" "i \<le> lastIndex n"
  shows "entryTerm m i = entryTerm n i"
proof (cases "n_lastSnapshot n < i")
  case True
  let ?j = "i - n_lastSnapshot n - 1"
  have "n_log m ! ?j = take l (n_log m) ! ?j" "n_log n ! ?j = take l (n_log n) ! ?j"
    using True assms(6) by simp_all
  with True assms show ?thesis
    by (simp add: entryTerm_log lastIndex_fits)
next
  case False
  with assms show ?thesis
    by (auto simp: entryTerm_def lastIndex_fits)
qed

lemma commit_up_to_simps [simp]:
  "n_log (commit_up_to c l n) = n_log n" "n_lastSnapshot (commit_up_to c l n) = n_lastSnapshot n"
  "n_lastSnapshotTerm (commit_up_to c l n) = n_lastSnapshotTerm n" "n_wal (commit_up_to c l n) = n_wal n"
  "n_state (commit_up_to c l n) = n_state n" "n_currentTerm (commit_up_to c l n) = n_currentTerm n"
  "n_NodeID (commit_up_to c l n) = n_NodeID n"
  "n_commitIndex (commit_up_to c l n) = max (n_commitIndex n) (min c l)"
  by (auto simp: commit_up_to_def Let_def)

lemma agrees_end:
  assumes "log_fits n" "p \<le> lastIndex n" "agrees n (p + 1) es k"
  shows "p + k \<le> lastIndex n"
proof (cases "k = 0 \<or> p + k \<le> n_lastSnapshot n")
  case True
  with assms(1,2) show ?thesis
    by (auto simp: lastIndex_fits)
next
  case False
  with assms(3) have "entryTerm n (p + 1 + (k - 1)) = Some (e_Term (es ! (k - 1)))"
    unfolding agrees_def by (auto dest: spec [of _ "k - 1"])
  with False assms(1) show ?thesis
    by (simp add: entryTerm_log lastIndex_fits split: if_splits)
qed

text \<open>A log reconciled with a request holds all entries of the request, and what it held before them.\<close>

lemma reconciled_log:
  assumes "log_fits n" "p \<le> lastIndex n" "k \<le> length es" "agrees n (p + 1) es k"
    "k < length es \<longrightarrow> n_lastSnapshot n < p + 1 + k \<and> p + k \<le> lastIndex n" "p + length es < 2 ^ 64"
    "n_log n' = reconciled n (p + 1) es k" "n_lastSnapshot n' = n_lastSnapshot n" "n_lastSnapshotTerm n' = n_lastSnapshotTerm n"
  shows "log_fits n'" "p + length es \<le> lastIndex n'" "\<And>i. i \<le> p \<Longrightarrow> entryTerm n' i = entryTerm n i"
    "\<And>i. i < length es \<Longrightarrow> n_lastSnapshot n < p + 1 + i \<Longrightarrow> entryTerm n' (p + 1 + i) = Some (e_Term (es ! i))"
proof -
  let ?s = "n_lastSnapshot n"
  show fits: "log_fits n'"
    using reconciled_fits [OF assms(1,3), of "p + 1"] assms(5-8) by (simp add: log_fits_def)
  note k = agrees_end [OF assms(1,2,4)]
  have len: "length (n_log n') = (if k = length es then length (n_log n) else p + length es - ?s)"
    using assms(1,3,5,7) k by (auto simp: reconciled_def lastIndex_fits min_def)
  with k assms(1,5,8) fits show last: "p + length es \<le> lastIndex n'"
    by (auto simp: lastIndex_fits split: if_splits)
  have pre: "take (p + k - ?s) (n_log n') = take (p + k - ?s) (n_log n)"
    using assms(1,3,5,7) k by (auto simp: reconciled_def lastIndex_fits min_def)
  have low: "entryTerm n' i = entryTerm n i" if "i \<le> p + k" for i
    by (rule entryTerm_prefix [OF assms(8,9) fits assms(1) pre]) (use that k last assms(3) in simp_all)
  then show "entryTerm n' i = entryTerm n i" if "i \<le> p" for i
    using that by simp
  show "entryTerm n' (p + 1 + i) = Some (e_Term (es ! i))" if "i < length es" "?s < p + 1 + i" for i
  proof (cases "i < k")
    case True
    with low [of "p + 1 + i"] assms(4) that(2) show ?thesis
      by (simp add: agrees_def)
  next
    case False
    with that assms(5) have s: "?s \<le> p + k" "k \<noteq> length es"
      by auto
    then have "length (take (p + k - ?s) (n_log n)) = p + k - ?s"
      using assms(1) k by (auto simp: lastIndex_fits)
    then have "n_log n' ! (p + i - ?s) = drop k es ! (p + i - ?s - (p + k - ?s))"
      using assms(7) False s by (simp add: reconciled_def nth_append)
    also have "\<dots> = es ! i"
      using False s that(1) by simp
    finally have "n_log n' ! (p + i - ?s) = es ! i" .
    with that fits last assms(8) show ?thesis
      by (simp add: entryTerm_log lastIndex_fits)
  qed
qed

text \<open>A follower whose second entry is of an older term, and the leader's request that replaces it.\<close>

definition sample_entry :: "nat \<Rightarrow> nat \<Rightarrow> entry" where
  "sample_entry i t = \<lparr>e_Index = i, e_Term = t, e_Command = [7], e_Type = 0, e_Commitment = 0\<rparr>"

definition sample_follower :: Node where
  "sample_follower = (NewNode [66] False [[65]] None)\<lparr>n_currentTerm := 2, n_log := [sample_entry 1 1, sample_entry 2 1],
     n_wal := Some (wal_file [sample_entry 1 1, sample_entry 2 1])\<rparr>"

definition sample_request :: AppendRequest where
  "sample_request = \<lparr>ar_Term = 2, ar_LeaderID = [65], ar_PrevLogIndex = 1, ar_PrevLogTerm = 1,
     ar_Entries = [sample_entry 2 2], ar_LeaderCommit = 2\<rparr>"

lemma sample_entry_ok [simp]: "i < 2 ^ 64 \<Longrightarrow> t < 2 ^ 64 \<Longrightarrow> entry_ok (sample_entry i t)" "e_Index (sample_entry i t) = i"
  "e_Term (sample_entry i t) = t"
  by (simp_all add: sample_entry_def entry_ok_def maxWALCommandBytes_def)

lemmas append_eval = appendEntriesLocked_def adoptTerm_def append_checked_def lastIndex_def entryTerm_def truncateFrom_def
  persistTruncateLocked_def TruncateAfter_def readAllLocked_file rewriteLocked_def persistEntriesLocked_def WAL_Write_def
  append_response_def NewNode_def disk_ok_def Let_def

lemma sample_fields: "ar_PrevLogIndex sample_request = 1" "ar_Entries sample_request = [sample_entry 2 2]"
  "ar_LeaderCommit sample_request = 2" "n_commitIndex sample_follower = 0"
  by (simp_all add: sample_request_def sample_follower_def NewNode_def)

lemma sample_accepted:
  "as_Success (snd (appendEntriesLocked disk_ok sample_request sample_follower))"
  "n_log (fst (appendEntriesLocked disk_ok sample_request sample_follower)) = [sample_entry 1 1, sample_entry 2 2]"
  "log_fits sample_follower"
  by (simp_all add: sample_follower_def sample_request_def log_fits_def append_eval)

text \<open>C5: When a follower accepts a request to append, its log held the entry before the first one sent, with the
  same term, and holds afterwards every entry sent, at its index; entries up to \<^verbatim>\<open>PrevLogIndex\<close> keep their
  terms.  The log is overwritten only from the first entry that it did not hold with the term sent: without
  one it is unchanged, even where it is longer than the request.  The commit index never goes back and never
  passes the last entry sent, which is the index acknowledged.\<close>

theorem appendEntries_spec:
  assumes "appendEntriesLocked d req n = (n', resp)" "as_Success resp" "log_fits n"
    "ar_PrevLogIndex req + length (ar_Entries req) < 2 ^ 64"
  shows "ar_PrevLogIndex req \<le> lastIndex n \<and>
    (n_lastSnapshot n < ar_PrevLogIndex req \<longrightarrow> entryTerm n (ar_PrevLogIndex req) = Some (ar_PrevLogTerm req)) \<and>
    (\<forall>i < length (ar_Entries req). n_lastSnapshot n < ar_PrevLogIndex req + 1 + i \<longrightarrow>
      entryTerm n' (ar_PrevLogIndex req + 1 + i) = Some (e_Term (ar_Entries req ! i))) \<and>
    (\<forall>i \<le> ar_PrevLogIndex req. entryTerm n' i = entryTerm n i) \<and>
    (\<exists>k \<le> length (ar_Entries req). agrees n (ar_PrevLogIndex req + 1) (ar_Entries req) k \<and>
      (k < length (ar_Entries req) \<longrightarrow> entryTerm n (ar_PrevLogIndex req + 1 + k) \<noteq> Some (e_Term (ar_Entries req ! k))) \<and>
      n_log n' = reconciled n (ar_PrevLogIndex req + 1) (ar_Entries req) k) \<and>
    n_commitIndex n' = max (n_commitIndex n) (min (ar_LeaderCommit req) (ar_PrevLogIndex req + length (ar_Entries req))) \<and>
    as_MatchIndex resp = ar_PrevLogIndex req + length (ar_Entries req) \<and> as_MatchIndex resp \<le> lastIndex n' \<and>
    n_state n' = StateFollower \<and> n_currentTerm n' = ar_Term req"
proof -
  obtain m k w where *: "log_view m = log_view n" "n_state m = StateFollower" "n_currentTerm m = ar_Term req"
    "ar_PrevLogIndex req \<le> lastIndex n"
    "n_lastSnapshot n < ar_PrevLogIndex req \<longrightarrow> entryTerm n (ar_PrevLogIndex req) = Some (ar_PrevLogTerm req)"
    "k \<le> length (ar_Entries req)" "agrees n (ar_PrevLogIndex req + 1) (ar_Entries req) k"
    "k < length (ar_Entries req) \<longrightarrow> n_lastSnapshot n < ar_PrevLogIndex req + 1 + k \<and>
       entryTerm n (ar_PrevLogIndex req + 1 + k) \<noteq> Some (e_Term (ar_Entries req ! k)) \<and> ar_PrevLogIndex req + k \<le> lastIndex n"
    "n' = commit_up_to (ar_LeaderCommit req) (ar_PrevLogIndex req + length (ar_Entries req))
       (m\<lparr>n_log := reconciled n (ar_PrevLogIndex req + 1) (ar_Entries req) k, n_wal := w\<rparr>)"
    "as_MatchIndex resp = ar_PrevLogIndex req + length (ar_Entries req)"
    by (rule append_accepted [OF assms])
  note view = log_viewD [OF *(1)]
  note log = reconciled_log [OF assms(3) *(4,6,7) _ assms(4), of n']
  have "entryTerm n' (ar_PrevLogIndex req + 1 + i) = Some (e_Term (ar_Entries req ! i))"
    if "i < length (ar_Entries req)" "n_lastSnapshot n < ar_PrevLogIndex req + 1 + i" for i
    by (rule log(4)) (use that *(8,9) view in simp_all)
  moreover have "entryTerm n' j = entryTerm n j" if "j \<le> ar_PrevLogIndex req" for j
    by (rule log(3)) (use that *(8,9) view in simp_all)
  moreover have "\<exists>k \<le> length (ar_Entries req). agrees n (ar_PrevLogIndex req + 1) (ar_Entries req) k \<and>
      (k < length (ar_Entries req) \<longrightarrow> entryTerm n (ar_PrevLogIndex req + 1 + k) \<noteq> Some (e_Term (ar_Entries req ! k))) \<and>
      n_log n' = reconciled n (ar_PrevLogIndex req + 1) (ar_Entries req) k"
    using *(6-9) by (intro exI [of _ k]) simp
  moreover have "n_commitIndex n' = max (n_commitIndex n) (min (ar_LeaderCommit req) (ar_PrevLogIndex req + length (ar_Entries req)))"
    "n_state n' = StateFollower" "n_currentTerm n' = ar_Term req"
    using *(2,3,9) view by simp_all
  moreover have "as_MatchIndex resp \<le> lastIndex n'"
    unfolding *(10) by (rule log(2)) (use *(8,9) view in simp_all)
  ultimately show ?thesis
    using *(4,5,10) by blast
qed

theorem appendEntries_spec_witness:
  "n_commitIndex (fst (appendEntriesLocked disk_ok sample_request sample_follower)) = 2 \<and>
   n_log (fst (appendEntriesLocked disk_ok sample_request sample_follower)) = [sample_entry 1 1, sample_entry 2 2] \<and>
   (\<exists>k \<le> 1. agrees sample_follower (1 + 1) [sample_entry 2 2] k)"
  using appendEntries_spec [OF prod.collapse [symmetric] sample_accepted(1,3)] sample_accepted(2)
  by (auto simp: sample_fields)

subsection \<open>The log on disk\<close>

fun entries_at :: "nat \<Rightarrow> entry list \<Rightarrow> bool" where
  "entries_at p [] \<longleftrightarrow> True"
| "entries_at p (e # es) \<longleftrightarrow> entry_ok e \<and> e_Index e = p + 1 \<and> entries_at (p + 1) es"

definition wal_synced :: "Node \<Rightarrow> bool" where
  "wal_synced n \<longleftrightarrow> n_wal n = Some (wal_file (n_log n)) \<and> entries_at (n_lastSnapshot n) (n_log n)"

lemma entries_at_append [simp]: "entries_at p (xs @ ys) \<longleftrightarrow> entries_at p xs \<and> entries_at (p + length xs) ys"
  by (induction xs arbitrary: p) auto

lemma entries_at_take_drop:
  assumes "entries_at p es"
  shows "entries_at p (take k es)" "k \<le> length es \<Longrightarrow> entries_at (p + k) (drop k es)"
  using assms entries_at_append [of p "take k es" "drop k es"] by (simp_all add: min_def split: if_splits)

lemma entries_at_ok: "entries_at p es \<Longrightarrow> list_all entry_ok es"
  by (induction es arbitrary: p) auto

lemma entries_at_above: "entries_at p es \<Longrightarrow> k \<le> p \<Longrightarrow> filter (\<lambda>e. e_Index e \<le> k) es = []"
  by (induction es arbitrary: p) auto

lemma entries_at_filter: "entries_at p es \<Longrightarrow> filter (\<lambda>e. e_Index e \<le> k) es = take (k - p) es"
proof (induction es arbitrary: p)
  case (Cons e es)
  then show ?case
    by (cases "p < k") (auto simp: take_Cons' entries_at_above)
qed simp

lemma wal_file_append: "wal_file xs @ concat (map encodeWALEntry ys) = wal_file (xs @ ys)"
  by (simp add: wal_file_def)

lemma TruncateAfter_synced:
  assumes "entries_at s es" "TruncateAfter out k (wal_file es) = (f, Inr u)"
  shows "f = wal_file (take (k - s) es)"
  using assms by (auto simp: TruncateAfter_def readAllLocked_file entries_at_ok rewriteLocked_def entries_at_filter
      split: wal_io.splits)

lemma wal_accepted_synced:
  assumes "wal_accepted d keep xs (Some (wal_file es)) w" "entries_at s es"
  shows "w = Some (wal_file ((case keep of None \<Rightarrow> es | Some k \<Rightarrow> take (k - s) es) @ xs))"
  using assms by (auto simp: wal_accepted_def wal_file_append dest: TruncateAfter_synced split: option.splits)

lemma reconciled_synced:
  assumes "entries_at (n_lastSnapshot n) (n_log n)" "entries_at p es" "k \<le> length es"
    "k < length es \<longrightarrow> n_lastSnapshot n < p + 1 + k \<and> p + k \<le> n_lastSnapshot n + length (n_log n)"
  shows "entries_at (n_lastSnapshot n) (reconciled n (p + 1) es k)"
proof (cases "k = length es")
  case False
  with assms(3,4) have "length (take (p + k - n_lastSnapshot n) (n_log n)) = p + k - n_lastSnapshot n" "n_lastSnapshot n \<le> p + k"
    by auto
  with False entries_at_take_drop [OF assms(1)] entries_at_take_drop(2) [OF assms(2,3)] show ?thesis
    by (simp add: reconciled_def)
qed (use assms(1) in \<open>simp add: reconciled_def\<close>)

text \<open>C3: A follower whose log file holds its log acknowledges entries only once the file holds them: after an
  accepted request, also one that cut the log, reading the file back gives exactly the log.\<close>

theorem appendEntries_durable:
  assumes "appendEntriesLocked d req n = (n', resp)" "as_Success resp" "log_fits n"
    "ar_PrevLogIndex req + length (ar_Entries req) < 2 ^ 64" "wal_synced n" "entries_at (ar_PrevLogIndex req) (ar_Entries req)"
  shows "wal_synced n' \<and> (\<exists>f. n_wal n' = Some f \<and> readAllLocked f = Inr (n_log n', f))"
proof -
  let ?s = "n_lastSnapshot n"
  obtain m k w where *: "log_view m = log_view n" "k \<le> length (ar_Entries req)"
    "k < length (ar_Entries req) \<longrightarrow> ?s < ar_PrevLogIndex req + 1 + k \<and>
       entryTerm n (ar_PrevLogIndex req + 1 + k) \<noteq> Some (e_Term (ar_Entries req ! k)) \<and> ar_PrevLogIndex req + k \<le> lastIndex n"
    "wal_accepted d (if k < length (ar_Entries req) \<and> ar_PrevLogIndex req + 1 + k \<le> lastIndex n
       then Some (ar_PrevLogIndex req + k) else None) (drop k (ar_Entries req)) (n_wal n) w"
    "n' = commit_up_to (ar_LeaderCommit req) (ar_PrevLogIndex req + length (ar_Entries req))
       (m\<lparr>n_log := reconciled n (ar_PrevLogIndex req + 1) (ar_Entries req) k, n_wal := w\<rparr>)"
    by (rule append_accepted [OF assms(1-4)])
  have at: "entries_at ?s (n_log n)" and f: "n_wal n = Some (wal_file (n_log n))"
    using assms(5) by (simp_all add: wal_synced_def)
  have "w = Some (wal_file (reconciled n (ar_PrevLogIndex req + 1) (ar_Entries req) k))"
    using wal_accepted_synced [OF *(4) [unfolded f] at] *(2,3) assms(3)
    by (auto simp: reconciled_def lastIndex_fits split: if_splits)
  moreover have "entries_at ?s (reconciled n (ar_PrevLogIndex req + 1) (ar_Entries req) k)"
    using reconciled_synced [OF at assms(6) *(2)] *(3) assms(3) by (simp add: lastIndex_fits)
  ultimately show ?thesis
    using *(5) log_viewD [OF *(1)] by (simp add: wal_synced_def readAllLocked_file entries_at_ok)
qed

theorem appendEntries_durable_witness:
  "wal_synced (fst (appendEntriesLocked disk_ok sample_request sample_follower)) \<and>
   n_log (fst (appendEntriesLocked disk_ok sample_request sample_follower)) = [sample_entry 1 1, sample_entry 2 2]"
  using appendEntries_durable [OF prod.collapse [symmetric] sample_accepted(1,3)] sample_accepted(2)
  by (simp add: sample_request_def sample_follower_def NewNode_def wal_synced_def)

text \<open>The leader's own entries, which it takes back when they cannot be written.\<close>

lemma maybeAdvanceCommitIndex_simps [simp]:
  "n_log (maybeAdvanceCommitIndex n) = n_log n" "n_wal (maybeAdvanceCommitIndex n) = n_wal n"
  "n_lastSnapshot (maybeAdvanceCommitIndex n) = n_lastSnapshot n" "n_state (maybeAdvanceCommitIndex n) = n_state n"
  "n_currentTerm (maybeAdvanceCommitIndex n) = n_currentTerm n" "n_NodeID (maybeAdvanceCommitIndex n) = n_NodeID n"
  "n_matchIndex (maybeAdvanceCommitIndex n) = n_matchIndex n" "n_nextIndex (maybeAdvanceCommitIndex n) = n_nextIndex n"
  by (simp_all add: maybeAdvanceCommitIndex_def Let_def)

lemma ProposeEntry_synced:
  assumes "ProposeEntry d command typ n = (n', r)" "wal_synced n" "log_fits n" "lastIndex n + 1 < 2 ^ 64"
    "n_currentTerm n < 2 ^ 64" "length command \<le> maxWALCommandBytes" "d_write d = WalOk \<or> d_write d = WalFail (the (n_wal n))"
  shows "wal_synced n'"
proof (cases "n_state n = StateLeader")
  case True
  let ?e = "\<lparr>e_Index = lastIndex n + 1, e_Term = n_currentTerm n, e_Command = command, e_Type = typ, e_Commitment = 0\<rparr>"
  have e: "entries_at (n_lastSnapshot n + length (n_log n)) [?e]"
    using assms(3-6) by (simp add: entry_ok_def lastIndex_fits)
  have "n' = maybeAdvanceCommitIndex (n\<lparr>n_log := n_log n @ [?e], n_wal := Some (wal_file (n_log n @ [?e]))\<rparr>) \<or> n' = n"
    using assms(1,2,4,7) True wal_file_append [of "n_log n" "[?e]"]
    by (auto simp: ProposeEntry_def persistEntriesLocked_def WAL_Write_def wal_synced_def Let_def)
  with e assms(2) show ?thesis
    by (auto simp: wal_synced_def)
qed (use assms(1,2) in \<open>simp add: ProposeEntry_def\<close>)

subsection \<open>A retry after a failed write\<close>

text \<open>C21: A write of the log file that fails leaves the entries in the log in memory.  The request is refused, but
  when the leader sends it again the entries are taken as already present and acknowledged, whatever the disk does,
  while the log file still does not hold them.\<close>

theorem retry_acknowledges_unwritten:
  assumes "n_wal n = Some f" "d_write d = WalFail f" "ar_Term req = n_currentTerm n" "ar_PrevLogIndex req = lastIndex n"
    "n_lastSnapshot n < ar_PrevLogIndex req \<Longrightarrow> entryTerm n (ar_PrevLogIndex req) = Some (ar_PrevLogTerm req)"
    "ar_Entries req \<noteq> []" "log_fits n" "ar_PrevLogIndex req + length (ar_Entries req) < 2 ^ 64"
    "appendEntriesLocked d req n = (n1, r1)" "appendEntriesLocked d' req n1 = (n2, r2)"
  shows "\<not> as_Success r1 \<and> as_Success r2 \<and> as_MatchIndex r2 = lastIndex n + length (ar_Entries req) \<and>
    n_log n2 = n_log n @ ar_Entries req \<and> n_wal n2 = Some f"
proof -
  let ?es = "ar_Entries req" and ?p = "lastIndex n" and ?m = "following req n"
  have same: "appendEntriesLocked e req m = append_checked e req (following req m)" if "n_currentTerm m = n_currentTerm n" for e m
    using that assms(3) by (intro appendEntriesLocked_adopted [where u = "()"]) (simp_all add: adoptTerm_def)
  note v = log_viewD [OF following_view]
  have "reconcile ?p 0 ?es ?m = (?m\<lparr>n_log := n_log n @ ?es\<rparr>, ?es, None)"
    using assms(4,6-8) v by (cases ?es) (simp_all add: lastIndex_fits log_fits_def)
  then have "append_checked d req ?m = (?m\<lparr>n_log := n_log n @ ?es\<rparr>, append_response (?m\<lparr>n_log := n_log n @ ?es\<rparr>) False 0)"
    using assms(1,2,4-6,8) v
    by (subst append_checked_matching) (simp_all add: append_matching_def persistEntriesLocked_def WAL_Write_def append_response_def)
  then have 1: "n1 = ?m\<lparr>n_log := n_log n @ ?es\<rparr>" "\<not> as_Success r1"
    using assms(9) same by (auto simp: append_response_def)
  let ?n = "following req n1"
  have len: "lastIndex ?n = ?p + length ?es" "log_fits ?n" "n_lastSnapshot ?n = n_lastSnapshot n" "n_wal ?n = Some f" "n_log ?n = n_log n @ ?es"
    using 1 assms(1,4,7,8) v by (simp_all add: lastIndex_fits log_fits_def)
  have low: "entryTerm ?n i = entryTerm n i" if "i \<le> ?p" for i
    by (rule entryTerm_prefix [where l = "length (n_log n)"]) (use that len 1 v assms(7) in \<open>simp_all add: lastIndex_fits\<close>)
  have high: "entryTerm ?n (?p + 1 + i) = Some (e_Term (?es ! i))" if "i < length ?es" for i
    using that len assms(7) by (simp add: entryTerm_log lastIndex_fits nth_append)
  obtain k where k: "k \<le> length ?es" "k < length ?es \<longrightarrow> entryTerm ?n (?p + 1 + k) \<noteq> Some (e_Term (?es ! k))"
    "reconcile ?p 0 ?es ?n = (?n\<lparr>n_log := reconciled ?n (?p + 1) ?es k\<rparr>, drop k ?es,
       if k < length ?es \<and> ?p + 1 + k \<le> lastIndex ?n then Some (?p + k) else None)"
    using reconcile_spec [OF len(2), of ?p 0 ?es] len assms(4,8) by auto
  with high have "k = length ?es"
    using le_neq_implies_less by blast
  with k(3) len(5) have "reconcile ?p 0 ?es ?n = (?n, [], None)"
    by (simp add: reconciled_def)
  then have "append_checked d' req ?n =
    (let m = commit_up_to (ar_LeaderCommit req) (?p + length ?es) ?n in (m, append_response m True (?p + length ?es)))"
    using len low [of ?p] assms(4,5,8)
    by (subst append_checked_matching) (simp_all add: append_matching_def persistEntriesLocked_def)
  with same [of n1 d'] 1 assms(10) len show ?thesis
    by (auto simp: append_response_def Let_def)
qed

theorem retry_acknowledges_unwritten_witness:
  "\<exists>n d req n1 r1 n2 r2. appendEntriesLocked d req n = (n1, r1) \<and> appendEntriesLocked disk_ok req n1 = (n2, r2) \<and>
     \<not> as_Success r1 \<and> as_Success r2 \<and> n_log n2 = n_log n @ ar_Entries req \<and> ar_Entries req \<noteq> [] \<and>
     n_wal n2 = Some (wal_file (n_log n))"
proof -
  let ?d = "disk_ok\<lparr>d_write := WalFail (wal_file (n_log sample_follower))\<rparr>"
    and ?req = "sample_request\<lparr>ar_PrevLogIndex := 2, ar_Entries := [sample_entry 3 2]\<rparr>"
  obtain n1 r1 where 1: "appendEntriesLocked ?d ?req sample_follower = (n1, r1)"
    by fastforce
  obtain n2 r2 where 2: "appendEntriesLocked disk_ok ?req n1 = (n2, r2)"
    by fastforce
  have "\<not> as_Success r1 \<and> as_Success r2 \<and> as_MatchIndex r2 = lastIndex sample_follower + length (ar_Entries ?req) \<and>
    n_log n2 = n_log sample_follower @ ar_Entries ?req \<and> n_wal n2 = Some (wal_file (n_log sample_follower))"
    by (rule retry_acknowledges_unwritten [OF _ _ _ _ _ _ sample_accepted(3) _ 1 2])
      (simp_all add: sample_request_def sample_follower_def append_eval)
  with 1 2 show ?thesis
    by (intro exI) auto
qed

end
