(* ===== verification/RaftCommit.thy ===== *)
theory RaftCommit
  imports RaftLog
begin

text \<open>
  Majorities, over the handlers of theory \<open>RaftNode\<close>: the contract of a quorum, two of which always meet, and
  what it gives for the election of a leader and for the commit index; and replication to one follower,
  from the first probe to equal logs.
\<close>

subsection \<open>Quorums\<close>

locale majority =
  fixes members :: "'n \<Rightarrow> 'a set" and quorum :: "'n \<Rightarrow> nat" and proper :: "'n \<Rightarrow> bool"
  assumes finite_members: "proper n \<Longrightarrow> finite (members n)"
    and more_than_half: "proper n \<Longrightarrow> card (members n) < 2 * quorum n"
begin

lemma quorums_meet:
  assumes "proper n" "A \<subseteq> members n" "B \<subseteq> members n" "quorum n \<le> card A" "quorum n \<le> card B"
  shows "A \<inter> B \<noteq> {}"
proof
  assume disj: "A \<inter> B = {}"
  note fin = finite_members [OF assms(1)]
  have "card A + card B = card (A \<union> B)"
    using disj assms(2,3) fin by (simp add: card_Un_disjoint finite_subset)
  also have "\<dots> \<le> card (members n)"
    using assms(2,3) fin by (simp add: card_mono)
  finally show False
    using assms(4,5) more_than_half [OF assms(1)] by simp
qed

text \<open>Members that vote once elect at most one candidate.\<close>

lemma one_winner:
  assumes "proper n" "\<And>v. v \<in> members n \<Longrightarrow> single_valued (votes v)"
    "quorum n \<le> card {v \<in> members n. (t, c) \<in> votes v}" "quorum n \<le> card {v \<in> members n. (t, c') \<in> votes v}"
  shows "c = c'"
proof -
  have "{v \<in> members n. (t, c) \<in> votes v} \<inter> {v \<in> members n. (t, c') \<in> votes v} \<noteq> {}"
    by (rule quorums_meet) (use assms(1,3,4) in auto)
  with assms(2) show ?thesis
    by (auto dest: single_valuedD)
qed

end

definition cluster :: "Node \<Rightarrow> NodeID set" where
  "cluster n = insert (n_NodeID n) (set (n_peers n))"

definition proper_cluster :: "Node \<Rightarrow> bool" where
  "proper_cluster n \<longleftrightarrow> distinct (n_NodeID n # n_peers n)"

interpretation raft: majority cluster quorumSize proper_cluster
  by unfold_locales (auto simp: cluster_def proper_cluster_def quorumSize_def distinct_card)

subsection \<open>Elections\<close>

text \<open>C2: In a cluster whose nodes vote for themselves in the step that starts their campaign, each node running through any
  sequence of handlers, disk failures and restarts of its own, at most one candidate gets the votes of
  a quorum in a term.\<close>

theorem election_safety:
  assumes "proper_cluster n"
    "\<And>v. v \<in> cluster n \<Longrightarrow> v \<noteq> [] \<and> vote_run (NewNode v True (peers v) None) (votes v) (final v)"
    "quorumSize n \<le> card {v \<in> cluster n. (t, c) \<in> votes v}" "quorumSize n \<le> card {v \<in> cluster n. (t, c') \<in> votes v}"
  shows "c = c'"
proof (rule raft.one_winner [OF assms(1) _ assms(3,4)])
  fix v assume v: "v \<in> cluster n"
  have "vote_inv {} (NewNode v True (peers v) None)"
    using assms(2) [OF v] by (simp add: vote_inv_def NewNode_def loadHardState_def covers_def single_valued_def)
  from run_inv [OF conjunct2 [OF assms(2) [OF v]] this] show "single_valued (votes v)"
    by (simp add: vote_inv_def)
qed

lemma fresh_vote: "\<exists>n. vote_run (NewNode v True ps None) {(1, [65])} n"
proof -
  let ?n = "NewNode v True ps None" and ?req = "\<lparr>vr_Term = 1, vr_CandidateID = [65], vr_LastLogIndex = 0, vr_LastLogTerm = 0\<rparr>"
  obtain n resp where v: "HandleVoteRequest disk_ok disk_ok ?req ?n = (n, resp)" "vs_VoteGranted resp" "vs_Term resp = 1"
    by (simp add: vote_eval)
  have "vote_run ?n ({} \<union> set_option (if vs_VoteGranted resp then Some (vs_Term resp, vr_CandidateID ?req) else None)) n"
    by (rule vote_run.step [OF vote_run.start vote_step.vote [OF _ _ v(1)]]) simp_all
  with v show ?thesis
    by auto
qed

theorem election_safety_witness:
  "\<exists>(votes :: NodeID \<Rightarrow> (nat \<times> NodeID) set) (final :: NodeID \<Rightarrow> Node).
     vote_run (NewNode [65] True [] None) (votes [65]) (final [65]) \<and>
     vote_run (NewNode [66] True [] None) (votes [66]) (final [66]) \<and>
     {c. 2 \<le> card {v \<in> {[65], [66]}. (1, c) \<in> votes v}} = {[65]}"
proof -
  let ?n = "NewNode [65] True [[66]] None" and ?votes = "\<lambda>v :: NodeID. {(1 :: nat, [65] :: NodeID)}"
  obtain final where run: "\<And>v. vote_run (NewNode v True [] None) {(1, [65])} (final v)"
    using fresh_vote [where ps = "[]"] by metis
  have n: "cluster ?n = {[65], [66]}" "quorumSize ?n = 2" "proper_cluster ?n"
    by (simp_all add: cluster_def quorumSize_def proper_cluster_def NewNode_def loadHardState_def)
  have all: "{v \<in> {[65], [66]}. (1, [65]) \<in> ?votes v} = {[65], [66]}"
    by auto
  have "c = [65]" if "2 \<le> card {v \<in> {[65], [66]}. (1, c) \<in> ?votes v}" for c
  proof (rule election_safety [OF n(3), where votes = ?votes and final = final and peers = "\<lambda>_. []" and t = 1], unfold n)
    show "2 \<le> card {v \<in> {[65], [66]}. (1, [65]) \<in> ?votes v}"
      unfolding all by simp
    show "2 \<le> card {v \<in> {[65], [66]}. (1, c) \<in> ?votes v}"
      by (fact that)
    show "v \<noteq> [] \<and> vote_run (NewNode v True [] None) {(1, [65])} (final v)" if "v \<in> {[65], [66]}" for v
      using that run by blast
  qed
  moreover have "2 \<le> card {v \<in> {[65], [66]}. (1, [65]) \<in> ?votes v}"
    unfolding all by simp
  ultimately have "{c. 2 \<le> card {v \<in> {[65], [66]}. (1, c) \<in> ?votes v}} = {[65]}"
    by blast
  then show ?thesis
    using run by - (rule exI [of _ ?votes], rule exI [of _ final], intro conjI)
qed

subsection \<open>The commit index\<close>

lemma fold_last:
  assumes "fold (\<lambda>i c. if P i then i else c) [a ..< b] c0 = c"
  shows "(c = c0 \<and> (\<forall>i. a \<le> i \<and> i < b \<longrightarrow> \<not> P i)) \<or> (P c \<and> a \<le> c \<and> c < b \<and> (\<forall>i. c < i \<and> i < b \<longrightarrow> \<not> P i))"
  using assms
proof (induction b arbitrary: c)
  case (Suc b)
  show ?case
  proof (cases "a \<le> b \<and> P b")
    case True
    with Suc.prems show ?thesis
      by auto
  next
    case False
    with Suc.prems have "fold (\<lambda>i c. if P i then i else c) [a ..< b] c0 = c"
      by (auto split: if_splits)
    from Suc.IH [OF this] False show ?thesis
      by (auto simp: less_Suc_eq)
  qed
qed simp

lemma commit_index_cases:
  assumes "n_state n = StateLeader" "n_commitIndex n + 1 < 2 ^ 64"
  defines "c \<equiv> n_commitIndex (maybeAdvanceCommitIndex n)"
  shows "n_commitIndex n \<le> c" "n_commitIndex n < c \<Longrightarrow> commit_candidate n c \<and> c \<le> lastIndex n"
    "c < i \<Longrightarrow> i \<le> lastIndex n \<Longrightarrow> \<not> commit_candidate n i"
proof -
  define f where "f = fold (\<lambda>i c. if commit_candidate n i then i else c) [n_commitIndex n + 1 ..< lastIndex n + 1] (n_commitIndex n)"
  have c: "c = max (n_commitIndex n) f"
    using assms by (simp add: maybeAdvanceCommitIndex_def Let_def max_def f_def)
  from fold_last [OF f_def [symmetric]]
  have "n_commitIndex n \<le> c \<and> (n_commitIndex n < c \<longrightarrow> commit_candidate n c \<and> c \<le> lastIndex n) \<and>
    (\<forall>i. c < i \<and> i \<le> lastIndex n \<longrightarrow> \<not> commit_candidate n i)"
    unfolding c by (elim disjE conjE) (simp_all add: Suc_le_eq less_Suc_eq_le)
  then show "n_commitIndex n \<le> c" "n_commitIndex n < c \<Longrightarrow> commit_candidate n c \<and> c \<le> lastIndex n"
    "c < i \<Longrightarrow> i \<le> lastIndex n \<Longrightarrow> \<not> commit_candidate n i"
    by blast+
qed

lemma replicas_card:
  assumes "proper_cluster n"
  shows "replicas n i \<le> card {v \<in> cluster n. v = n_NodeID n \<or> i \<le> n_matchIndex n v}"
proof -
  let ?Q = "set (n_NodeID n # filter (\<lambda>p. i \<le> n_matchIndex n p) (n_peers n))"
  have "distinct (n_NodeID n # filter (\<lambda>p. i \<le> n_matchIndex n p) (n_peers n))"
    using assms by (simp add: proper_cluster_def)
  then have "replicas n i = card ?Q"
    by (simp only: distinct_card replicas_def list.size plus_1_eq_Suc add_Suc_right add_0_right)
  also have "\<dots> \<le> card {v \<in> cluster n. v = n_NodeID n \<or> i \<le> n_matchIndex n v}"
    by (intro card_mono) (auto simp: cluster_def)
  finally show ?thesis .
qed

text \<open>C6: A leader moves its commit index only forward, only to an entry of its own term inside its log, and only
  when every quorum of the cluster contains a node that has that entry, the leader or a follower that
  acknowledged it; and it moves it to the last entry of its term that a quorum has.\<close>

theorem commit_majority:
  assumes "n_state n = StateLeader" "proper_cluster n" "n_commitIndex n + 1 < 2 ^ 64"
  shows "n_commitIndex n \<le> n_commitIndex (maybeAdvanceCommitIndex n) \<and>
    (n_commitIndex n < n_commitIndex (maybeAdvanceCommitIndex n) \<longrightarrow>
       n_commitIndex (maybeAdvanceCommitIndex n) \<le> lastIndex n \<and>
       entryTerm n (n_commitIndex (maybeAdvanceCommitIndex n)) = Some (n_currentTerm n) \<and>
       (\<forall>V \<subseteq> cluster n. quorumSize n \<le> card V \<longrightarrow>
          (\<exists>v \<in> V. v = n_NodeID n \<or> n_commitIndex (maybeAdvanceCommitIndex n) \<le> n_matchIndex n v))) \<and>
    (\<forall>i \<le> lastIndex n. n_lastSnapshot n < i \<and> entryTerm n i = Some (n_currentTerm n) \<and> quorumSize n \<le> replicas n i \<longrightarrow>
       i \<le> n_commitIndex (maybeAdvanceCommitIndex n))"
proof -
  let ?c = "n_commitIndex (maybeAdvanceCommitIndex n)"
  note c = commit_index_cases [OF assms(1,3)]
  have "\<exists>v \<in> V. v = n_NodeID n \<or> ?c \<le> n_matchIndex n v"
    if "n_commitIndex n < ?c" "V \<subseteq> cluster n" "quorumSize n \<le> card V" for V
  proof -
    have "quorumSize n \<le> card {v \<in> cluster n. v = n_NodeID n \<or> ?c \<le> n_matchIndex n v}"
      using c(2) [OF that(1)] replicas_card [OF assms(2)] order_trans unfolding commit_candidate_def by blast
    from raft.quorums_meet [OF assms(2) that(2) _ that(3) this] show ?thesis
      by auto
  qed
  with c(1,2) have "n_commitIndex n \<le> ?c \<and> (n_commitIndex n < ?c \<longrightarrow> ?c \<le> lastIndex n \<and> entryTerm n ?c = Some (n_currentTerm n) \<and>
       (\<forall>V \<subseteq> cluster n. quorumSize n \<le> card V \<longrightarrow> (\<exists>v \<in> V. v = n_NodeID n \<or> ?c \<le> n_matchIndex n v)))"
    unfolding commit_candidate_def by blast
  moreover have "i \<le> ?c"
    if "i \<le> lastIndex n" "n_lastSnapshot n < i \<and> entryTerm n i = Some (n_currentTerm n) \<and> quorumSize n \<le> replicas n i" for i
    using c(3) [OF _ that(1)] that(2) unfolding commit_candidate_def by (meson not_le)
  ultimately show ?thesis
    by blast
qed

theorem commit_majority_witness:
  "n_commitIndex (maybeAdvanceCommitIndex (sample_follower\<lparr>n_state := StateLeader, n_currentTerm := 1,
     n_matchIndex := (\<lambda>p. if p = [65] then 2 else 0)\<rparr>)) = 2"
proof -
  let ?n = "sample_follower\<lparr>n_state := StateLeader, n_currentTerm := 1, n_matchIndex := (\<lambda>p. if p = [65] then 2 else 0)\<rparr>"
  have "n_commitIndex (maybeAdvanceCommitIndex ?n) \<le> 2 \<and> 2 \<le> n_commitIndex (maybeAdvanceCommitIndex ?n)"
    using commit_majority [of ?n]
    by (auto simp: sample_follower_def NewNode_def proper_cluster_def lastIndex_def entryTerm_def quorumSize_def replicas_def)
  then show ?thesis
    by simp
qed

subsection \<open>Replication to one follower\<close>

datatype send = SendAppend AppendRequest | SendSnapshot SnapshotRequest | SendNothing

definition replicateTo :: "NodeID \<Rightarrow> nat \<Rightarrow> Node \<Rightarrow> send" where
  "replicateTo peerID term n =
     (if n_state n \<noteq> StateLeader \<or> n_currentTerm n \<noteq> term then SendNothing
      else
        case buildAppendRequestLocked peerID term n of
          Some req \<Rightarrow> SendAppend req
        | None \<Rightarrow>
            if n_lastSnapshot n > 0 \<and> n_snapshotBytes n \<noteq> [] then
              SendSnapshot \<lparr>sr_Term = term, sr_LeaderID = n_NodeID n, sr_Data = n_snapshotBytes n,
                sr_LastIndex = n_lastSnapshot n, sr_LastTerm = n_lastSnapshotTerm n\<rparr>
            else SendNothing)"

text \<open>One heartbeat of the leader \<open>l\<close> to the follower \<open>f\<close>, delivered and answered.\<close>

definition heartbeat :: "disk \<Rightarrow> Node \<times> Node \<Rightarrow> Node \<times> Node" where
  "heartbeat d = (\<lambda>(l, f).
     case replicateTo (n_NodeID f) (n_currentTerm l) l of
       SendAppend req \<Rightarrow> (case appendEntriesLocked d req f of (f, resp) \<Rightarrow> (handleAppendResponse d resp l, f))
     | _ \<Rightarrow> (l, f))"

definition log_matching :: "entry list \<Rightarrow> entry list \<Rightarrow> bool" where
  "log_matching xs ys \<longleftrightarrow>
     (\<forall>i < min (length xs) (length ys). e_Term (xs ! i) = e_Term (ys ! i) \<longrightarrow> take (Suc i) xs = take (Suc i) ys)"

definition replicating :: "Node \<Rightarrow> Node \<Rightarrow> bool" where
  "replicating l f \<longleftrightarrow> n_state l = StateLeader \<and> n_lastSnapshot l = 0 \<and> n_lastSnapshot f = 0 \<and>
     length (n_log l) + 1 < 2 ^ 64 \<and> length (n_log f) < 2 ^ 64 \<and> n_currentTerm f \<le> n_currentTerm l \<and>
     n_nextIndex l (n_NodeID f) \<le> length (n_log l) + 1 \<and> n_matchIndex l (n_NodeID f) \<le> length (n_log l) \<and>
     log_matching (n_log l) (n_log f) \<and> entries_at 0 (n_log l) \<and> (n_wal f = None \<or> wal_synced f)"

definition replicated :: "Node \<Rightarrow> Node \<Rightarrow> bool" where
  "replicated l f \<longleftrightarrow> take (length (n_log l)) (n_log f) = n_log l \<and> n_matchIndex l (n_NodeID f) = length (n_log l) \<and>
     n_nextIndex l (n_NodeID f) = length (n_log l) + 1"

lemma log_matching_take: "log_matching xs ys \<Longrightarrow> log_matching xs (take k ys)"
  by (auto simp: log_matching_def min_def split: if_splits)

lemma entryTerm_nth:
  assumes "n_lastSnapshot n = 0" "length (n_log n) < 2 ^ 64" "i \<le> length (n_log n)"
  shows "entryTerm n i = Some (if i = 0 then 0 else e_Term (n_log n ! (i - 1)))"
  using assms by (auto simp: entryTerm_def lastIndex_def)

lemma replicateTo_leader:
  assumes "replicating l f"
  defines "p \<equiv> max 1 (n_nextIndex l (n_NodeID f)) - 1"
  obtains req where "replicateTo (n_NodeID f) (n_currentTerm l) l = SendAppend req" "ar_Term req = n_currentTerm l"
    "ar_PrevLogIndex req = p" "entryTerm l p = Some (ar_PrevLogTerm req)" "ar_Entries req = drop p (n_log l)"
    "p \<le> length (n_log l)"
proof -
  have p: "p \<le> length (n_log l)" "max 1 (n_nextIndex l (n_NodeID f)) = Suc p"
    using assms by (auto simp: replicating_def)
  then have "entriesFrom l (Suc p) = drop p (n_log l)"
    using assms(1) by (auto simp: entriesFrom_def replicating_def)
  with p assms(1) show ?thesis
    by (intro that [OF _ _ _ _ _ p(1)]) (auto simp: replicating_def replicateTo_def buildAppendRequestLocked_def entryTerm_nth Let_def)
qed

lemma appendEntriesLocked_ok:
  assumes "n_currentTerm f \<le> ar_Term req"
  obtains m where "appendEntriesLocked disk_ok req f = append_checked disk_ok req m" "log_view m = log_view f" "n_currentTerm m = ar_Term req"
proof -
  have "snd (adoptTerm disk_ok (ar_Term req) f) = Inr ()"
    by (simp add: adoptTerm_def advanceTermLocked_def persistHardStateLocked_def saveHardState_def writeHardState_def
        maxHardStateVotedForLen_def disk_ok_def)
  then obtain f0 where f0: "adoptTerm disk_ok (ar_Term req) f = (f0, Inr ())"
    by (cases "adoptTerm disk_ok (ar_Term req) f") simp
  from adoptTerm_view [OF this] assms show ?thesis
    by (intro that [OF appendEntriesLocked_adopted [OF assms f0]]) simp_all
qed

text \<open>A request that the follower accepts, and the two ways it sends the leader back.\<close>

lemma append_matching_ok:
  assumes "n_wal n = None \<or> wal_synced n"
  shows "as_Success (snd (append_matching disk_ok req n))"
proof -
  obtain m es keep where r: "reconcile (ar_PrevLogIndex req) 0 (ar_Entries req) n = (m, es, keep)"
    by (metis prod_cases3)
  have wal: "n_wal (fst (reconcile p j xs n)) = n_wal n" for p j xs
    by (induction p j xs n rule: reconcile.induct) (auto simp: Let_def truncateFrom_def)
  from wal [of "ar_PrevLogIndex req" 0 "ar_Entries req"] r assms show ?thesis
    by (auto simp: append_matching_def persistTruncateLocked_def persistEntriesLocked_def TruncateAfter_def WAL_Write_def
        rewriteLocked_def wal_synced_def readAllLocked_file entries_at_ok disk_ok_def append_response_def Let_def
        split: option.splits)
qed

lemma append_probe:
  assumes "replicating l f" "log_view m = log_view f" "ar_PrevLogIndex req = p"
    "\<not> (p \<le> length (n_log f) \<and> (0 < p \<longrightarrow> entryTerm f p = Some (ar_PrevLogTerm req)))"
  obtains q f' where "append_checked disk_ok req m = (f', append_response f' False q)" "q < p" "n_log f' = take q (n_log f)"
    "n_lastSnapshot f' = 0" "n_currentTerm f' = n_currentTerm m" "n_NodeID f' = n_NodeID f" "n_wal f' = None \<or> wal_synced f'"
proof -
  note v = log_viewD [OF assms(2)]
  have f: "n_lastSnapshot f = 0" "length (n_log f) < 2 ^ 64" "n_wal f = None \<or> wal_synced f" "lastIndex f = length (n_log f)"
    using assms(1) by (simp_all add: replicating_def lastIndex_def)
  have wal: "n_wal m = None \<or> wal_synced m"
    using f(3) v by (simp add: wal_synced_def)
  show ?thesis
  proof (cases "length (n_log f) < p")
    case True
    then show ?thesis
      using v f wal assms(3) by (intro that [of m "length (n_log f)"]) (simp_all add: append_checked_def)
  next
    case False
    with assms(4) have p: "0 < p" "p \<le> length (n_log f)" "entryTerm f p \<noteq> Some (ar_PrevLogTerm req)"
      by auto
    have cut: "truncateFrom m p = m\<lparr>n_log := take (p - 1) (n_log f)\<rparr>"
      using truncateFrom_take [of m p] p v f by simp
    let ?w = "map_option (\<lambda>_. wal_file (take (p - 1) (n_log f))) (n_wal f)"
    have tr: "persistTruncateLocked disk_ok (p - 1) (truncateFrom m p) = (m\<lparr>n_log := take (p - 1) (n_log f), n_wal := ?w\<rparr>, Inr ())"
      using f v unfolding cut
      by (auto simp: persistTruncateLocked_def TruncateAfter_def rewriteLocked_def wal_synced_def readAllLocked_file entries_at_ok
          entries_at_filter disk_ok_def)
    with p v f assms(3) show ?thesis
      by (intro that [of "m\<lparr>n_log := take (p - 1) (n_log f), n_wal := ?w\<rparr>" "p - 1"])
        (auto simp: append_checked_def wal_synced_def entries_at_take_drop)
  qed
qed

lemma matching_prefix:
  assumes "log_matching (n_log l) (n_log f)" "n_lastSnapshot f = 0" "length (n_log f) < 2 ^ 64" "p \<le> length (n_log l)"
    "0 < p \<longrightarrow> entryTerm f p = Some (e_Term (n_log l ! (p - 1)))" "p \<le> length (n_log f)"
    "agrees f (p + 1) (drop p (n_log l)) k" "p + k \<le> length (n_log l)" "p + k \<le> length (n_log f)"
  shows "take (p + k) (n_log f) = take (p + k) (n_log l)"
proof (cases "p + k = 0")
  case False
  have "entryTerm f (p + k) = Some (e_Term (n_log l ! (p + k - 1)))"
  proof (cases k)
    case 0
    with False assms(5) show ?thesis
      by simp
  next
    case (Suc j)
    with assms(2,7,8) show ?thesis
      by (simp add: agrees_def)
  qed
  then have "e_Term (n_log f ! (p + k - 1)) = e_Term (n_log l ! (p + k - 1))"
    using entryTerm_nth [OF assms(2,3,9)] False by (auto split: if_splits)
  moreover have "p + k - 1 < min (length (n_log l)) (length (n_log f))" "Suc (p + k - 1) = p + k"
    using False assms(8,9) by linarith+
  ultimately show ?thesis
    using assms(1) unfolding log_matching_def by metis
qed simp

lemma reconciled_prefix:
  assumes "take (p + k) (n_log f) = take (p + k) (n_log l)" "n_lastSnapshot f = 0" "p + k \<le> length (n_log l)"
  shows "take (length (n_log l)) (reconciled f (p + 1) (drop p (n_log l)) k) = n_log l"
proof (cases "p + k = length (n_log l)")
  case True
  with assms show ?thesis
    by (auto simp: reconciled_def)
next
  case False
  with assms(3) have "k \<noteq> length (drop p (n_log l))"
    by simp
  with assms show ?thesis
    by (simp add: reconciled_def add.commute)
qed

lemma handle_accepted:
  assumes "n_state l = StateLeader" "as_Term resp = n_currentTerm l" "as_Success resp" "as_MatchIndex resp = k" "k + 1 < 2 ^ 64"
    "n_matchIndex l (as_From resp) \<le> k"
  shows "n_log (handleAppendResponse d resp l) = n_log l" "n_matchIndex (handleAppendResponse d resp l) (as_From resp) = k"
    "n_nextIndex (handleAppendResponse d resp l) (as_From resp) = k + 1"
  using assms by (auto simp: handleAppendResponse_def Let_def)

lemma handle_refused:
  assumes "n_state l = StateLeader" "as_Term resp = n_currentTerm l" "\<not> as_Success resp" "as_MatchIndex resp = k" "k + 1 < 2 ^ 64"
    "k + 1 < n_nextIndex l (as_From resp)"
  shows "handleAppendResponse d resp l = l\<lparr>n_nextIndex := (n_nextIndex l)(as_From resp := k + 1)\<rparr>"
  using assms by (auto simp: handleAppendResponse_def Let_def)

lemma replicatingD:
  assumes "replicating l f"
  shows "n_state l = StateLeader" "n_lastSnapshot l = 0" "n_lastSnapshot f = 0" "length (n_log l) + 1 < 2 ^ 64"
    "length (n_log f) < 2 ^ 64" "n_currentTerm f \<le> n_currentTerm l" "n_nextIndex l (n_NodeID f) \<le> length (n_log l) + 1"
    "n_matchIndex l (n_NodeID f) \<le> length (n_log l)" "log_matching (n_log l) (n_log f)" "entries_at 0 (n_log l)"
    "n_wal f = None \<or> wal_synced f" "log_fits f" "lastIndex f = length (n_log f)"
  using assms unfolding replicating_def by (auto simp: log_fits_def lastIndex_def)

text \<open>The request at entry \<open>p\<close> of the leader's log finds the entry before it in the follower's log, or not.\<close>

definition probe_at :: "Node \<Rightarrow> nat \<Rightarrow> AppendRequest \<Rightarrow> bool" where
  "probe_at l p req \<longleftrightarrow> ar_Term req = n_currentTerm l \<and> ar_PrevLogIndex req = p \<and>
     entryTerm l p = Some (ar_PrevLogTerm req) \<and> ar_Entries req = drop p (n_log l) \<and> p \<le> length (n_log l)"

lemma probe_accepted:
  assumes "replicating l f" "probe_at l p req" "p \<le> length (n_log f) \<and> (0 < p \<longrightarrow> entryTerm f p = Some (ar_PrevLogTerm req))"
    "appendEntriesLocked disk_ok req f = (f', resp)"
  shows "as_Success resp" "as_Term resp = n_currentTerm l" "as_From resp = n_NodeID f" "as_MatchIndex resp = length (n_log l)"
    "n_NodeID f' = n_NodeID f" "take (length (n_log l)) (n_log f') = n_log l"
proof -
  note inv = replicatingD [OF assms(1)]
  have req: "ar_Term req = n_currentTerm l" "ar_PrevLogIndex req = p" "entryTerm l p = Some (ar_PrevLogTerm req)"
    "ar_Entries req = drop p (n_log l)" "p \<le> length (n_log l)"
    using assms(2) by (simp_all add: probe_at_def)
  obtain m where m: "appendEntriesLocked disk_ok req f = append_checked disk_ok req m" "log_view m = log_view f"
    by (rule appendEntriesLocked_ok [of f req]) (use inv(6) req(1) in simp)
  note v = log_viewD [OF m(2)]
  have "append_checked disk_ok req m = append_matching disk_ok req m"
    by (rule append_checked_matching) (use assms(3) req v inv in simp_all)
  moreover have "as_Success (snd (append_matching disk_ok req m))"
    by (rule append_matching_ok) (use inv(11) v in \<open>simp add: wal_synced_def\<close>)
  ultimately show ok: "as_Success resp"
    using m(1) assms(4) by (metis snd_conv)
  have bound: "ar_PrevLogIndex req + length (ar_Entries req) < 2 ^ 64"
    using req(2,4,5) inv(4) by simp
  obtain m' k w where *: "log_view m' = log_view f" "k \<le> length (ar_Entries req)" "agrees f (ar_PrevLogIndex req + 1) (ar_Entries req) k"
    "f' = commit_up_to (ar_LeaderCommit req) (ar_PrevLogIndex req + length (ar_Entries req))
       (m'\<lparr>n_log := reconciled f (ar_PrevLogIndex req + 1) (ar_Entries req) k, n_wal := w\<rparr>)"
    "as_MatchIndex resp = ar_PrevLogIndex req + length (ar_Entries req)" "as_From resp = n_NodeID f" "as_Term resp = ar_Term req"
    by (rule append_accepted [OF assms(4) ok inv(12) bound])
  have k: "p + k \<le> length (n_log l)" "p + k \<le> length (n_log f)"
    using *(2,3) req inv(13) assms(3) agrees_end [OF inv(12) _ *(3)] by auto
  have "take (p + k) (n_log f) = take (p + k) (n_log l)"
    using matching_prefix [OF inv(9,3,5) req(5), of k] assms(3) req *(3) k entryTerm_nth [OF inv(2) _ req(5)] inv(4)
    by (auto split: if_splits)
  from reconciled_prefix [OF this inv(3) k(1)] show "take (length (n_log l)) (n_log f') = n_log l"
    using *(4) req(2,4) by simp
  show "as_Term resp = n_currentTerm l" "as_From resp = n_NodeID f" "as_MatchIndex resp = length (n_log l)" "n_NodeID f' = n_NodeID f"
    using *(4-7) req log_viewD(6) [OF *(1)] by simp_all
qed

lemma probe_refused:
  assumes "replicating l f" "probe_at l p req" "\<not> (p \<le> length (n_log f) \<and> (0 < p \<longrightarrow> entryTerm f p = Some (ar_PrevLogTerm req)))"
    "appendEntriesLocked disk_ok req f = (f', resp)" "p = max 1 (n_nextIndex l (n_NodeID f)) - 1"
  obtains l' where "handleAppendResponse disk_ok resp l = l'" "n_log l' = n_log l" "n_NodeID f' = n_NodeID f" "replicating l' f'"
    "n_nextIndex l' (n_NodeID f) < n_nextIndex l (n_NodeID f)"
proof -
  note inv = replicatingD [OF assms(1)]
  have req: "ar_Term req = n_currentTerm l" "ar_PrevLogIndex req = p" "p \<le> length (n_log l)"
    using assms(2) by (simp_all add: probe_at_def)
  obtain m where m: "appendEntriesLocked disk_ok req f = append_checked disk_ok req m" "log_view m = log_view f"
    "n_currentTerm m = ar_Term req"
    by (rule appendEntriesLocked_ok [of f req]) (use inv(6) req(1) in simp)
  obtain q where q: "resp = append_response f' False q" "q < p" "n_log f' = take q (n_log f)"
    "n_lastSnapshot f' = 0" "n_currentTerm f' = n_currentTerm m" "n_NodeID f' = n_NodeID f" "n_wal f' = None \<or> wal_synced f'"
    using append_probe [OF assms(1) m(2) req(2) assms(3)] m(1) assms(4) by (metis Pair_inject)
  have nx: "n_nextIndex l (n_NodeID f) = p + 1"
    using q(2) assms(5) by simp
  have "handleAppendResponse disk_ok resp l = l\<lparr>n_nextIndex := (n_nextIndex l)(n_NodeID f := q + 1)\<rparr>"
    using handle_refused [of l resp q disk_ok] nx q inv(1,4) m(3) req by (simp add: append_response_def)
  then show ?thesis
    by (rule that) (use q inv m(3) req nx log_matching_take [OF inv(9)] in \<open>auto simp: replicating_def\<close>)
qed

text \<open>A heartbeat leaves the follower with the leader's log, or makes the leader probe an earlier entry.\<close>

lemma heartbeat_step:
  assumes "replicating l f" "heartbeat disk_ok (l, f) = (l', f')"
  shows "n_log l' = n_log l \<and> n_NodeID f' = n_NodeID f \<and>
    (replicated l' f' \<or> replicating l' f' \<and> n_nextIndex l' (n_NodeID f) < n_nextIndex l (n_NodeID f))"
proof -
  define p where "p = max 1 (n_nextIndex l (n_NodeID f)) - 1"
  obtain req where req: "replicateTo (n_NodeID f) (n_currentTerm l) l = SendAppend req" "probe_at l p req"
    using replicateTo_leader [OF assms(1)] unfolding p_def probe_at_def by metis
  obtain resp where resp: "appendEntriesLocked disk_ok req f = (f', resp)" "l' = handleAppendResponse disk_ok resp l"
    using assms(2) req(1) by (auto simp: heartbeat_def split: prod.splits)
  note inv = replicatingD [OF assms(1)]
  show ?thesis
  proof (cases "p \<le> length (n_log f) \<and> (0 < p \<longrightarrow> entryTerm f p = Some (ar_PrevLogTerm req))")
    case True
    note acc = probe_accepted [OF assms(1) req(2) True resp(1)]
    from handle_accepted [OF inv(1) acc(2,1,4) inv(4), of disk_ok, unfolded acc(3), OF inv(8), folded resp(2)] acc show ?thesis
      by (simp add: replicated_def)
  next
    case False
    show ?thesis
      by (rule probe_refused [OF assms(1) req(2) False resp(1) p_def]) (use resp(2) in simp)
  qed
qed



end
