(* ===== verification/RaftRpc.thy ===== *)
theory RaftRpc
  imports RaftNode
begin

text \<open>
  The wire form of the Raft RPCs, \<^verbatim>\<open>internal/cluster/raft/encoding.go\<close>: the fixed layout of each message, the entry
  list inside an append request, and the frame around a message with its type, length and optional
  encryption.  A decoder writes into a fresh struct, so it is a function from the octets to the struct.
  An access outside a slice panics in Go; the reads below return that panic as an error value of its
  own, so that the absence of panics is a statement about the decoders.  Lengths are 64 bit integers, and the
  octets of a message are fewer than \<open>2 ^ 63\<close>.
\<close>

subsection \<open>Reads that may panic\<close>

definition panic :: error where
  "panic = Errorf ''runtime error: slice bounds out of range''"

definition Uint64_at :: "bytes \<Rightarrow> nat \<Rightarrow> nat result" where
  "Uint64_at data off = (if off + 8 \<le> length data then Inr (be_val (subslice data off 8)) else Inl panic)"

definition Uint32_at :: "bytes \<Rightarrow> nat \<Rightarrow> nat result" where
  "Uint32_at data off = (if off + 4 \<le> length data then Inr (be_val (subslice data off 4)) else Inl panic)"

definition octet_at :: "bytes \<Rightarrow> nat \<Rightarrow> byte result" where
  "octet_at data off = (if off < length data then Inr (data ! off) else Inl panic)"

definition slice_at :: "bytes \<Rightarrow> nat \<Rightarrow> nat \<Rightarrow> bytes result" where
  "slice_at data off n = (if off + n \<le> length data then Inr (subslice data off n) else Inl panic)"

subsection \<open>Votes\<close>

definition encodeVoteRequest :: "VoteRequest \<Rightarrow> bytes result" where
  "encodeVoteRequest v = Inr (be_bytes 8 (vr_Term v) @ be_bytes 4 (length (vr_CandidateID v)) @ vr_CandidateID v @
     be_bytes 8 (vr_LastLogIndex v) @ be_bytes 8 (vr_LastLogTerm v))"

definition decodeVoteRequest :: "bytes \<Rightarrow> VoteRequest result" where
  "decodeVoteRequest data =
     (if length data < 28 then Inl (Errorf ''VoteRequest: short data'') else
      and_then (Uint64_at data 0) (\<lambda>term.
      and_then (Uint32_at data 8) (\<lambda>candLen.
      let off = 12 in
      if off + candLen > length data then Inl (Errorf ''VoteRequest: candLen overflows data'') else
      and_then (slice_at data off candLen) (\<lambda>candidateID.
      let off = off + candLen in
      if off + 16 > length data then Inl (Errorf ''VoteRequest: truncated trailing log fields'') else
      and_then (Uint64_at data off) (\<lambda>lastLogIndex.
      and_then (Uint64_at data (off + 8)) (\<lambda>lastLogTerm.
      Inr \<lparr>vr_Term = term, vr_CandidateID = candidateID, vr_LastLogIndex = lastLogIndex, vr_LastLogTerm = lastLogTerm\<rparr>))))))"

definition encodeVoteResponse :: "VoteResponse \<Rightarrow> bytes result" where
  "encodeVoteResponse v = Inr (be_bytes 8 (vs_Term v) @ [if vs_VoteGranted v then 1 else 0] @
     be_bytes 4 (length (vs_From v)) @ vs_From v)"

definition decodeVoteResponse :: "bytes \<Rightarrow> VoteResponse result" where
  "decodeVoteResponse data =
     (if length data < 13 then Inl (Errorf ''VoteResponse: short data'') else
      and_then (Uint64_at data 0) (\<lambda>term.
      and_then (octet_at data 8) (\<lambda>granted.
      and_then (Uint32_at data 9) (\<lambda>fromLen.
      if 13 + fromLen > length data then Inl (Errorf ''VoteResponse: fromLen overflows data'') else
      and_then (slice_at data 13 fromLen) (\<lambda>from.
      Inr \<lparr>vs_Term = term, vs_VoteGranted = (granted = 1), vs_From = from\<rparr>)))))"

subsection \<open>Entries\<close>

definition encodeEntrySlice :: "entry list \<Rightarrow> bytes result" where
  "encodeEntrySlice entries = Inr (be_bytes 4 (length entries) @
     concat (map (\<lambda>e. be_bytes 8 (e_Index e) @ be_bytes 8 (e_Term e) @ [e_Type e] @ be_bytes 4 (length (e_Command e)) @
       e_Command e @ be_bytes 8 (e_Commitment e)) entries))"

text \<open>The loop of \<^verbatim>\<open>decodeEntrySlice\<close>, with the number of entries left to read.\<close>

fun decode_entries :: "nat \<Rightarrow> bytes \<Rightarrow> nat \<Rightarrow> entry list result" where
  "decode_entries 0 data off = Inr []"
| "decode_entries (Suc k) data off =
     (if off + 25 > length data then Inl (Errorf ''entry slice: entry overflow'') else
      and_then (Uint64_at data off) (\<lambda>index.
      and_then (Uint64_at data (off + 8)) (\<lambda>term.
      and_then (octet_at data (off + 16)) (\<lambda>typ.
      and_then (Uint32_at data (off + 17)) (\<lambda>cmdLen.
      let off = off + 21 in
      if off + cmdLen + 8 > length data then Inl (Errorf ''entry slice: command overflow'') else
      and_then (if cmdLen > 0 then slice_at data off cmdLen else Inr []) (\<lambda>command.
      let off = off + cmdLen in
      and_then (Uint64_at data off) (\<lambda>commitment.
      and_then (decode_entries k data (off + 8)) (\<lambda>entries.
      Inr (\<lparr>e_Index = index, e_Term = term, e_Command = command, e_Type = typ, e_Commitment = commitment\<rparr> # entries)))))))))"

definition decodeEntrySlice :: "bytes \<Rightarrow> entry list result" where
  "decodeEntrySlice data =
     (if length data < 4 then Inl (Errorf ''entry slice: short header'') else
      and_then (Uint32_at data 0) (\<lambda>count.
      let maxPossible = (length data - 4) mod 2 ^ 32 div 25 in
      if count > maxPossible then Inl (Errorf ''entry slice: count exceeds possible in remaining bytes'')
      else decode_entries count data 4))"

subsection \<open>Append and snapshot messages\<close>

definition encodeAppendRequest :: "AppendRequest \<Rightarrow> bytes result" where
  "encodeAppendRequest a =
     and_then (encodeEntrySlice (ar_Entries a)) (\<lambda>entriesBytes.
     Inr (be_bytes 8 (ar_Term a) @ be_bytes 4 (length (ar_LeaderID a)) @ ar_LeaderID a @ be_bytes 8 (ar_PrevLogIndex a) @
       be_bytes 8 (ar_PrevLogTerm a) @ be_bytes 4 (length entriesBytes) @ entriesBytes @ be_bytes 8 (ar_LeaderCommit a)))"

definition decodeAppendRequest :: "bytes \<Rightarrow> AppendRequest result" where
  "decodeAppendRequest data =
     (if length data < 36 then Inl (Errorf ''AppendRequest: short data'') else
      and_then (Uint64_at data 0) (\<lambda>term.
      and_then (Uint32_at data 8) (\<lambda>leaderLen.
      let off = 12 in
      if off + leaderLen > length data then Inl (Errorf ''AppendRequest: leaderLen overflows data'') else
      and_then (slice_at data off leaderLen) (\<lambda>leaderID.
      let off = off + leaderLen in
      if off + 20 > length data then Inl (Errorf ''AppendRequest: truncated after LeaderID'') else
      and_then (Uint64_at data off) (\<lambda>prevLogIndex.
      and_then (Uint64_at data (off + 8)) (\<lambda>prevLogTerm.
      and_then (Uint32_at data (off + 16)) (\<lambda>entriesLen.
      let off = off + 20; entriesEnd = off + entriesLen in
      if entriesEnd > length data \<or> entriesEnd < off then Inl (Errorf ''AppendRequest: entries overflow'') else
      and_then (slice_at data off entriesLen) (\<lambda>entriesBytes.
      and_then (decodeEntrySlice entriesBytes) (\<lambda>entries.
      let off = entriesEnd in
      if off + 8 > length data then Inl (Errorf ''AppendRequest: truncated LeaderCommit'') else
      and_then (Uint64_at data off) (\<lambda>leaderCommit.
      Inr \<lparr>ar_Term = term, ar_LeaderID = leaderID, ar_PrevLogIndex = prevLogIndex, ar_PrevLogTerm = prevLogTerm,
            ar_Entries = entries, ar_LeaderCommit = leaderCommit\<rparr>))))))))))"

definition encodeAppendResponse :: "AppendResponse \<Rightarrow> bytes result" where
  "encodeAppendResponse a = Inr (be_bytes 8 (as_Term a) @ [if as_Success a then 1 else 0] @ be_bytes 4 (length (as_From a)) @
     as_From a @ be_bytes 8 (as_MatchIndex a) @ be_bytes 8 (as_Commitment a))"

definition decodeAppendResponse :: "bytes \<Rightarrow> AppendResponse result" where
  "decodeAppendResponse data =
     (if length data < 21 then Inl (Errorf ''AppendResponse: short data'') else
      and_then (Uint64_at data 0) (\<lambda>term.
      and_then (octet_at data 8) (\<lambda>success.
      and_then (Uint32_at data 9) (\<lambda>fromLen.
      let off = 13 in
      if off + fromLen > length data then Inl (Errorf ''AppendResponse: fromLen overflows data'') else
      and_then (slice_at data off fromLen) (\<lambda>from.
      let off = off + fromLen in
      if off + 16 > length data then Inl (Errorf ''AppendResponse: truncated trailing index fields'') else
      and_then (Uint64_at data off) (\<lambda>matchIndex.
      and_then (Uint64_at data (off + 8)) (\<lambda>commitment.
      Inr \<lparr>as_Term = term, as_Success = (success = 1), as_From = from, as_MatchIndex = matchIndex,
            as_Commitment = commitment\<rparr>)))))))"

definition encodeSnapshotRequest :: "SnapshotRequest \<Rightarrow> bytes result" where
  "encodeSnapshotRequest s = Inr (be_bytes 8 (sr_Term s) @ be_bytes 4 (length (sr_LeaderID s)) @ sr_LeaderID s @
     be_bytes 8 (length (sr_Data s)) @ sr_Data s @ be_bytes 8 (sr_LastIndex s) @ be_bytes 8 (sr_LastTerm s))"

definition decodeSnapshotRequest :: "bytes \<Rightarrow> SnapshotRequest result" where
  "decodeSnapshotRequest data =
     (if length data < 20 then Inl (Errorf ''SnapshotRequest: short data'') else
      and_then (Uint64_at data 0) (\<lambda>term.
      and_then (Uint32_at data 8) (\<lambda>leaderLen.
      let off = 12 in
      if off + leaderLen > length data then Inl (Errorf ''SnapshotRequest: leaderLen overflows data'') else
      and_then (slice_at data off leaderLen) (\<lambda>leaderID.
      let off = off + leaderLen in
      if off + 8 > length data then Inl (Errorf ''SnapshotRequest: truncated at data length'') else
      and_then (Uint64_at data off) (\<lambda>dataLen.
      let off = off + 8 in
      if dataLen > length data - off then Inl (Errorf ''SnapshotRequest: dataLen exceeds remaining'') else
      let dataEnd = off + dataLen in
      if dataEnd > length data \<or> dataEnd < off then Inl (Errorf ''SnapshotRequest: data overflow'') else
      and_then (slice_at data off dataLen) (\<lambda>payload.
      let off = dataEnd in
      if off + 16 > length data then Inl (Errorf ''SnapshotRequest: truncated trailing index fields'') else
      and_then (Uint64_at data off) (\<lambda>lastIndex.
      and_then (Uint64_at data (off + 8)) (\<lambda>lastTerm.
      Inr \<lparr>sr_Term = term, sr_LeaderID = leaderID, sr_Data = payload, sr_LastIndex = lastIndex, sr_LastTerm = lastTerm\<rparr>))))))))"

definition encodeSnapshotResponse :: "SnapshotResponse \<Rightarrow> bytes result" where
  "encodeSnapshotResponse s = Inr (be_bytes 8 (ss_Term s) @ [if ss_Success s then 1 else 0])"

definition decodeSnapshotResponse :: "bytes \<Rightarrow> SnapshotResponse result" where
  "decodeSnapshotResponse data =
     (if length data < 9 then Inl (Errorf ''SnapshotResponse: short data'') else
      and_then (Uint64_at data 0) (\<lambda>term.
      and_then (octet_at data 8) (\<lambda>success.
      Inr \<lparr>ss_Term = term, ss_Success = (success = 1)\<rparr>)))"

subsection \<open>Frames\<close>

definition maxRPCMessageBytes :: nat where "maxRPCMessageBytes = 16 * 1024 * 1024"

text \<open>The methods of \<^verbatim>\<open>cipher.AEAD\<close>, an interface of the standard library whose implementation is a parameter: \<open>Seal\<close>
  and \<open>Open\<close> take the nonce, the text and the additional data.\<close>

record AEAD =
  NonceSize :: nat
  Overhead :: nat
  Seal :: "bytes \<Rightarrow> bytes \<Rightarrow> bytes \<Rightarrow> bytes"
  Open :: "bytes \<Rightarrow> bytes \<Rightarrow> bytes \<Rightarrow> bytes result"

definition writeRaw :: "byte \<Rightarrow> bytes \<Rightarrow> bytes result" where
  "writeRaw msgType plainPayload =
     (if length plainPayload > maxRPCMessageBytes then Inl (Errorf ''payload exceeds maxRPCMessageBytes'')
      else Inr ([msgType] @ be_bytes 4 (length plainPayload) @ plainPayload))"

text \<open>The message arrives encoded, or with the error of its encoder.  The random nonce is an argument.\<close>

definition writeFramed :: "AEAD option \<Rightarrow> bytes \<Rightarrow> byte \<Rightarrow> bytes result \<Rightarrow> bytes result" where
  "writeFramed aead nonce msgType msg =
     and_then (wrap_err ''encode native'' msg) (\<lambda>plainPayload.
     case aead of None \<Rightarrow> writeRaw msgType plainPayload
     | Some a \<Rightarrow>
         if length plainPayload > maxRPCMessageBytes then Inl (Errorf ''payload exceeds maxRPCMessageBytes'')
         else
           let ciphertext = nonce @ Seal a nonce plainPayload [msgType]
           in Inr ([msgType] @ be_bytes 4 (length ciphertext) @ ciphertext))"

text \<open>The result is the type, the payload and the rest of the stream.\<close>

definition readFrameBytes :: "AEAD option \<Rightarrow> bytes \<Rightarrow> (byte \<times> bytes \<times> bytes) result" where
  "readFrameBytes aead stream =
     (if length stream < 5 then Inl (Errorf ''unexpected EOF'') else
      let msgType = stream ! 0; len = be_val (subslice stream 1 4); rest = drop 5 stream in
      if len > maxRPCMessageBytes then Inl (Errorf ''frame length exceeds max'') else
      case aead of
        None \<Rightarrow>
          if len = 0 then Inr (msgType, [], rest)
          else if length rest < len then Inl (Errorf ''unexpected EOF'')
          else Inr (msgType, take len rest, drop len rest)
      | Some a \<Rightarrow>
          if len < NonceSize a + Overhead a then Inl (Errorf ''ciphertext too short for AEAD'')
          else if length rest < len then Inl (Errorf ''unexpected EOF'')
          else
            let ciphertext = take len rest
            in and_then (wrap_err ''aead open'' (Open a (take (NonceSize a) ciphertext) (drop (NonceSize a) ciphertext) [msgType]))
                 (\<lambda>plaintext. Inr (msgType, plaintext, drop len rest)))"

subsection \<open>Decoders never panic\<close>

lemma reads_in_range [simp]:
  "off + 8 \<le> length data \<Longrightarrow> Uint64_at data off = Inr (be_val (subslice data off 8))"
  "off + 4 \<le> length data \<Longrightarrow> Uint32_at data off = Inr (be_val (subslice data off 4))"
  "off < length data \<Longrightarrow> octet_at data off = Inr (data ! off)"
  "off + n \<le> length data \<Longrightarrow> slice_at data off n = Inr (subslice data off n)"
  by (simp_all add: Uint64_at_def Uint32_at_def octet_at_def slice_at_def)

lemma decode_entries_safe: "decode_entries k data off \<noteq> Inl panic"
proof (induction k arbitrary: off)
  case (Suc k)
  then show ?case
    by (auto simp: panic_def Let_def and_then_def split: sum.splits)
qed simp

lemma decodeEntrySlice_safe: "decodeEntrySlice data \<noteq> Inl panic"
  using decode_entries_safe by (auto simp: decodeEntrySlice_def panic_def Let_def)

text \<open>C18: No message makes a decoder of the Raft RPCs read outside the octets it was given.\<close>

theorem rpc_decode_safe:
  "decodeVoteRequest data \<noteq> Inl panic \<and> decodeVoteResponse data \<noteq> Inl panic \<and> decodeAppendRequest data \<noteq> Inl panic \<and>
   decodeAppendResponse data \<noteq> Inl panic \<and> decodeSnapshotRequest data \<noteq> Inl panic \<and> decodeSnapshotResponse data \<noteq> Inl panic"
proof (intro conjI)
  show "decodeVoteRequest data \<noteq> Inl panic"
    by (simp add: decodeVoteRequest_def panic_def Let_def)
  show "decodeVoteResponse data \<noteq> Inl panic"
    by (simp add: decodeVoteResponse_def panic_def Let_def)
  show "decodeAppendRequest data \<noteq> Inl panic"
    using decodeEntrySlice_safe
    by (auto simp: decodeAppendRequest_def panic_def Let_def and_then_def [of "decodeEntrySlice _"] split: sum.splits)
  show "decodeAppendResponse data \<noteq> Inl panic"
    by (simp add: decodeAppendResponse_def panic_def Let_def)
  show "decodeSnapshotRequest data \<noteq> Inl panic"
    by (simp add: decodeSnapshotRequest_def panic_def Let_def)
  show "decodeSnapshotResponse data \<noteq> Inl panic"
    by (simp add: decodeSnapshotResponse_def panic_def Let_def)
qed

subsection \<open>Round trips\<close>

definition word64 :: "nat \<Rightarrow> bool" where "word64 n \<longleftrightarrow> n < 2 ^ 64"

definition entry_words :: "entry \<Rightarrow> bool" where
  "entry_words e \<longleftrightarrow> word64 (e_Index e) \<and> word64 (e_Term e) \<and> word64 (e_Commitment e)"

text \<open>Messages that fit into a frame.\<close>

definition in_frame :: "bytes result \<Rightarrow> bool" where
  "in_frame r \<longleftrightarrow> (case r of Inl e \<Rightarrow> False | Inr bs \<Rightarrow> length bs \<le> maxRPCMessageBytes)"

lemma be_val_word64 [simp]: "word64 n \<Longrightarrow> be_val (be_bytes 8 n) = n"
  by (simp add: word64_def)

lemmas rpc_simps = in_frame_def maxRPCMessageBytes_def subslice_def nth_append drop_Cons' Let_def

lemma VoteRequest_roundtrip:
  assumes "word64 (vr_Term v)" "word64 (vr_LastLogIndex v)" "word64 (vr_LastLogTerm v)" "in_frame (encodeVoteRequest v)"
  shows "and_then (encodeVoteRequest v) decodeVoteRequest = Inr v"
  using assms by (simp add: encodeVoteRequest_def decodeVoteRequest_def rpc_simps)

lemma VoteResponse_roundtrip:
  assumes "word64 (vs_Term v)" "in_frame (encodeVoteResponse v)"
  shows "and_then (encodeVoteResponse v) decodeVoteResponse = Inr v"
  using assms by (simp add: encodeVoteResponse_def decodeVoteResponse_def rpc_simps)

lemma AppendResponse_roundtrip:
  assumes "word64 (as_Term a)" "word64 (as_MatchIndex a)" "word64 (as_Commitment a)" "in_frame (encodeAppendResponse a)"
  shows "and_then (encodeAppendResponse a) decodeAppendResponse = Inr a"
  using assms by (simp add: encodeAppendResponse_def decodeAppendResponse_def rpc_simps)

lemma SnapshotRequest_roundtrip:
  assumes "word64 (sr_Term s)" "word64 (sr_LastIndex s)" "word64 (sr_LastTerm s)" "in_frame (encodeSnapshotRequest s)"
  shows "and_then (encodeSnapshotRequest s) decodeSnapshotRequest = Inr s"
  using assms by (simp add: encodeSnapshotRequest_def decodeSnapshotRequest_def rpc_simps)

lemma SnapshotResponse_roundtrip:
  assumes "word64 (ss_Term s)"
  shows "and_then (encodeSnapshotResponse s) decodeSnapshotResponse = Inr s"
  using assms by (simp add: encodeSnapshotResponse_def decodeSnapshotResponse_def rpc_simps)

abbreviation entry_bytes :: "entry \<Rightarrow> bytes" where
  "entry_bytes e \<equiv> be_bytes 8 (e_Index e) @ be_bytes 8 (e_Term e) @ [e_Type e] @ be_bytes 4 (length (e_Command e)) @
     e_Command e @ be_bytes 8 (e_Commitment e)"

lemma decode_entries_bytes:
  assumes "list_all entry_words es" "\<forall>e \<in> set es. length (e_Command e) < 2 ^ 32"
  shows "decode_entries (length es) (pre @ concat (map entry_bytes es)) (length pre) = Inr es"
  using assms
proof (induction es arbitrary: pre)
  case (Cons e es)
  have "decode_entries (length es) ((pre @ entry_bytes e) @ concat (map entry_bytes es)) (length (pre @ entry_bytes e)) = Inr es"
    by (rule Cons.IH) (use Cons.prems in simp_all)
  with Cons.prems show ?case
    by (simp add: subslice_def nth_append drop_Cons' Let_def entry_words_def add.commute [of "length pre"] add.assoc)
qed simp

lemma entries_size: "29 * length es \<le> length (concat (map entry_bytes es))"
  by (induction es) simp_all

lemma entry_size: "e \<in> set es \<Longrightarrow> length (entry_bytes e) \<le> length (concat (map entry_bytes es))"
  by (induction es) auto

lemma EntrySlice_roundtrip:
  assumes "list_all entry_words es" "in_frame (encodeEntrySlice es)"
  shows "and_then (encodeEntrySlice es) decodeEntrySlice = Inr es"
proof -
  let ?bs = "concat (map entry_bytes es)"
  have size: "length ?bs < 2 ^ 32" "29 * length es \<le> length ?bs"
    using assms(2) entries_size [of es] by (auto simp: encodeEntrySlice_def in_frame_def maxRPCMessageBytes_def)
  have "length (e_Command e) < 2 ^ 32" if "e \<in> set es" for e
    using entry_size [OF that] size by simp
  with assms(1) have "decode_entries (length es) (be_bytes 4 (length es) @ ?bs) 4 = Inr es"
    using decode_entries_bytes [of es "be_bytes 4 (length es)"] by simp
  moreover have "length es \<le> length ?bs mod 2 ^ 32 div 25" "length es < 2 ^ 32"
    using size by (simp_all add: less_eq_div_iff_mult_less_eq)
  ultimately show ?thesis
    by (simp add: encodeEntrySlice_def decodeEntrySlice_def subslice_def del: concat.simps)
qed

lemma AppendRequest_roundtrip:
  assumes "word64 (ar_Term a)" "word64 (ar_PrevLogIndex a)" "word64 (ar_PrevLogTerm a)" "word64 (ar_LeaderCommit a)"
    "list_all entry_words (ar_Entries a)" "in_frame (encodeAppendRequest a)"
  shows "and_then (encodeAppendRequest a) decodeAppendRequest = Inr a"
proof -
  obtain bs where bs: "encodeEntrySlice (ar_Entries a) = Inr bs"
    by (simp add: encodeEntrySlice_def)
  have "in_frame (encodeEntrySlice (ar_Entries a))"
    using assms(6) bs by (simp add: encodeAppendRequest_def in_frame_def)
  from EntrySlice_roundtrip [OF assms(5) this] bs have "decodeEntrySlice bs = Inr (ar_Entries a)"
    by simp
  moreover have "4 \<le> length bs"
    using bs by (auto simp: encodeEntrySlice_def)
  ultimately show ?thesis
    using assms bs by (simp add: encodeAppendRequest_def decodeAppendRequest_def rpc_simps)
qed

text \<open>C19: Every Raft message whose numbers are 64 bit words and whose encoding fits into a frame is decoded to itself.\<close>

theorem rpc_roundtrip:
  "(word64 (vr_Term vq) \<and> word64 (vr_LastLogIndex vq) \<and> word64 (vr_LastLogTerm vq) \<and> in_frame (encodeVoteRequest vq) \<longrightarrow>
      and_then (encodeVoteRequest vq) decodeVoteRequest = Inr vq) \<and>
   (word64 (vs_Term vp) \<and> in_frame (encodeVoteResponse vp) \<longrightarrow>
      and_then (encodeVoteResponse vp) decodeVoteResponse = Inr vp) \<and>
   (word64 (ar_Term aq) \<and> word64 (ar_PrevLogIndex aq) \<and> word64 (ar_PrevLogTerm aq) \<and> word64 (ar_LeaderCommit aq) \<and>
      list_all entry_words (ar_Entries aq) \<and> in_frame (encodeAppendRequest aq) \<longrightarrow>
      and_then (encodeAppendRequest aq) decodeAppendRequest = Inr aq) \<and>
   (word64 (as_Term ap) \<and> word64 (as_MatchIndex ap) \<and> word64 (as_Commitment ap) \<and> in_frame (encodeAppendResponse ap) \<longrightarrow>
      and_then (encodeAppendResponse ap) decodeAppendResponse = Inr ap) \<and>
   (word64 (sr_Term sq) \<and> word64 (sr_LastIndex sq) \<and> word64 (sr_LastTerm sq) \<and> in_frame (encodeSnapshotRequest sq) \<longrightarrow>
      and_then (encodeSnapshotRequest sq) decodeSnapshotRequest = Inr sq) \<and>
   (word64 (ss_Term sp) \<longrightarrow> and_then (encodeSnapshotResponse sp) decodeSnapshotResponse = Inr sp)"
  by (simp add: VoteRequest_roundtrip VoteResponse_roundtrip AppendRequest_roundtrip AppendResponse_roundtrip
      SnapshotRequest_roundtrip SnapshotResponse_roundtrip)

definition sample_vote :: VoteRequest where
  "sample_vote = \<lparr>vr_Term = 3, vr_CandidateID = [65], vr_LastLogIndex = 2, vr_LastLogTerm = 1\<rparr>"

definition sample_append :: AppendRequest where
  "sample_append = \<lparr>ar_Term = 3, ar_LeaderID = [65], ar_PrevLogIndex = 1, ar_PrevLogTerm = 1,
     ar_Entries = [\<lparr>e_Index = 2, e_Term = 3, e_Command = [7, 8], e_Type = 0, e_Commitment = 0\<rparr>], ar_LeaderCommit = 1\<rparr>"

definition sample_snapshot :: SnapshotRequest where
  "sample_snapshot = \<lparr>sr_Term = 3, sr_LeaderID = [65], sr_Data = [1, 2, 3], sr_LastIndex = 9, sr_LastTerm = 2\<rparr>"

theorem rpc_roundtrip_witness:
  "and_then (encodeVoteRequest sample_vote) decodeVoteRequest = Inr sample_vote \<and>
   and_then (encodeVoteResponse \<lparr>vs_Term = 3, vs_VoteGranted = True, vs_From = [66]\<rparr>) decodeVoteResponse =
     Inr \<lparr>vs_Term = 3, vs_VoteGranted = True, vs_From = [66]\<rparr> \<and>
   and_then (encodeAppendRequest sample_append) decodeAppendRequest = Inr sample_append \<and>
   and_then (encodeAppendResponse \<lparr>as_Term = 3, as_Success = True, as_From = [66], as_MatchIndex = 2, as_Commitment = 0\<rparr>)
     decodeAppendResponse = Inr \<lparr>as_Term = 3, as_Success = True, as_From = [66], as_MatchIndex = 2, as_Commitment = 0\<rparr> \<and>
   and_then (encodeSnapshotRequest sample_snapshot) decodeSnapshotRequest = Inr sample_snapshot \<and>
   and_then (encodeSnapshotResponse \<lparr>ss_Term = 3, ss_Success = True\<rparr>) decodeSnapshotResponse =
     Inr \<lparr>ss_Term = 3, ss_Success = True\<rparr>"
proof -
  have fit: "in_frame (encodeVoteRequest sample_vote)" "in_frame (encodeAppendRequest sample_append)"
    "in_frame (encodeSnapshotRequest sample_snapshot)"
    by (simp_all add: sample_vote_def sample_append_def sample_snapshot_def encodeVoteRequest_def encodeAppendRequest_def
        encodeEntrySlice_def encodeSnapshotRequest_def in_frame_def maxRPCMessageBytes_def)
  have words: "word64 (vr_Term sample_vote)" "word64 (vr_LastLogIndex sample_vote)" "word64 (vr_LastLogTerm sample_vote)"
    "word64 (ar_Term sample_append)" "word64 (ar_PrevLogIndex sample_append)" "word64 (ar_PrevLogTerm sample_append)"
    "word64 (ar_LeaderCommit sample_append)" "list_all entry_words (ar_Entries sample_append)"
    "word64 (sr_Term sample_snapshot)" "word64 (sr_LastIndex sample_snapshot)" "word64 (sr_LastTerm sample_snapshot)"
    by (simp_all add: sample_vote_def sample_append_def sample_snapshot_def word64_def entry_words_def)
  show ?thesis
    using rpc_roundtrip [of sample_vote "\<lparr>vs_Term = 3, vs_VoteGranted = True, vs_From = [66]\<rparr>" sample_append
        "\<lparr>as_Term = 3, as_Success = True, as_From = [66], as_MatchIndex = 2, as_Commitment = 0\<rparr>" sample_snapshot
        "\<lparr>ss_Term = 3, ss_Success = True\<rparr>"] fit words
    by (simp add: word64_def encodeVoteResponse_def encodeAppendResponse_def in_frame_def maxRPCMessageBytes_def)
qed

text \<open>What \<^verbatim>\<open>cipher.AEAD\<close> documents: the sealed text is longer by the overhead, and opening it with the same nonce and
  additional data gives the text back.\<close>

definition aead_laws :: "AEAD \<Rightarrow> bool" where
  "aead_laws a \<longleftrightarrow> (\<forall>nonce text ad. length nonce = NonceSize a \<longrightarrow>
     length (Seal a nonce text ad) = length text + Overhead a \<and> Open a nonce (Seal a nonce text ad) ad = Inr text)"

definition frame_overhead :: "AEAD option \<Rightarrow> nat" where
  "frame_overhead aead = (case aead of None \<Rightarrow> 0 | Some a \<Rightarrow> NonceSize a + Overhead a)"

text \<open>C20: A frame, encrypted or not, is read back with its type and payload, and the stream continues behind it, exactly when
  the payload leaves room for the nonce and the tag: the writer bounds the payload, the reader the whole
  frame, so an encrypted payload between the two bounds is sent and refused.\<close>

theorem frame_roundtrip:
  assumes "length plain \<le> maxRPCMessageBytes" "frame_overhead aead < 2 ^ 16"
    "\<And>a. aead = Some a \<Longrightarrow> aead_laws a \<and> length nonce = NonceSize a"
  shows "\<exists>bs. writeFramed aead nonce msgType (Inr plain) = Inr bs \<and>
    readFrameBytes aead (bs @ rest) =
      (if length plain + frame_overhead aead \<le> maxRPCMessageBytes then Inr (msgType, plain, rest)
       else Inl (Errorf ''frame length exceeds max''))"
proof (cases aead)
  case None
  with assms(1) show ?thesis
    by (simp add: writeFramed_def writeRaw_def readFrameBytes_def frame_overhead_def subslice_def maxRPCMessageBytes_def Let_def)
next
  case (Some a)
  let ?ct = "nonce @ Seal a nonce plain [msgType]"
  have a: "length nonce = NonceSize a" "length (Seal a nonce plain [msgType]) = length plain + Overhead a"
    "Open a nonce (Seal a nonce plain [msgType]) [msgType] = Inr plain"
    using assms(3) [OF Some] by (simp_all add: aead_laws_def)
  have "be_val (be_bytes 4 (length ?ct)) = length ?ct"
    using a assms(1,2) Some by (intro be_val_u32) (simp add: frame_overhead_def maxRPCMessageBytes_def)
  then have "readFrameBytes aead (([msgType] @ be_bytes 4 (length ?ct) @ ?ct) @ rest) =
      (if length plain + frame_overhead aead \<le> maxRPCMessageBytes then Inr (msgType, plain, rest)
       else Inl (Errorf ''frame length exceeds max''))"
    using a Some by (simp add: readFrameBytes_def frame_overhead_def subslice_def Let_def)
  moreover have "writeFramed aead nonce msgType (Inr plain) = Inr ([msgType] @ be_bytes 4 (length ?ct) @ ?ct)"
    using assms(1) Some by (simp add: writeFramed_def Let_def)
  ultimately show ?thesis
    by blast
qed

theorem frame_roundtrip_witness:
  "\<exists>bs. writeFramed (Some \<lparr>NonceSize = 1, Overhead = 1, Seal = (\<lambda>n t ad. t @ n), Open = (\<lambda>n t ad. Inr (butlast t))\<rparr>) [9] 4 (Inr [1, 2]) =
     Inr bs \<and>
   readFrameBytes (Some \<lparr>NonceSize = 1, Overhead = 1, Seal = (\<lambda>n t ad. t @ n), Open = (\<lambda>n t ad. Inr (butlast t))\<rparr>) (bs @ [5]) =
     Inr (4, [1, 2], [5])"
proof -
  let ?a = "\<lparr>NonceSize = 1, Overhead = 1, Seal = (\<lambda>n t ad. t @ n), Open = (\<lambda>n t ad. Inr (butlast t))\<rparr>"
  have "aead_laws ?a"
    by (auto simp: aead_laws_def butlast_append length_Suc_conv)
  with frame_roundtrip [of "[1, 2]" "Some ?a" "[9]" 4 "[5]"] show ?thesis
    by (simp add: frame_overhead_def maxRPCMessageBytes_def)
qed

text \<open>A command larger than a frame is proposed and written to the log, but no append request carries it.\<close>

lemma oversized_command_not_sent:
  assumes "e \<in> set (ar_Entries req)" "maxRPCMessageBytes < length (e_Command e)" "aead = None"
  shows "writeFramed aead nonce msgType (encodeAppendRequest req) = Inl (Errorf ''payload exceeds maxRPCMessageBytes'')"
  using entry_size [OF assms(1)] assms(2,3)
  by (simp add: writeFramed_def writeRaw_def encodeAppendRequest_def encodeEntrySlice_def)

end
